(* ===== verification/Tv_Prelude.thy ===== *)
theory Tv_Prelude
  imports Main "HOL-Library.Word"
begin

unbundle bit_operations_syntax

section \<open>Shared vocabulary of the development\<close>

text \<open>
  Types, Rust library operations and generic lemmas used by every component.
  A Rust unsigned or signed machine integer is a word of its width (\<open>+\<close> wraps; signed
  values are read by \<open>sint\<close>); a \<open>usize\<close> that only counts the elements of a vector
  is a \<open>nat\<close>, with \<open>USIZE_MAX\<close> written out where the code checks for overflow. A
  \<open>Result<T, E>\<close> is the sum \<open>'e + 'a\<close> with the error on the left; a \<open>BTreeMap\<close>
  is a partial function.
\<close>

type_synonym u8 = "8 word"
type_synonym u16 = "16 word"
type_synonym u32 = "32 word"
type_synonym u64 = "64 word"
type_synonym i32 = "32 word"
type_synonym i64 = "64 word"
type_synonym bytes = "u8 list"

abbreviation Err :: "'e \<Rightarrow> 'e + 'a" where "Err \<equiv> Inl"
abbreviation Ok :: "'a \<Rightarrow> 'e + 'a" where "Ok \<equiv> Inr"

named_theorems frame_simps \<open>fields and keys an operation leaves alone\<close>
named_theorems wf_intros \<open>preservation of the components' invariants\<close>

subsection \<open>Integers\<close>

definition USIZE_MAX :: nat where
  "USIZE_MAX = 2 ^ 64 - 1"

definition U64_MAX :: u64 where
  "U64_MAX = - 1"

lemma unat_U64_MAX [simp]: "unat U64_MAX = 2 ^ 64 - 1"
  by (simp add: U64_MAX_def unsigned_minus_1_eq_mask mask_eq_exp_minus_1)

text \<open>Rust's \<open>checked_add\<close> on \<open>u64\<close> and on \<open>usize\<close>.\<close>

definition checked_add_u64 :: "u64 \<Rightarrow> u64 \<Rightarrow> u64 option" where
  "checked_add_u64 x y = (if unat x + unat y < 2 ^ 64 then Some (x + y) else None)"

definition checked_add_usize :: "nat \<Rightarrow> nat \<Rightarrow> nat option" where
  "checked_add_usize x y = (if x + y \<le> USIZE_MAX then Some (x + y) else None)"

text \<open>Rust's \<open>saturating_sub\<close> and \<open>saturating_add\<close> on \<open>u64\<close>.\<close>

definition saturating_sub_u64 :: "u64 \<Rightarrow> u64 \<Rightarrow> u64" where
  "saturating_sub_u64 x y = (if x < y then 0 else x - y)"

definition saturating_add_u64 :: "u64 \<Rightarrow> u64 \<Rightarrow> u64" where
  "saturating_add_u64 x y = (if unat x + unat y < 2 ^ 64 then x + y else U64_MAX)"

lemma checked_add_u64_Some:
  "checked_add_u64 x y = Some z \<Longrightarrow> unat z = unat x + unat y"
  by (auto simp: checked_add_u64_def unat_word_ariths split: if_splits)

lemma checked_add_u64_None:
  "checked_add_u64 x y = None \<longleftrightarrow> 2 ^ 64 \<le> unat x + unat y"
  by (auto simp: checked_add_u64_def)

lemma checked_add_usize_Some [simp]:
  "checked_add_usize x y = Some z \<longleftrightarrow> z = x + y \<and> x + y \<le> USIZE_MAX"
  by (auto simp: checked_add_usize_def)

lemma and_mask_lits:
  fixes x :: "'a::len word"
  shows "x AND 1 = take_bit 1 x" and "x AND 3 = take_bit 2 x" and "x AND 7 = take_bit 3 x"
    and "x AND 0x0f = take_bit 4 x" and "x AND 0x1f = take_bit 5 x" and "x AND 0x3f = take_bit 6 x"
    and "x AND 0x7f = take_bit 7 x" and "x AND 0xff = take_bit 8 x"
  by (simp_all add: take_bit_eq_mask mask_eq_exp_minus_1)

lemma and_3_cases: "(y :: u8) AND 3 = 0 \<or> y AND 3 = 1 \<or> y AND 3 = 2 \<or> y AND 3 = 3"
proof -
  have "unat (y AND 3) \<le> unat (3 :: u8)" by (simp only: word_le_nat_alt [symmetric] word_and_le1)
  then have "unat (y AND 3) = 0 \<or> unat (y AND 3) = 1 \<or> unat (y AND 3) = 2 \<or> unat (y AND 3) = 3" by auto
  then show ?thesis by (auto simp: word_unat_eq_iff)
qed

lemma unat_byte: "k < 256 \<Longrightarrow> unat (word_of_nat k :: u8) = k"
  by (simp add: unat_of_nat)

lemma nibbles:
  assumes "n < 16" and "m < 16"
  shows "drop_bit 4 (word_of_nat (16 * n + m) :: u8) AND 0x0f = word_of_nat n"
    and "(word_of_nat (16 * n + m) :: u8) AND 0x0f = word_of_nat m"
proof -
  let ?w = "word_of_nat (16 * n + m) :: u8"
  have w: "unat ?w = 16 * n + m" by (rule unat_byte) (use assms in simp)
  have "unat (drop_bit 4 ?w AND 0x0f) = unat (word_of_nat n :: u8)"
    using assms by (simp add: and_mask_lits unsigned_take_bit_eq unsigned_drop_bit_eq w take_bit_nat_def
        drop_bit_nat_def unat_byte del: of_nat_add of_nat_mult)
  then show "drop_bit 4 ?w AND 0x0f = word_of_nat n" by (simp only: word_unat_eq_iff)
  have "unat (?w AND 0x0f) = unat (word_of_nat m :: u8)"
    using assms by (simp add: and_mask_lits unsigned_take_bit_eq w take_bit_nat_def unat_byte
        del: of_nat_add of_nat_mult)
  then show "?w AND 0x0f = word_of_nat m" by (simp only: word_unat_eq_iff)
qed

text \<open>\<open>u16::from_be_bytes\<close>.\<close>

definition be16 :: "u8 \<Rightarrow> u8 \<Rightarrow> u16" where
  "be16 hi lo = push_bit 8 (ucast hi) OR ucast lo"

text \<open>
  A \<open>u64\<close> event counter with a sticky saturation flag: the match on \<open>checked_add(1)\<close>
  that several components repeat.
\<close>

definition sat_incr :: "u64 \<Rightarrow> bool \<Rightarrow> u64 \<times> bool" where
  "sat_incr n saturated =
     (case checked_add_u64 n 1 of Some next \<Rightarrow> (next, saturated) | None \<Rightarrow> (n, True))"

subsection \<open>Byte slices\<close>

text \<open>\<open>s.get(i)\<close>, \<open>s.starts_with(p)\<close> and \<open>&s[i..j]\<close>.\<close>

definition get_opt :: "'a list \<Rightarrow> nat \<Rightarrow> 'a option" where
  "get_opt xs i = (if i < length xs then Some (xs ! i) else None)"

definition starts_with :: "'a list \<Rightarrow> 'a list \<Rightarrow> bool" where
  "starts_with xs p \<longleftrightarrow> take (length p) xs = p"

definition slice :: "'a list \<Rightarrow> nat \<Rightarrow> nat \<Rightarrow> 'a list" where
  "slice xs i j = take (j - i) (drop i xs)"

lemma length_slice [simp]: "length (slice xs i j) = min (j - i) (length xs - i)"
  by (simp add: slice_def min.commute)

lemma slice_nth [simp]: "i + k < j \<Longrightarrow> i \<le> length xs \<Longrightarrow> slice xs i j ! k = xs ! (i + k)"
  by (simp add: slice_def)

lemma slice_append1: "j \<le> length xs \<Longrightarrow> slice (xs @ ys) i j = slice xs i j"
  by (cases "i \<le> length xs") (auto simp: slice_def)

lemma starts_with_append: "starts_with xs p \<Longrightarrow> starts_with (xs @ ys) p"
proof -
  assume a: "starts_with xs p"
  then have "length p \<le> length xs"
    by (metis length_take min.absorb_iff1 min.cobounded1 starts_with_def)
  with a show ?thesis by (simp add: starts_with_def)
qed

lemma get_opt_append: "get_opt xs i = Some x \<Longrightarrow> get_opt (xs @ ys) i = Some x"
  by (auto simp: get_opt_def nth_append split: if_splits)

subsection \<open>Maps\<close>

text \<open>\<open>map.retain(|k, _| p(k))\<close> and \<open>map.entry(k).or_insert(d)\<close>.\<close>

definition retain :: "('k \<Rightarrow> bool) \<Rightarrow> ('k \<rightharpoonup> 'v) \<Rightarrow> ('k \<rightharpoonup> 'v)" where
  "retain p m = (\<lambda>k. if p k then m k else None)"

definition entry_or :: "'v \<Rightarrow> ('k \<rightharpoonup> 'v) \<Rightarrow> 'k \<Rightarrow> 'v" where
  "entry_or d m k = (case m k of None \<Rightarrow> d | Some v \<Rightarrow> v)"

lemma retain_apply [simp]: "retain p m k = (if p k then m k else None)"
  by (simp add: retain_def)

lemma dom_retain: "dom (retain p m) = {k \<in> dom m. p k}"
  by (auto simp: retain_def split: if_splits)

lemma retain_retain [simp]: "retain p (retain q m) = retain (\<lambda>k. p k \<and> q k) m"
  by (auto simp: retain_def)

lemma retain_upd: "retain p (m(k \<mapsto> v)) = (if p k then (retain p m)(k \<mapsto> v) else retain p m)"
  by (auto simp: retain_def)

lemma entry_or_upd [simp]: "entry_or d (m(k \<mapsto> v)) k' = (if k' = k then v else entry_or d m k')"
  by (simp add: entry_or_def)

text \<open>A property of all values of a map.\<close>

definition ran_all :: "('v \<Rightarrow> bool) \<Rightarrow> ('k \<rightharpoonup> 'v) \<Rightarrow> bool" where
  "ran_all P m \<longleftrightarrow> (\<forall>k v. m k = Some v \<longrightarrow> P v)"

lemma ran_all_empty [simp, intro]: "ran_all P Map.empty"
  by (simp add: ran_all_def)

lemma ran_all_upd [intro]: "ran_all P m \<Longrightarrow> P v \<Longrightarrow> ran_all P (m(k \<mapsto> v))"
  by (simp add: ran_all_def)

lemma ran_all_retain [intro]: "ran_all P m \<Longrightarrow> ran_all P (retain p m)"
  by (simp add: ran_all_def)

lemma ran_all_entry: "ran_all P m \<Longrightarrow> P d \<Longrightarrow> P (entry_or d m k)"
  by (auto simp: ran_all_def entry_or_def split: option.splits)

end
