(* ===== verification/Hal_Common.thy ===== *)
theory Hal_Common
  imports Tv_Prelude
begin

section \<open>Common definitions of the tuner HAL\<close>

text \<open>
  The parts of \<open>tuner_hal2/common/src/lib.rs\<close> that carry no packet state: transport
  stream PIDs, the section length classes of ARIB STD-B10, the identifier allocator, the
  collection and composition of cleanup errors, and the Japanese frequency plans.
\<close>

subsection \<open>Constants\<close>

definition TS_PACKET_SIZE :: nat where "TS_PACKET_SIZE = 188"
definition MAX_ARIB_SHORT_SECTION_LENGTH :: nat where "MAX_ARIB_SHORT_SECTION_LENGTH = 1021"
definition MAX_ARIB_EIT_SECTION_LENGTH :: nat where "MAX_ARIB_EIT_SECTION_LENGTH = 4093"
definition ARIB_TDT_SECTION_LENGTH :: nat where "ARIB_TDT_SECTION_LENGTH = 5"
definition MAX_ARIB_SECTION_TOTAL_BYTES :: nat where
  "MAX_ARIB_SECTION_TOTAL_BYTES = 3 + MAX_ARIB_EIT_SECTION_LENGTH"
definition MAX_SECTION_PAYLOAD_BYTES :: nat where
  "MAX_SECTION_PAYLOAD_BYTES = MAX_ARIB_SECTION_TOTAL_BYTES"

lemmas hal_sizes =
  TS_PACKET_SIZE_def MAX_ARIB_SHORT_SECTION_LENGTH_def MAX_ARIB_EIT_SECTION_LENGTH_def
  ARIB_TDT_SECTION_LENGTH_def MAX_ARIB_SECTION_TOTAL_BYTES_def MAX_SECTION_PAYLOAD_BYTES_def

subsection \<open>Transport stream PIDs\<close>

datatype transport_stream_pid = TransportStreamPid (pid_raw: u16)

datatype pid_validation_error = PidOutOfRange

definition from_mpeg_ts_header_bytes :: "u8 \<Rightarrow> u8 \<Rightarrow> transport_stream_pid" where
  "from_mpeg_ts_header_bytes b1 b2 =
     TransportStreamPid (push_bit 8 (ucast (b1 AND 0x1f)) OR ucast b2)"

definition validate_u16 :: "u16 \<Rightarrow> pid_validation_error + transport_stream_pid" where
  "validate_u16 pid = (if pid \<le> 0x1fff then Ok (TransportStreamPid pid) else Err PidOutOfRange)"

definition validate_i32 :: "i32 \<Rightarrow> pid_validation_error + transport_stream_pid" where
  "validate_i32 pid =
     (if 0 \<le> sint pid \<and> sint pid \<le> 0x1fff then Ok (TransportStreamPid (ucast pid))
      else Err PidOutOfRange)"

definition to_i32_for_aidl_boundary :: "transport_stream_pid \<Rightarrow> i32" where
  "to_i32_for_aidl_boundary p = ucast (pid_raw p)"

definition matches_i32_config :: "transport_stream_pid \<Rightarrow> i32 option \<Rightarrow> bool" where
  "matches_i32_config p tpid =
     (case tpid of Some config_pid \<Rightarrow> config_pid = ucast (pid_raw p) | None \<Rightarrow> False)"

definition valid_pid :: "transport_stream_pid \<Rightarrow> bool" where
  "valid_pid p \<longleftrightarrow> pid_raw p \<le> 0x1fff"

lemma header_pid_valid: "valid_pid (from_mpeg_ts_header_bytes b1 b2)"
proof -
  let ?p = "push_bit 8 (ucast (take_bit 5 b1)) OR ucast b2 :: u16"
  have "take_bit 13 ?p = ?p"
    by (rule bit_word_eqI) (auto simp: bit_simps dest: bit_imp_le_length)
  then have "?p \<le> mask 13"
    by (metis take_bit_eq_mask word_and_le1)
  then show ?thesis
    by (simp add: valid_pid_def from_mpeg_ts_header_bytes_def and_mask_lits mask_eq_exp_minus_1)
qed

subsection \<open>Section lengths per table\<close>

definition max_arib_section_length_for_table_id :: "u8 \<Rightarrow> nat" where
  "max_arib_section_length_for_table_id t =
     (if t = 0x70 then ARIB_TDT_SECTION_LENGTH
      else if t \<le> 0x03 \<or> t = 0x40 \<or> t = 0x41 \<or> t = 0x42 \<or> t = 0x46 \<or> t = 0x4a \<or> t = 0x71 \<or> t = 0x73
        then MAX_ARIB_SHORT_SECTION_LENGTH
      else MAX_ARIB_EIT_SECTION_LENGTH)"

definition is_valid_arib_section_length :: "u8 \<Rightarrow> nat \<Rightarrow> bool" where
  "is_valid_arib_section_length t n =
     (if t = 0x70 then n = ARIB_TDT_SECTION_LENGTH
      else n \<le> max_arib_section_length_for_table_id t)"

lemma valid_section_length_bound:
  "is_valid_arib_section_length t n \<Longrightarrow> n \<le> MAX_ARIB_EIT_SECTION_LENGTH"
  by (auto simp: is_valid_arib_section_length_def max_arib_section_length_for_table_id_def hal_sizes
      split: if_splits)

subsection \<open>Identifier allocation\<close>

text \<open>
  The allocator holds the next identifier in an atomic integer. A call is one successful
  compare-exchange, so calls from several threads are some sequence of these steps.
\<close>

record id_allocator =
  ia_next :: i32
  ia_max :: i32

datatype id_exhausted = IdExhausted (last_attempted: i32)

definition I32_MAX :: i32 where "I32_MAX = 0x7fffffff"

definition new_bounded :: "i32 \<Rightarrow> i32 \<Rightarrow> id_allocator" where
  "new_bounded start mx = \<lparr>ia_next = start, ia_max = mx\<rparr>"

definition try_allocate :: "id_allocator \<Rightarrow> (id_exhausted + i32) \<times> id_allocator" where
  "try_allocate a =
     (let current = ia_next a in
      if sint (ia_max a) < sint current then (Err (IdExhausted current), a)
      else if current = I32_MAX then (Err (IdExhausted current), a)
      else (Ok current, a\<lparr>ia_next := current + 1\<rparr>))"

fun allocate_many :: "nat \<Rightarrow> id_allocator \<Rightarrow> i32 list \<times> id_allocator" where
  "allocate_many 0 a = ([], a)"
| "allocate_many (Suc n) a =
     (case try_allocate a of
        (Err _, a') \<Rightarrow> allocate_many n a'
      | (Ok i, a') \<Rightarrow> (case allocate_many n a' of (is, a'') \<Rightarrow> (i # is, a'')))"

lemma sint_incr:
  fixes x :: i32
  assumes "x \<noteq> I32_MAX"
  shows "sint (x + 1) = sint x + 1"
proof -
  have le: "sint x < 2 ^ 31" and ge: "- (2 ^ 31) \<le> sint x"
    using sint_range_size [of x] by (auto simp: word_size)
  have "sint x \<noteq> 2 ^ 31 - 1"
  proof
    assume "sint x = 2 ^ 31 - 1"
    then have "word_of_int (sint x) = (word_of_int (2 ^ 31 - 1) :: i32)" by simp
    then show False using assms by (simp add: I32_MAX_def)
  qed
  with le ge show ?thesis by (simp add: sint_word_ariths signed_take_bit_int_eq_self)
qed

lemma try_allocate_Ok:
  assumes "try_allocate a = (Ok i, a')"
  shows "i = ia_next a" and "sint i \<le> sint (ia_max a)" and "sint (ia_next a') = sint i + 1"
    and "ia_max a' = ia_max a"
  using assms by (auto simp: try_allocate_def Let_def sint_incr split: if_splits)

lemma try_allocate_Err: "try_allocate a = (Err e, a') \<Longrightarrow> a' = a"
  by (auto simp: try_allocate_def Let_def split: if_splits)

lemma allocate_many_bounds:
  "allocate_many n a = (is, a') \<Longrightarrow> i \<in> set is \<Longrightarrow> sint (ia_next a) \<le> sint i \<and> sint i \<le> sint (ia_max a)"
proof (induction n arbitrary: a "is")
  case (Suc n)
  show ?case
  proof (cases "fst (try_allocate a)")
    case (Inl e)
    with Suc show ?thesis
      by (cases "try_allocate a") (auto dest: try_allocate_Err)
  next
    case (Inr j)
    then obtain b where b: "try_allocate a = (Ok j, b)" by (cases "try_allocate a") auto
    with Suc.prems obtain js where js: "allocate_many n b = (js, a')" and "is": "is = j # js"
      by (auto split: prod.splits)
    note ok = try_allocate_Ok [OF b]
    show ?thesis
    proof (cases "i = j")
      case True with ok show ?thesis by simp
    next
      case False
      with "is" Suc.prems(2) have "i \<in> set js" by simp
      from Suc.IH [OF js this] ok show ?thesis by auto
    qed
  qed
qed auto

lemma allocate_many_strict: "allocate_many n a = (is, a') \<Longrightarrow> sorted_wrt (\<lambda>i j. sint i < sint j) is"
proof (induction n arbitrary: a "is")
  case (Suc n)
  show ?case
  proof (cases "fst (try_allocate a)")
    case (Inl e)
    with Suc show ?thesis
      by (cases "try_allocate a") (auto dest: try_allocate_Err)
  next
    case (Inr j)
    then obtain b where b: "try_allocate a = (Ok j, b)" by (cases "try_allocate a") auto
    with Suc.prems obtain js where js: "allocate_many n b = (js, a')" and "is": "is = j # js"
      by (auto split: prod.splits)
    from allocate_many_bounds [OF js] try_allocate_Ok [OF b]
    have "\<forall>i \<in> set js. sint j < sint i" by fastforce
    with Suc.IH [OF js] "is" show ?thesis by simp
  qed
qed simp

subsection \<open>Collecting and composing cleanup errors\<close>

record 'e first_error_collector =
  first_error :: "'e option"

definition collector_new :: "'e first_error_collector" where
  "collector_new = \<lparr>first_error = None\<rparr>"

definition push_error :: "'e \<Rightarrow> 'e first_error_collector \<Rightarrow> 'e first_error_collector" where
  "push_error e c = (if first_error c = None then c\<lparr>first_error := Some e\<rparr> else c)"

definition push_result :: "'e + unit \<Rightarrow> 'e first_error_collector \<Rightarrow> 'e first_error_collector" where
  "push_result r c = (case r of Err e \<Rightarrow> push_error e c | Ok _ \<Rightarrow> c)"

definition has_error :: "'e first_error_collector \<Rightarrow> bool" where
  "has_error c \<longleftrightarrow> first_error c \<noteq> None"

definition into_result :: "'e first_error_collector \<Rightarrow> 'e + unit" where
  "into_result c = (case first_error c of Some e \<Rightarrow> Err e | None \<Rightarrow> Ok ())"

lemma collector_fold_set:
  "first_error c = Some e \<Longrightarrow> fold push_result rs c = c"
  by (induction rs arbitrary: c)
    (auto simp: push_result_def push_error_def split: sum.splits)

lemma collector_fold:
  "into_result (fold push_result rs collector_new) =
     (case find isl rs of None \<Rightarrow> Ok () | Some r \<Rightarrow> Err (projl r))"
proof (induction rs)
  case Nil
  then show ?case by (simp add: into_result_def collector_new_def)
next
  case (Cons r rs)
  show ?case
  proof (cases r)
    case (Inl e)
    have "fold push_result rs (push_result (Inl e) collector_new) = push_result (Inl e) collector_new"
      by (rule collector_fold_set [where e = e])
        (simp add: push_result_def push_error_def collector_new_def)
    then have "into_result (fold push_result (r # rs) collector_new) = Err e"
      by (simp add: Inl) (simp add: into_result_def push_result_def push_error_def collector_new_def)
    with Inl show ?thesis by simp
  next
    case (Inr u)
    with Cons show ?thesis by (simp add: push_result_def)
  qed
qed

text \<open>
  The error type of the HAL; paths, static names and details are strings.
\<close>

datatype hal_invalid_argument_kind =
    MissingDeliverySystem | UnsupportedStreamSelector | InvalidStreamIdRange
  | UnsupportedSymbolRate | UnsupportedBandwidth | MissingStreamSelector
  | UnsupportedFrequency | UnsupportedScanRange | NumericRange

datatype hal_invalid_state_kind = InvalidLifecycle

datatype hal_internal_kind = InvariantViolation

datatype hal_error =
    NotInitialized string
  | DeviceMissing string
  | OpenFailed string string
  | PermissionDenied string string
  | Busy "string option" string
  | IoctlFailed string "string option" string i32
  | CallbackFailed string string
  | FmqFailed string string
  | EventFlagFailed string string
  | CleanupFailed string string
  | OutOfMemory string string
  | ComposedFailure string hal_error hal_error
  | InvalidArgument hal_invalid_argument_kind string
  | InvalidState hal_invalid_state_kind string
  | HalIo string string "string option" "i32 option" string
  | HalInternal hal_internal_kind string
  | Unsupported string
  | UnsupportedDetail string string

fun primary_error :: "hal_error \<Rightarrow> hal_error" where
  "primary_error (ComposedFailure _ p _) = primary_error p"
| "primary_error other = other"

definition cleanup_error :: "hal_error \<Rightarrow> hal_error option" where
  "cleanup_error e = (case e of ComposedFailure _ _ c \<Rightarrow> Some c | _ \<Rightarrow> None)"

definition invalid_argument_kind :: "hal_error \<Rightarrow> hal_invalid_argument_kind option" where
  "invalid_argument_kind e = (case e of InvalidArgument k _ \<Rightarrow> Some k | _ \<Rightarrow> None)"

definition compose_primary_cleanup_failure ::
  "string \<Rightarrow> hal_error \<Rightarrow> hal_error \<Rightarrow> hal_error" where
  "compose_primary_cleanup_failure c p e = ComposedFailure c p e"

definition finish_cleanup_after_primary_failure ::
  "string \<Rightarrow> hal_error \<Rightarrow> hal_error + unit \<Rightarrow> hal_error" where
  "finish_cleanup_after_primary_failure c p r =
     (case r of Ok _ \<Rightarrow> p | Err e \<Rightarrow> compose_primary_cleanup_failure c p e)"

definition fail_after_cleanup ::
  "string \<Rightarrow> hal_error \<Rightarrow> hal_error + unit \<Rightarrow> hal_error + 'a" where
  "fail_after_cleanup c p r = Err (finish_cleanup_after_primary_failure c p r)"

subsection \<open>Frequency plans\<close>

definition is_japan_isdbt_frequency_contract_hz :: "u64 \<Rightarrow> bool" where
  "is_japan_isdbt_frequency_contract_hz f \<longleftrightarrow>
     saturating_sub_u64 111142857 500000 \<le> f \<and> f \<le> saturating_add_u64 767142857 500000"

definition is_japan_bs_if_frequency_hz :: "u64 \<Rightarrow> bool" where
  "is_japan_bs_if_frequency_hz f =
     (if f < 1049480000 \<or> 1471440000 < f then False else (f - 1049480000) mod 38360000 = 0)"

definition is_japan_cs110_if_frequency_hz :: "u64 \<Rightarrow> bool" where
  "is_japan_cs110_if_frequency_hz f =
     (if f < 1613000000 \<or> 2053000000 < f then False else (f - 1613000000) mod 40000000 = 0)"

end
