(* ===== verification/Ts_Framing.thy ===== *)
theory Ts_Framing
  imports Hal_Common "HOL-Library.Sublist"
begin

section \<open>Transport stream framing and resynchronisation\<close>

text \<open>
  \<open>TsPacketCompletionBuffer\<close> of \<open>tuner_hal2/common/src/lib.rs\<close>: the only place that
  cuts a byte stream into 188-byte packets. In sync it cuts a packet whenever 188 bytes that
  start with 0x47 are there; on a wrong first byte it discards until three sync bytes stand
  188 bytes apart.
\<close>

subsection \<open>State and operations\<close>

definition TS_RESYNC_CONFIRM_PACKETS :: nat where "TS_RESYNC_CONFIRM_PACKETS = 3"
definition TS_RESYNC_TAIL_BYTES :: nat where
  "TS_RESYNC_TAIL_BYTES = TS_PACKET_SIZE * (TS_RESYNC_CONFIRM_PACKETS - 1)"
definition TS_RESYNC_CONFIRM_BYTES :: nat where
  "TS_RESYNC_CONFIRM_BYTES = TS_RESYNC_TAIL_BYTES + 1"

lemmas framing_sizes = TS_RESYNC_CONFIRM_PACKETS_def TS_RESYNC_TAIL_BYTES_def
  TS_RESYNC_CONFIRM_BYTES_def TS_PACKET_SIZE_def

record ts_packet_buffer_drain =
  dr_packets :: "bytes list"
  dr_malformed_bytes :: nat

record ts_packet_completion_buffer =
  tb_buf :: bytes
  tb_completed :: "bytes list"
  tb_malformed_bytes :: u64
  tb_malformed_bytes_saturated :: bool
  tb_resync_required :: bool

definition ts_buffer_default :: ts_packet_completion_buffer where
  "ts_buffer_default = \<lparr>tb_buf = [], tb_completed = [], tb_malformed_bytes = 0,
     tb_malformed_bytes_saturated = False, tb_resync_required = False\<rparr>"

definition add_local_malformed :: "nat \<Rightarrow> nat \<Rightarrow> bool \<Rightarrow> nat \<times> bool" where
  "add_local_malformed local amount saturated =
     (case checked_add_usize local amount of
        Some next \<Rightarrow> (next, saturated)
      | None \<Rightarrow> (USIZE_MAX, True))"

definition add_malformed_bytes ::
  "nat \<Rightarrow> ts_packet_completion_buffer \<Rightarrow> ts_packet_completion_buffer" where
  "add_malformed_bytes amount s =
     (if amount = 0 then s
      else
        let amount = (if amount < 2 ^ 64 then of_nat amount else U64_MAX);
            s' = (case checked_add_u64 (tb_malformed_bytes s) amount of
                    Some next \<Rightarrow> s\<lparr>tb_malformed_bytes := next\<rparr>
                  | None \<Rightarrow> s\<lparr>tb_malformed_bytes := U64_MAX, tb_malformed_bytes_saturated := True\<rparr>)
        in if amount = U64_MAX then s'\<lparr>tb_malformed_bytes_saturated := True\<rparr> else s')"

definition sync_at :: "bytes \<Rightarrow> nat \<Rightarrow> bool" where
  "sync_at buf offset \<longleftrightarrow>
     list_all (\<lambda>packet_index. buf ! (offset + packet_index * TS_PACKET_SIZE) = 0x47)
       [0..<TS_RESYNC_CONFIRM_PACKETS]"

definition confirmed_sync_offset :: "bytes \<Rightarrow> nat option" where
  "confirmed_sync_offset buf =
     (if length buf < TS_RESYNC_CONFIRM_BYTES then None
      else let last_start = length buf - TS_RESYNC_CONFIRM_BYTES
           in find (sync_at buf) [0..<Suc last_start])"

text \<open>
  The loop of \<open>push\<close>: the resync flag, the buffer, the completed packets, the malformed
  bytes of this call and their saturation flag.
\<close>

function push_loop ::
  "bool \<Rightarrow> bytes \<Rightarrow> bytes list \<Rightarrow> nat \<Rightarrow> bool \<Rightarrow> bool \<times> bytes \<times> bytes list \<times> nat \<times> bool" where
  "push_loop resync buf completed malformed saturated =
     (if resync then
        (case confirmed_sync_offset buf of
           None \<Rightarrow>
             (if TS_RESYNC_TAIL_BYTES < length buf then
                let discard = length buf - TS_RESYNC_TAIL_BYTES;
                    (m, sat) = add_local_malformed malformed discard saturated
                in (resync, drop discard buf, completed, m, sat)
              else (resync, buf, completed, malformed, saturated))
         | Some offset \<Rightarrow>
             (if 0 < offset then
                let (m, sat) = add_local_malformed malformed offset saturated
                in push_loop False (drop offset buf) completed m sat
              else push_loop False buf completed malformed saturated))
      else if length buf < TS_PACKET_SIZE then (resync, buf, completed, malformed, saturated)
      else if hd buf \<noteq> 0x47 then push_loop True buf completed malformed saturated
      else push_loop resync (drop TS_PACKET_SIZE buf) (completed @ [take TS_PACKET_SIZE buf])
             malformed saturated)"
  by pat_completeness auto

lemma confirmed_sync_offsetD:
  assumes "confirmed_sync_offset buf = Some offset"
  shows "offset + 376 < length buf" and "sync_at buf offset" and "buf ! offset = 0x47"
    and "hd (drop offset buf) = 0x47"
proof -
  from assms have len: "377 \<le> length buf"
    and f: "find (sync_at buf) [0..<Suc (length buf - 377)] = Some offset"
    by (auto simp: confirmed_sync_offset_def framing_sizes Let_def split: if_splits)
  from f obtain i where "i < length [0..<Suc (length buf - 377)]"
    and "offset = [0..<Suc (length buf - 377)] ! i" and s: "sync_at buf offset"
    by (auto simp: find_Some_iff)
  with len show b: "offset + 376 < length buf" by (simp del: upt_Suc)
  from s show "sync_at buf offset" .
  then show h: "buf ! offset = 0x47" by (simp add: sync_at_def framing_sizes upt_rec)
  from b h show "hd (drop offset buf) = 0x47" by (simp add: hd_drop_conv_nth)
qed

termination push_loop
proof (relation "measure (\<lambda>(resync, buf, _).
    3 * length buf + (if resync then 1 else if buf = [] \<or> hd buf = 0x47 then 0 else 2))", goal_cases)
  case 1
  show ?case by simp
next
  case (2 resync buf completed malformed saturated offset)
  then show ?case using confirmed_sync_offsetD [of buf offset] by auto
next
  case (3 resync buf completed malformed saturated offset)
  then show ?case using confirmed_sync_offsetD [of buf offset] by auto
next
  case (4 resync buf completed malformed saturated)
  then show ?case by (auto simp: TS_PACKET_SIZE_def)
next
  case (5 resync buf completed malformed saturated)
  then show ?case by (auto simp: TS_PACKET_SIZE_def)
qed

declare push_loop.simps [simp del]

fun pop_completed :: "nat \<Rightarrow> bytes list \<Rightarrow> bytes list \<Rightarrow> bytes list \<times> bytes list" where
  "pop_completed max_packets packets [] = (packets, [])"
| "pop_completed max_packets packets (p # completed) =
     (if length packets < max_packets then pop_completed max_packets (packets @ [p]) completed
      else (packets, p # completed))"

definition drain_completed ::
  "nat \<Rightarrow> ts_packet_completion_buffer \<Rightarrow> bytes list \<times> ts_packet_completion_buffer" where
  "drain_completed max_packets s =
     (case pop_completed max_packets [] (tb_completed s) of
        (packets, rest) \<Rightarrow> (packets, s\<lparr>tb_completed := rest\<rparr>))"

definition ts_push ::
  "bytes \<Rightarrow> ts_packet_completion_buffer \<Rightarrow> ts_packet_buffer_drain \<times> ts_packet_completion_buffer" where
  "ts_push data s =
     (let (resync, buf, completed, malformed, sat) =
            push_loop (tb_resync_required s) (tb_buf s @ data) (tb_completed s) 0 False;
          s1 = s\<lparr>tb_buf := buf, tb_completed := completed, tb_resync_required := resync\<rparr>;
          s2 = (if 0 < malformed then add_malformed_bytes malformed s1 else s1);
          s3 = (if sat then s2\<lparr>tb_malformed_bytes_saturated := True\<rparr> else s2);
          (packets, s4) = drain_completed USIZE_MAX s3
      in (\<lparr>dr_packets = packets, dr_malformed_bytes = malformed\<rparr>, s4))"

definition ts_push_limited ::
  "bytes \<Rightarrow> nat \<Rightarrow> ts_packet_completion_buffer \<Rightarrow> ts_packet_buffer_drain \<times> ts_packet_completion_buffer" where
  "ts_push_limited data max_packets s =
     (let (drain, s1) = ts_push data s in
      if length (dr_packets drain) \<le> max_packets then (drain, s1)
      else (\<lparr>dr_packets = take max_packets (dr_packets drain),
             dr_malformed_bytes = dr_malformed_bytes drain\<rparr>,
            s1\<lparr>tb_completed :=
                 fold (\<lambda>packet completed. packet # completed)
                   (rev (drop max_packets (dr_packets drain))) (tb_completed s1)\<rparr>))"

definition ts_clear :: "ts_packet_completion_buffer \<Rightarrow> ts_packet_completion_buffer" where
  "ts_clear s = s\<lparr>tb_buf := [], tb_completed := [], tb_resync_required := False\<rparr>"

definition drain_for_boundary ::
  "ts_packet_completion_buffer \<Rightarrow> ts_packet_buffer_drain \<times> ts_packet_completion_buffer" where
  "drain_for_boundary s =
     (let (packets, s1) = drain_completed USIZE_MAX s;
          malformed = length (tb_buf s1);
          s2 = (if 0 < malformed then (add_malformed_bytes malformed s1)\<lparr>tb_buf := []\<rparr> else s1)
      in (\<lparr>dr_packets = packets, dr_malformed_bytes = malformed\<rparr>, s2\<lparr>tb_resync_required := False\<rparr>))"

subsection \<open>Where the stream is in sync\<close>

lemma sync_at_iff:
  "sync_at buf i \<longleftrightarrow> buf ! i = 0x47 \<and> buf ! (i + 188) = 0x47 \<and> buf ! (i + 376) = 0x47"
  by (simp add: sync_at_def framing_sizes upt_rec numeral_3_eq_3)

lemma sync_at_append: "i + 376 < length xs \<Longrightarrow> sync_at (xs @ ys) i = sync_at xs i"
  by (simp add: sync_at_iff nth_append)

lemma sync_at_drop: "d + i + 376 < length xs \<Longrightarrow> sync_at (drop d xs) i = sync_at xs (d + i)"
  by (simp add: sync_at_iff add.assoc)

lemma confirmed_None:
  "confirmed_sync_offset buf = None \<longleftrightarrow> (\<forall>i. i + 376 < length buf \<longrightarrow> \<not> sync_at buf i)"
proof (cases "length buf < 377")
  case True
  then show ?thesis by (auto simp: confirmed_sync_offset_def framing_sizes)
next
  case False
  then have "{0..<Suc (length buf - 377)} = {i. i + 376 < length buf}" by auto
  with False show ?thesis
    by (auto simp: confirmed_sync_offset_def framing_sizes Let_def find_None_iff simp del: upt_Suc)
qed

lemma confirmed_Some:
  "confirmed_sync_offset buf = Some n \<longleftrightarrow>
     n + 376 < length buf \<and> sync_at buf n \<and> (\<forall>i < n. \<not> sync_at buf i)"
proof (cases "length buf < 377")
  case True
  then show ?thesis by (auto simp: confirmed_sync_offset_def framing_sizes)
next
  case False
  then have "n < Suc (length buf - 377) \<longleftrightarrow> n + 376 < length buf" by auto
  with False show ?thesis
    by (auto simp: confirmed_sync_offset_def framing_sizes Let_def find_Some_iff simp del: upt_Suc)
qed

lemma confirmed_append:
  "confirmed_sync_offset xs = Some n \<Longrightarrow> confirmed_sync_offset (xs @ ys) = Some n"
  by (auto simp: confirmed_Some sync_at_append)

text \<open>Bytes with no confirmed sync position before them may be dropped first.\<close>

lemma confirmed_drop:
  assumes "\<forall>i < d. \<not> sync_at xs i" and "d \<le> length xs"
  shows "confirmed_sync_offset xs = map_option ((+) d) (confirmed_sync_offset (drop d xs))"
proof (cases "confirmed_sync_offset (drop d xs)")
  case None
  then have n: "\<forall>i. i + 376 < length xs - d \<longrightarrow> \<not> sync_at (drop d xs) i"
    by (simp add: confirmed_None)
  have "\<not> sync_at xs i" if "i + 376 < length xs" for i
  proof (cases "i < d")
    case True with assms show ?thesis by simp
  next
    case False
    with n that have "\<not> sync_at (drop d xs) (i - d)" by simp
    with False that show ?thesis by (simp add: sync_at_drop)
  qed
  then have "confirmed_sync_offset xs = None" by (simp add: confirmed_None)
  with None show ?thesis by simp
next
  case (Some n)
  then have n: "n + 376 < length xs - d" "sync_at (drop d xs) n"
    and min: "\<forall>i < n. \<not> sync_at (drop d xs) i"
    by (simp_all add: confirmed_Some)
  have "\<not> sync_at xs i" if "i < d + n" for i
  proof (cases "i < d")
    case True with assms show ?thesis by simp
  next
    case False
    with min that have "\<not> sync_at (drop d xs) (i - d)" by simp
    with False that n show ?thesis by (simp add: sync_at_drop)
  qed
  with n have "confirmed_sync_offset xs = Some (d + n)"
    by (simp add: confirmed_Some sync_at_drop)
  with Some show ?thesis by simp
qed

subsection \<open>The loop and the way the stream is split\<close>

lemma add_local_fits [simp]: "m + n \<le> USIZE_MAX \<Longrightarrow> add_local_malformed m n sat = (m + n, sat)"
  by (simp add: add_local_malformed_def checked_add_usize_def)

lemmas push_loop_unfold = push_loop.simps [unfolded Let_def]

lemma push_loop_resync_drop:
  assumes "\<forall>i < d. \<not> sync_at xs i" and "d + 376 \<le> length xs" and "m + length xs \<le> USIZE_MAX"
  shows "push_loop True xs c m sat = push_loop True (drop d xs) c (m + d) sat"
proof (cases "confirmed_sync_offset (drop d xs)")
  case None
  with confirmed_drop [of d xs] assms have "confirmed_sync_offset xs = None" by simp
  then have "push_loop True xs c m sat = (True, drop (length xs - 376) xs, c, m + (length xs - 376), sat)"
    using assms by (auto simp: push_loop_unfold [of True] framing_sizes)
  moreover have "push_loop True (drop d xs) c (m + d) sat =
      (True, drop (length xs - 376) xs, c, m + (length xs - 376), sat)"
    using None assms by (cases "length xs = d + 376") (auto simp: push_loop_unfold [of True] framing_sizes)
  ultimately show ?thesis by simp
next
  case (Some n)
  with confirmed_drop [of d xs] assms have "confirmed_sync_offset xs = Some (d + n)" by simp
  with Some assms confirmed_sync_offsetD(1) [OF Some] show ?thesis
    by (auto simp: push_loop_unfold [of True] algebra_simps)
qed

lemma push_loop_append:
  assumes "push_loop r buf c m sat = (r', buf', c', m', sat')"
    and "m + length buf + length data \<le> USIZE_MAX"
  shows "push_loop r (buf @ data) c m sat = push_loop r' (buf' @ data) c' m' sat'"
  using assms
proof (induction r buf c m sat rule: push_loop.induct)
  case (1 r buf c m sat)
  show ?case
  proof (cases r)
    case True
    show ?thesis
    proof (cases "confirmed_sync_offset buf")
      case None
      show ?thesis
      proof (cases "376 < length buf")
        case True
        let ?d = "length buf - 376"
        from None have "\<forall>i < ?d. \<not> sync_at (buf @ data) i"
          by (auto simp: confirmed_None sync_at_append)
        from push_loop_resync_drop [OF this] True "1.prems"
        have "push_loop True (buf @ data) c m sat = push_loop True (drop ?d (buf @ data)) c (m + ?d) sat"
          by simp
        with True None \<open>r\<close> "1.prems" show ?thesis
          by (auto simp: push_loop_unfold [of True buf] framing_sizes)
      next
        case False
        with None \<open>r\<close> "1.prems" show ?thesis
          by (simp add: push_loop_unfold [of True buf] framing_sizes)
      qed
    next
      case (Some n)
      note n = confirmed_sync_offsetD(1) [OF Some] and app = confirmed_append [OF Some, of data]
      show ?thesis
      proof (cases "0 < n")
        case True
        have "push_loop False (drop n buf @ data) c (m + n) sat = push_loop r' (buf' @ data) c' m' sat'"
          by (rule "1.IH"(1) [OF \<open>r\<close> Some True])
            (use "1.prems" True Some \<open>r\<close> n in \<open>simp_all add: push_loop_unfold [of True buf]\<close>)
        with True Some \<open>r\<close> n app "1.prems" show ?thesis
          by (simp add: push_loop_unfold [of True "buf @ data"])
      next
        case False
        have "push_loop False (buf @ data) c m sat = push_loop r' (buf' @ data) c' m' sat'"
          by (rule "1.IH"(2) [OF \<open>r\<close> Some False])
            (use "1.prems" False Some \<open>r\<close> n in \<open>simp_all add: push_loop_unfold [of True buf]\<close>)
        with False Some \<open>r\<close> app show ?thesis
          by (simp add: push_loop_unfold [of True "buf @ data"])
      qed
    qed
  next
    case False
    show ?thesis
    proof (cases "length buf < 188")
      case True
      with \<open>\<not> r\<close> "1.prems" show ?thesis by (simp add: push_loop_unfold [of False buf] framing_sizes)
    next
      case long: False
      then have ne: "buf \<noteq> []" by auto
      show ?thesis
      proof (cases "hd buf = 0x47")
        case True
        have "push_loop r (drop TS_PACKET_SIZE buf @ data) (c @ [take TS_PACKET_SIZE buf]) m sat =
              push_loop r' (buf' @ data) c' m' sat'"
          by (rule "1.IH"(4))
            (use "1.prems" True long \<open>\<not> r\<close> in
              \<open>simp_all add: push_loop_unfold [of False buf] TS_PACKET_SIZE_def\<close>)
        with True long ne \<open>\<not> r\<close> show ?thesis
          by (simp add: push_loop_unfold [of False "buf @ data"] TS_PACKET_SIZE_def)
      next
        case bad: False
        have "push_loop True (buf @ data) c m sat = push_loop r' (buf' @ data) c' m' sat'"
          by (rule "1.IH"(3))
            (use "1.prems" bad long \<open>\<not> r\<close> in
              \<open>simp_all add: push_loop_unfold [of False buf] TS_PACKET_SIZE_def\<close>)
        with bad long ne \<open>\<not> r\<close> show ?thesis
          by (simp add: push_loop_unfold [of False "buf @ data"] TS_PACKET_SIZE_def)
      qed
    qed
  qed
qed

lemma push_loop_acc:
  assumes "push_loop r buf c m sat = (r', buf', c', m', sat')"
    and "m0 + m + length buf \<le> USIZE_MAX"
  shows "push_loop r buf (c0 @ c) (m0 + m) sat = (r', buf', c0 @ c', m0 + m', sat')"
  using assms
proof (induction r buf c m sat rule: push_loop.induct)
  case (1 r buf c m sat)
  show ?case
  proof (cases r)
    case True
    show ?thesis
    proof (cases "confirmed_sync_offset buf")
      case None
      with True "1.prems" show ?thesis
        by (auto simp: push_loop_unfold [of True buf] framing_sizes algebra_simps split: if_splits)
    next
      case (Some n)
      note n = confirmed_sync_offsetD(1) [OF Some]
      show ?thesis
      proof (cases "0 < n")
        case True
        have "push_loop False (drop n buf) (c0 @ c) (m0 + (m + n)) sat = (r', buf', c0 @ c', m0 + m', sat')"
          by (rule "1.IH"(1) [OF \<open>r\<close> Some True])
            (use "1.prems" True Some \<open>r\<close> n in \<open>simp_all add: push_loop_unfold [of True buf]\<close>)
        with True Some \<open>r\<close> n "1.prems" show ?thesis
          by (simp add: push_loop_unfold [of True buf] algebra_simps)
      next
        case False
        have "push_loop False buf (c0 @ c) (m0 + m) sat = (r', buf', c0 @ c', m0 + m', sat')"
          by (rule "1.IH"(2) [OF \<open>r\<close> Some False])
            (use "1.prems" False Some \<open>r\<close> n in \<open>simp_all add: push_loop_unfold [of True buf]\<close>)
        with False Some \<open>r\<close> show ?thesis by (simp add: push_loop_unfold [of True buf])
      qed
    qed
  next
    case False
    with "1.IH"(3,4) "1.prems" show ?thesis
      by (auto simp: push_loop_unfold [of False buf] TS_PACKET_SIZE_def split: if_splits)
  qed
qed

text \<open>
  What a run of the loop gives: packets of 188 bytes that start with 0x47, cut out of the
  buffer in order, no byte lost or made up, and a bounded rest.
\<close>

definition framed :: "bytes \<Rightarrow> bool" where
  "framed p \<longleftrightarrow> length p = TS_PACKET_SIZE \<and> hd p = 0x47"

definition loop_post ::
  "bytes \<Rightarrow> nat \<Rightarrow> bytes list \<Rightarrow> bool \<times> bytes \<times> bytes list \<times> nat \<times> bool \<Rightarrow> bool" where
  "loop_post buf m c res \<longleftrightarrow>
     (case res of (r', buf', c', m', sat') \<Rightarrow>
        \<exists>pk. c' = c @ pk \<and> (\<forall>p \<in> set pk. framed p) \<and>
          m' + 188 * length pk + length buf' = m + length buf \<and>
          length buf' \<le> (if r' then 376 else 187) \<and> subseq (concat pk @ buf') buf)"

lemma loop_post_drop:
  assumes "loop_post (drop n buf) (m + n) c res" and "n \<le> length buf"
  shows "loop_post buf m c res"
proof -
  have "subseq (drop n buf) buf" by (simp add: suffix_drop suffix_imp_subseq)
  with assms show ?thesis
    by (fastforce simp: loop_post_def split: prod.splits intro: subseq_order.trans)
qed

lemma loop_post_packet:
  assumes "loop_post (drop 188 buf) m (c @ [take 188 buf]) res" and "188 \<le> length buf" and "hd buf = 0x47"
  shows "loop_post buf m c res"
proof -
  obtain r' buf' c' m' sat' where res: "res = (r', buf', c', m', sat')" by (cases res) auto
  with assms(1) obtain pk where pk: "c' = c @ take 188 buf # pk" "\<forall>p \<in> set pk. framed p"
    "m' + 188 * length pk + length buf' = m + length (drop 188 buf)"
    "length buf' \<le> (if r' then 376 else 187)" "subseq (concat pk @ buf') (drop 188 buf)"
    by (auto simp: loop_post_def)
  have "subseq (take 188 buf @ (concat pk @ buf')) (take 188 buf @ drop 188 buf)"
    using pk(5) by (rule list_emb_append_mono [OF subseq_order.refl])
  then have "subseq (concat (take 188 buf # pk) @ buf') buf" by simp
  moreover have "framed (take 188 buf)"
    using assms(2,3) by (auto simp: framed_def TS_PACKET_SIZE_def hd_take)
  ultimately show ?thesis using pk assms(2)
    by (auto simp: loop_post_def res intro!: exI [of _ "take 188 buf # pk"])
qed

lemma push_loop_post:
  "m + length buf \<le> USIZE_MAX \<Longrightarrow>
     loop_post buf m c (push_loop r buf c m sat) \<and> (snd (snd (snd (snd (push_loop r buf c m sat)))) = sat)"
proof (induction r buf c m sat rule: push_loop.induct)
  case (1 r buf c m sat)
  show ?case
  proof (cases r)
    case True
    show ?thesis
    proof (cases "confirmed_sync_offset buf")
      case None
      have "subseq (drop (length buf - 376) buf) buf" by (simp add: suffix_drop suffix_imp_subseq)
      with True None "1.prems" show ?thesis
        by (auto simp: push_loop_unfold [of True buf] loop_post_def framing_sizes)
    next
      case (Some n)
      note n = confirmed_sync_offsetD(1) [OF Some]
      show ?thesis
      proof (cases "0 < n")
        case True
        with "1.IH"(1) [OF \<open>r\<close> Some True] "1.prems" n
        have "loop_post (drop n buf) (m + n) c (push_loop False (drop n buf) c (m + n) sat) \<and>
          snd (snd (snd (snd (push_loop False (drop n buf) c (m + n) sat)))) = sat"
          by simp
        with loop_post_drop [of n buf m c] True Some \<open>r\<close> "1.prems" n show ?thesis
          by (simp add: push_loop_unfold [of True buf])
      next
        case False
        with "1.IH"(2) [OF \<open>r\<close> Some False] "1.prems" Some \<open>r\<close> show ?thesis
          by (simp add: push_loop_unfold [of True buf])
      qed
    qed
  next
    case False
    with "1.IH"(3,4) "1.prems" loop_post_packet [of buf m c] show ?thesis
      by (auto simp: push_loop_unfold [of False buf] TS_PACKET_SIZE_def loop_post_def [of buf m c "(False, buf, c, m, sat)"])
  qed
qed

subsection \<open>The operations\<close>

lemma pop_completed_eq:
  "pop_completed n ps c = (ps @ take (n - length ps) c, drop (n - length ps) c)"
proof (induction n ps c rule: pop_completed.induct)
  case (2 n ps p c)
  then show ?case by (cases "length ps < n") (auto simp: take_Cons' drop_Cons')
qed simp

lemma drain_completed_eq:
  "drain_completed n s = (take n (tb_completed s), s\<lparr>tb_completed := drop n (tb_completed s)\<rparr>)"
  by (simp add: drain_completed_def pop_completed_eq)

text \<open>The counters do not overflow while \<open>n\<close> more bytes arrive.\<close>

definition ts_fits :: "nat \<Rightarrow> ts_packet_completion_buffer \<Rightarrow> bool" where
  "ts_fits n s \<longleftrightarrow>
     unat (tb_malformed_bytes s) + length (tb_buf s) + 188 * length (tb_completed s) + n < 2 ^ 64 - 1"

lemma add_malformed_bytes_fits:
  assumes "unat (tb_malformed_bytes s) + m < 2 ^ 64 - 1"
  shows "add_malformed_bytes m s = s\<lparr>tb_malformed_bytes := tb_malformed_bytes s + of_nat m\<rparr>"
proof -
  from assms have m: "m < 2 ^ 64 - 1" by simp
  then have u: "unat (of_nat m :: u64) = m" by (simp add: unat_of_nat)
  then have "(of_nat m :: u64) \<noteq> U64_MAX"
    using m by (metis nat_neq_iff unat_U64_MAX)
  with u m assms show ?thesis
    by (auto simp: add_malformed_bytes_def checked_add_u64_def)
qed

lemma ts_push_eq:
  assumes fits: "ts_fits (length data) s"
    and loop: "push_loop (tb_resync_required s) (tb_buf s @ data) (tb_completed s) 0 False = (r, b, c, m, sat)"
  shows "ts_push data s = (\<lparr>dr_packets = c, dr_malformed_bytes = m\<rparr>,
     s\<lparr>tb_buf := b, tb_completed := [], tb_resync_required := r,
        tb_malformed_bytes := tb_malformed_bytes s + of_nat m\<rparr>)"
proof -
  have len: "0 + length (tb_buf s @ data) \<le> USIZE_MAX"
    using fits by (simp add: ts_fits_def USIZE_MAX_def)
  from push_loop_post [OF len, of "tb_completed s" "tb_resync_required s" False] loop
  obtain pk where "\<not> sat" and c: "c = tb_completed s @ pk"
    and m: "m + 188 * length pk + length b = length (tb_buf s @ data)"
    by (auto simp: loop_post_def)
  from fits m have fit: "unat (tb_malformed_bytes s) + m < 2 ^ 64 - 1"
    by (simp add: ts_fits_def)
  from fits m c have "length c \<le> USIZE_MAX" by (simp add: ts_fits_def USIZE_MAX_def)
  then show ?thesis
    using loop \<open>\<not> sat\<close> fit
    by (auto simp: ts_push_def drain_completed_eq add_malformed_bytes_fits Let_def)
qed

lemma push_parts:
  assumes "ts_fits (length a + length b) s"
  shows "ts_push (a @ b) s =
    (case ts_push a s of (d1, s1) \<Rightarrow>
      (case ts_push b s1 of (d2, s2) \<Rightarrow>
        (\<lparr>dr_packets = dr_packets d1 @ dr_packets d2,
          dr_malformed_bytes = dr_malformed_bytes d1 + dr_malformed_bytes d2\<rparr>, s2)))"
    and "ts_fits (length b) (snd (ts_push a s))"
proof -
  obtain r1 b1 c1 m1 sat1 where l1:
    "push_loop (tb_resync_required s) (tb_buf s @ a) (tb_completed s) 0 False = (r1, b1, c1, m1, sat1)"
    by (cases "push_loop (tb_resync_required s) (tb_buf s @ a) (tb_completed s) 0 False") auto
  obtain r2 b2 c2 m2 sat2 where l2: "push_loop r1 (b1 @ b) [] 0 False = (r2, b2, c2, m2, sat2)"
    by (cases "push_loop r1 (b1 @ b) [] 0 False") auto
  have len: "length (tb_buf s) + length a + length b \<le> USIZE_MAX"
    using assms by (simp add: ts_fits_def USIZE_MAX_def)
  from push_loop_post [of 0 "tb_buf s @ a" "tb_completed s" "tb_resync_required s" False] l1 len
  have sat1: "\<not> sat1" and m1: "m1 + length b1 \<le> length (tb_buf s @ a)"
    and cc: "m1 + 188 * length c1 + length b1 = length (tb_buf s @ a) + 188 * length (tb_completed s)"
    by (auto simp: loop_post_def)
  let ?s1 = "s\<lparr>tb_buf := b1, tb_completed := [], tb_resync_required := r1,
        tb_malformed_bytes := tb_malformed_bytes s + of_nat m1\<rparr>"
  have um: "unat (tb_malformed_bytes s + of_nat m1) = unat (tb_malformed_bytes s) + m1"
    using assms m1 by (simp add: ts_fits_def unat_word_ariths unat_of_nat)
  have p1: "ts_push a s = (\<lparr>dr_packets = c1, dr_malformed_bytes = m1\<rparr>, ?s1)"
    by (rule ts_push_eq [OF _ l1]) (use assms in \<open>simp add: ts_fits_def\<close>)
  have fits: "ts_fits (length b) ?s1" using assms m1 um by (simp add: ts_fits_def)
  with l2 have p2: "ts_push b ?s1 = (\<lparr>dr_packets = c2, dr_malformed_bytes = m2\<rparr>,
     ?s1\<lparr>tb_buf := b2, tb_completed := [], tb_resync_required := r2,
        tb_malformed_bytes := tb_malformed_bytes ?s1 + of_nat m2\<rparr>)"
    by (intro ts_push_eq [where sat = sat2]) simp_all
  have "push_loop r1 (b1 @ b) (c1 @ []) (m1 + 0) False = (r2, b2, c1 @ c2, m1 + m2, sat2)"
    by (rule push_loop_acc [OF l2]) (use len m1 in simp)
  with push_loop_append [OF l1, of b] len sat1
  have l3: "push_loop (tb_resync_required s) (tb_buf s @ a @ b) (tb_completed s) 0 False =
    (r2, b2, c1 @ c2, m1 + m2, sat2)"
    by simp
  have "ts_push (a @ b) s = (\<lparr>dr_packets = c1 @ c2, dr_malformed_bytes = m1 + m2\<rparr>,
     s\<lparr>tb_buf := b2, tb_completed := [], tb_resync_required := r2,
        tb_malformed_bytes := tb_malformed_bytes s + of_nat (m1 + m2)\<rparr>)"
    by (rule ts_push_eq [OF _ l3]) (use assms in simp)
  with p1 p2 show "ts_push (a @ b) s =
    (case ts_push a s of (d1, s1) \<Rightarrow>
      (case ts_push b s1 of (d2, s2) \<Rightarrow>
        (\<lparr>dr_packets = dr_packets d1 @ dr_packets d2,
          dr_malformed_bytes = dr_malformed_bytes d1 + dr_malformed_bytes d2\<rparr>, s2)))"
    by (simp add: add.assoc)
  show "ts_fits (length b) (snd (ts_push a s))" using fits p1 by simp
qed

text \<open>
  C9. Framing does not depend on how the byte stream is cut into reads: pushing \<open>a\<close> and then
  \<open>b\<close> gives the packets, the malformed byte count and the final state of pushing the
  concatenation, as long as the counters do not overflow.
\<close>

theorem ts_push_split:
  assumes "ts_fits (length a + length b) s"
  shows "ts_push (a @ b) s =
    (case ts_push a s of (d1, s1) \<Rightarrow>
      (case ts_push b s1 of (d2, s2) \<Rightarrow>
        (\<lparr>dr_packets = dr_packets d1 @ dr_packets d2,
          dr_malformed_bytes = dr_malformed_bytes d1 + dr_malformed_bytes d2\<rparr>, s2)))"
  using assms by (rule push_parts)

theorem ts_push_split_witness:
  "ts_fits (length [0x47, 1] + length [2, 3 :: u8]) ts_buffer_default \<and>
   tb_buf (snd (ts_push ([0x47, 1] @ [2, 3]) ts_buffer_default)) = [0x47, 1, 2, 3]"
proof -
  have f: "ts_fits (length [0x47, 1 :: u8] + length [2, 3 :: u8]) ts_buffer_default"
    by (simp add: ts_fits_def ts_buffer_default_def)
  show ?thesis
    unfolding ts_push_split [OF f] using f
    by (simp add: ts_push_def ts_buffer_default_def push_loop.simps framing_sizes drain_completed_eq)
qed

text \<open>
  C27. A push loses and invents no byte: the bytes held before and the bytes pushed are the
  packets returned, the bytes counted as malformed and the bytes still held. Every packet cut
  is 188 bytes long and starts with the sync byte, packets and rest appear in stream order, and
  the rest is at most 376 bytes while resynchronising and less than a packet otherwise.
\<close>

theorem ts_push_conserves:
  assumes "ts_fits (length data) s" and "ts_push data s = (d, s')"
  shows "188 * length (dr_packets d) + dr_malformed_bytes d + length (tb_buf s') =
           188 * length (tb_completed s) + length (tb_buf s) + length data \<and>
    (\<exists>pk. dr_packets d = tb_completed s @ pk \<and> (\<forall>p \<in> set pk. framed p) \<and>
           subseq (concat pk @ tb_buf s') (tb_buf s @ data)) \<and>
    length (tb_buf s') \<le> (if tb_resync_required s' then 376 else 187) \<and>
    unat (tb_malformed_bytes s') = unat (tb_malformed_bytes s) + dr_malformed_bytes d"
proof -
  obtain r b c m sat where l:
    "push_loop (tb_resync_required s) (tb_buf s @ data) (tb_completed s) 0 False = (r, b, c, m, sat)"
    by (cases "push_loop (tb_resync_required s) (tb_buf s @ data) (tb_completed s) 0 False") auto
  have "0 + length (tb_buf s @ data) \<le> USIZE_MAX"
    using assms(1) by (simp add: ts_fits_def USIZE_MAX_def)
  from push_loop_post [OF this, of "tb_completed s" "tb_resync_required s" False] l
  obtain pk where pk: "c = tb_completed s @ pk" "\<forall>p \<in> set pk. framed p"
    "m + 188 * length pk + length b = length (tb_buf s @ data)"
    "length b \<le> (if r then 376 else 187)" "subseq (concat pk @ b) (tb_buf s @ data)"
    by (auto simp: loop_post_def)
  from assms(2) ts_push_eq [OF assms(1) l]
  have d: "d = \<lparr>dr_packets = c, dr_malformed_bytes = m\<rparr>"
    and s': "s' = s\<lparr>tb_buf := b, tb_completed := [], tb_resync_required := r,
        tb_malformed_bytes := tb_malformed_bytes s + of_nat m\<rparr>" by auto
  have "unat (tb_malformed_bytes s') = unat (tb_malformed_bytes s) + dr_malformed_bytes d"
    using assms(1) pk(3) d s' by (simp add: ts_fits_def unat_word_ariths unat_of_nat)
  with pk d s' show ?thesis by auto
qed

theorem ts_push_conserves_witness:
  "ts_fits (length (replicate 188 (0x47 :: u8))) ts_buffer_default \<and>
   188 * length (dr_packets (fst (ts_push (replicate 188 0x47) ts_buffer_default))) +
     dr_malformed_bytes (fst (ts_push (replicate 188 0x47) ts_buffer_default)) +
     length (tb_buf (snd (ts_push (replicate 188 0x47) ts_buffer_default))) = 188"
proof -
  have f: "ts_fits (length (replicate 188 (0x47 :: u8))) ts_buffer_default"
    by (simp add: ts_fits_def ts_buffer_default_def)
  have e: "ts_push (replicate 188 0x47) ts_buffer_default =
    (fst (ts_push (replicate 188 0x47) ts_buffer_default), snd (ts_push (replicate 188 0x47) ts_buffer_default))"
    by simp
  show ?thesis
    using f ts_push_conserves [OF f e] by (simp add: ts_buffer_default_def)
qed

lemma push_loop_packets:
  "\<forall>p \<in> set ps. framed p \<Longrightarrow> push_loop False (concat ps @ rest) c m sat = push_loop False rest (c @ ps) m sat"
proof (induction ps arbitrary: c)
  case (Cons p ps)
  then have "length p = 188" and "hd p = 0x47" and "p \<noteq> []"
    by (auto simp: framed_def TS_PACKET_SIZE_def)
  with Cons show ?case by (simp add: push_loop_unfold [of False "p @ concat ps @ rest"] TS_PACKET_SIZE_def)
qed simp

lemma push_loop_in_sync:
  "\<forall>p \<in> set ps. framed p \<Longrightarrow> length tail < 188 \<Longrightarrow>
   push_loop False (concat ps @ tail) c m sat = (False, tail, c @ ps, m, sat)"
  by (simp add: push_loop_packets push_loop_unfold [of False tail] TS_PACKET_SIZE_def)

lemma concat_framed_nth:
  "\<forall>p \<in> set ps. framed p \<Longrightarrow> i < length ps \<Longrightarrow>
   188 * i < length (concat ps) \<and> concat ps ! (188 * i) = 0x47"
proof (induction ps arbitrary: i)
  case (Cons p ps)
  then have "length p = 188" and "hd p = 0x47" by (auto simp: framed_def TS_PACKET_SIZE_def)
  then have p: "length p = 188" "p ! 0 = 0x47" by (cases p; simp)+
  show ?case
  proof (cases i)
    case 0
    with p show ?thesis by (simp add: nth_append)
  next
    case (Suc j)
    with Cons p have "188 * j < length (concat ps) \<and> concat ps ! (188 * j) = 0x47" by simp
    with Suc p show ?thesis by (simp add: nth_append)
  qed
qed simp

text \<open>A stream of packets that goes on with the begin of another one has a sync byte every 188 bytes.\<close>

lemma packets_nth:
  assumes "\<forall>p \<in> set ps. framed p" and "length tail < 188" and "tail \<noteq> [] \<longrightarrow> hd tail = 0x47"
    and "188 * i < length (concat ps @ tail)"
  shows "(concat ps @ tail) ! (188 * i) = 0x47"
proof (cases "i < length ps")
  case True
  then show ?thesis using concat_framed_nth [OF assms(1)] by (simp add: nth_append)
next
  case False
  have len: "length (concat ps) = 188 * length ps"
    using assms(1) by (induction ps) (auto simp: framed_def TS_PACKET_SIZE_def)
  then have "i = length ps" and "tail \<noteq> []" using False assms(2,4) by auto
  then show ?thesis using assms(3) len by (simp add: nth_append hd_conv_nth)
qed

lemma push_loop_recovers:
  assumes "\<forall>p \<in> set ps. framed p" and "length tail < 188" and "tail \<noteq> [] \<longrightarrow> hd tail = 0x47"
    and "377 \<le> length (concat ps @ tail)" and "\<forall>i < length noise. \<not> sync_at (noise @ concat ps @ tail) i"
    and "length noise \<le> USIZE_MAX"
  shows "push_loop True (noise @ concat ps @ tail) c 0 False = (False, tail, c @ ps, length noise, False)"
proof -
  let ?rest = "concat ps @ tail"
  note at = packets_nth [OF assms(1-3)]
  have "?rest ! (188 * i) = 0x47" if "i < 3" for i
    by (rule at) (use assms(4) that in linarith)
  from this [of 0] this [of 1] this [of 2] have "?rest ! 0 = 0x47" "?rest ! 188 = 0x47" "?rest ! 376 = 0x47"
    by simp_all
  then have "sync_at (noise @ ?rest) (length noise)"
    using nth_append_length_plus [of noise ?rest 0] nth_append_length_plus [of noise ?rest 188]
      nth_append_length_plus [of noise ?rest 376] by (simp only: sync_at_iff add_0_right)
  then have off: "confirmed_sync_offset (noise @ ?rest) = Some (length noise)"
    using assms(4,5) by (simp add: confirmed_Some)
  have "push_loop True (noise @ ?rest) c 0 False = push_loop False ?rest c (length noise) False"
    using off assms(6) by (cases noise) (simp_all add: push_loop_unfold [of True])
  then show ?thesis using push_loop_in_sync [OF assms(1,2)] by simp
qed

text \<open>A stream that comes in several reads.\<close>

fun ts_push_all :: "bytes list \<Rightarrow> ts_packet_completion_buffer \<Rightarrow> ts_packet_buffer_drain \<times> ts_packet_completion_buffer" where
  "ts_push_all [] s = (\<lparr>dr_packets = [], dr_malformed_bytes = 0\<rparr>, s)"
| "ts_push_all (a # as) s =
     (case ts_push a s of (d1, s1) \<Rightarrow>
       (case ts_push_all as s1 of (d2, s2) \<Rightarrow>
         (\<lparr>dr_packets = dr_packets d1 @ dr_packets d2,
           dr_malformed_bytes = dr_malformed_bytes d1 + dr_malformed_bytes d2\<rparr>, s2)))"

lemma push_all_concat:
  "as \<noteq> [] \<Longrightarrow> ts_fits (length (concat as)) s \<Longrightarrow> ts_push_all as s = ts_push (concat as) s"
proof (induction as arbitrary: s)
  case (Cons a as)
  have fits: "ts_fits (length a + length (concat as)) s" using Cons.prems by simp
  show ?case
  proof (cases "as = []")
    case False
    then have "ts_push_all as (snd (ts_push a s)) = ts_push (concat as) (snd (ts_push a s))"
      using Cons.IH push_parts(2) [OF fits] by simp
    then show ?thesis using push_parts(1) [OF fits] by (simp add: case_prod_beta)
  qed (cases "ts_push a s"; cases "fst (ts_push a s)"; simp)
qed simp

text \<open>
  C31. Packets are recovered. Suppose that what the buffer holds and what is then read, cut into reads in any
  way, is a stretch of packets, then noise, then packets again and less than one more packet. The
  packets before the noise are delivered. Behind the noise, which does not start with a sync byte and in which
  no position has sync bytes at it and at the next two packet distances, or in a buffer that had lost
  synchronisation before, every packet is delivered as soon as 377 bytes are there: two packets and the
  sync byte of the third. Exactly the noise is counted as malformed, and the buffer is in sync again.
\<close>

theorem ts_push_recovers:
  assumes "tb_completed s = []" and "reads \<noteq> []" and "ts_fits (length (concat reads)) s"
    and "tb_buf s @ concat reads = concat before @ noise @ concat ps @ tail"
    and "\<forall>p \<in> set (before @ ps). framed p" and "length tail < 188" and "tail \<noteq> [] \<longrightarrow> hd tail = 0x47"
    and "if tb_resync_required s then before = [] else noise \<noteq> [] \<longrightarrow> hd noise \<noteq> 0x47"
    and "tb_resync_required s \<or> noise \<noteq> [] \<longrightarrow> 377 \<le> length (concat ps @ tail)"
    and "\<forall>i < length noise. \<exists>k < 3. (noise @ concat ps @ tail) ! (i + 188 * k) \<noteq> 0x47"
  shows "ts_push_all reads s =
    (\<lparr>dr_packets = before @ ps, dr_malformed_bytes = length noise\<rparr>,
     s\<lparr>tb_buf := tail, tb_resync_required := False,
       tb_malformed_bytes := tb_malformed_bytes s + of_nat (length noise)\<rparr>)"
proof -
  let ?rest = "concat ps @ tail"
  have "length noise \<le> length (tb_buf s @ concat reads)" unfolding assms(4) by simp
  then have fit: "length noise \<le> USIZE_MAX" using assms(3) by (simp add: ts_fits_def USIZE_MAX_def)
  have three: "k = 0 \<or> k = 1 \<or> k = 2" if "k < 3" for k :: nat using that by auto
  have no: "\<forall>i < length noise. \<not> sync_at (noise @ ?rest) i"
    using assms(10) by (fastforce simp: sync_at_iff dest!: three)
  have framed: "\<forall>p \<in> set before. framed p" "\<forall>p \<in> set ps. framed p" using assms(5) by auto
  note found = push_loop_recovers [OF framed(2) assms(6,7) _ no fit]
  have "push_loop (tb_resync_required s) (concat before @ noise @ ?rest) [] 0 False =
      (False, tail, before @ ps, length noise, False)"
  proof (cases "tb_resync_required s")
    case True
    then show ?thesis using found [of "[]"] assms(8,9) by simp
  next
    case in_sync: False
    show ?thesis
    proof (cases "noise = []")
      case True
      then show ?thesis
        using in_sync push_loop_packets [OF framed(1)] push_loop_in_sync [OF framed(2) assms(6)] by simp
    next
      case False
      then have long: "377 \<le> length ?rest" and hd: "hd noise \<noteq> 0x47" using assms(8,9) in_sync by auto
      have "push_loop False (noise @ ?rest) before 0 False = push_loop True (noise @ ?rest) before 0 False"
        using hd False long by (simp add: push_loop_unfold [of False "noise @ ?rest"] TS_PACKET_SIZE_def)
      then show ?thesis using in_sync push_loop_packets [OF framed(1)] found [OF long] by simp
    qed
  qed
  then have "push_loop (tb_resync_required s) (tb_buf s @ concat reads) (tb_completed s) 0 False =
      (False, tail, before @ ps, length noise, False)" unfolding assms(1,4) .
  from ts_push_eq [OF assms(3) this] assms(1) show ?thesis
    unfolding push_all_concat [OF assms(2,3)] by simp
qed

text \<open>One byte of noise, two packets and the sync byte of a third in two reads: both packets are delivered.\<close>

theorem ts_push_recovers_witness:
  "ts_push_all [[0xaa, 0x47], replicate 187 0 @ (0x47 # replicate 187 0) @ [0x47]] ts_buffer_default =
    (\<lparr>dr_packets = replicate 2 (0x47 # replicate 187 0), dr_malformed_bytes = 1\<rparr>,
     ts_buffer_default\<lparr>tb_buf := [0x47], tb_malformed_bytes := 1\<rparr>)"
proof -
  let ?p = "0x47 # replicate 187 0 :: bytes"
  have "ts_push_all [[0xaa, 0x47], replicate 187 0 @ ?p @ [0x47]] ts_buffer_default =
    (\<lparr>dr_packets = [] @ [?p, ?p], dr_malformed_bytes = length [0xaa :: u8]\<rparr>,
     ts_buffer_default\<lparr>tb_buf := [0x47], tb_resync_required := False,
       tb_malformed_bytes := tb_malformed_bytes ts_buffer_default + of_nat (length [0xaa :: u8])\<rparr>)"
    by (rule ts_push_recovers [where before = "[]" and noise = "[0xaa]" and ps = "[?p, ?p]" and tail = "[0x47]"])
      (auto simp: ts_buffer_default_def ts_fits_def framed_def TS_PACKET_SIZE_def intro: exI [of _ 0])
  then show ?thesis by (simp add: ts_buffer_default_def numeral_2_eq_2)
qed

lemma fold_cons: "fold (\<lambda>x xs. x # xs) (rev ys) zs = ys @ zs"
  by (induction ys arbitrary: zs) auto

text \<open>
  The limited push returns at most the requested number of packets and keeps the others, in
  order, for the next drain: nothing is dropped by the limit.
\<close>

lemma ts_push_limited_keeps_rest:
  "length (dr_packets (fst (ts_push_limited data n s))) \<le> n \<and>
   dr_packets (fst (ts_push_limited data n s)) @ tb_completed (snd (ts_push_limited data n s)) =
     dr_packets (fst (ts_push data s)) @ tb_completed (snd (ts_push data s))"
proof -
  obtain d s1 where "ts_push data s = (d, s1)" by (cases "ts_push data s")
  then show ?thesis
    by (auto simp: ts_push_limited_def fold_cons)
qed

end
