(* ===== verification/Payload_Assembler.thy ===== *)
theory Payload_Assembler
  imports Tv_Prelude
begin

section \<open>The contract of a payload assembler\<close>

text \<open>
  The packet pipeline feeds TS payloads, each with its payload unit start flag, to assemblers
  that keep a partial unit between packets and return the units they complete. Section and PES
  assemblers both promise what the locale below assumes: an invariant that holds initially and
  after every push, a bound on the bytes held, and a property of every unit returned.
\<close>

text \<open>A run over a sequence of payloads, for any push operation.\<close>

fun run_payloads ::
  "(bool \<Rightarrow> bytes \<Rightarrow> 's \<Rightarrow> 'o list \<times> 's) \<Rightarrow> (bool \<times> bytes) list \<Rightarrow> 's \<Rightarrow> 'o list \<times> 's" where
  "run_payloads push [] s = ([], s)"
| "run_payloads push ((pusi, payload) # xs) s =
     (case push pusi payload s of
        (out, s') \<Rightarrow> (case run_payloads push xs s' of (outs, s'') \<Rightarrow> (out @ outs, s'')))"

lemma run_payloads_append:
  "run_payloads push (xs @ ys) s =
     (case run_payloads push xs s of
        (out, s') \<Rightarrow> (case run_payloads push ys s' of (outs, s'') \<Rightarrow> (out @ outs, s'')))"
  by (induction xs arbitrary: s) (auto split: prod.splits)

text \<open>The payloads of one unit: the first one carries the payload unit start flag.\<close>

definition unit_payloads :: "bytes list \<Rightarrow> (bool \<times> bytes) list" where
  "unit_payloads fs = (case fs of [] \<Rightarrow> [] | f # rest \<Rightarrow> (True, f) # map (Pair False) rest)"

lemma unit_payloads_snoc:
  "unit_payloads (fs @ [f]) = unit_payloads fs @ [(fs = [], f)]"
  by (cases fs) (simp_all add: unit_payloads_def)

locale payload_assembler =
  fixes init :: 's
    and push :: "bool \<Rightarrow> bytes \<Rightarrow> 's \<Rightarrow> 'o list \<times> 's"
    and wf :: "'s \<Rightarrow> bool"
    and good :: "'o \<Rightarrow> bool"
    and held :: "'s \<Rightarrow> nat"
    and bound :: nat
  assumes wf_init: "wf init"
    and wf_push: "wf s \<Longrightarrow> wf (snd (push pusi payload s))"
    and good_push: "wf s \<Longrightarrow> unit \<in> set (fst (push pusi payload s)) \<Longrightarrow> good unit"
    and held_bound: "wf s \<Longrightarrow> held s \<le> bound"
begin

lemma wf_run: "wf s \<Longrightarrow> wf (snd (run_payloads push xs s))"
proof (induction xs arbitrary: s)
  case (Cons x xs)
  obtain pusi payload where x: "x = (pusi, payload)" by (cases x)
  from Cons.IH [OF wf_push [OF Cons.prems, of pusi payload]] show ?case
    by (auto simp: x split: prod.splits)
qed simp

lemma good_run: "wf s \<Longrightarrow> unit \<in> set (fst (run_payloads push xs s)) \<Longrightarrow> good unit"
proof (induction xs arbitrary: s)
  case (Cons x xs)
  obtain pusi payload where x: "x = (pusi, payload)" by (cases x)
  from Cons.IH [OF wf_push [OF Cons.prems(1), of pusi payload]]
    good_push [OF Cons.prems(1), of unit pusi payload] Cons.prems(2) show ?case
    by (auto simp: x split: prod.splits)
qed simp

lemma run_from_init:
  "wf (snd (run_payloads push xs init)) \<and> held (snd (run_payloads push xs init)) \<le> bound \<and>
   (\<forall>unit \<in> set (fst (run_payloads push xs init)). good unit)"
  using wf_run [OF wf_init] good_run [OF wf_init] held_bound by blast

end

end
