(* ===== verification/Sections.thy ===== *)
theory Sections
  imports Hal_Common Payload_Assembler "HOL-Library.Monad_Syntax"
begin

unbundle bit_operations_syntax

section \<open>Sections: header, CRC and assembly\<close>

text \<open>
  \<open>tuner_hal2/demux/src/parser/sections.rs\<close>: the section header parser, the MPEG CRC and the
  assembler that joins TS payloads into sections.
\<close>

subsection \<open>Header\<close>

record section_header =
  sh_table_id :: u8
  sh_syntax :: bool
  sh_section_length :: nat
  sh_total_length :: nat
  sh_table_id_extension :: "u16 option"
  sh_version :: "u8 option"
  sh_current_next_indicator :: "bool option"
  sh_section_number :: "u8 option"
  sh_last_section_number :: "u8 option"

definition normalize_length_field_bits :: "i32 \<Rightarrow> i32 option" where
  "normalize_length_field_bits bits = (if bits = 0 \<or> bits = 12 then Some 12 else None)"

text \<open>The 12-bit length in the second and third byte.\<close>

definition section_length_field :: "u8 \<Rightarrow> u8 \<Rightarrow> nat" where
  "section_length_field b1 b2 = push_bit 8 (unat (b1 AND 0x0f)) OR unat b2"

definition parse_section_header_with_reserved_bit_policy ::
  "bytes \<Rightarrow> i32 \<Rightarrow> bool \<Rightarrow> section_header option" where
  "parse_section_header_with_reserved_bit_policy sec length_field_bits require_reserved_bits =
     do { normalized \<leftarrow> normalize_length_field_bits length_field_bits;
          if normalized \<noteq> 12 \<or> length sec < 3 then None
          else if require_reserved_bits \<and> sec ! 1 AND 0x30 \<noteq> 0x30 then None
          else
            let section_length = section_length_field (sec ! 1) (sec ! 2);
                total_length = 3 + section_length;
                syntax = (sec ! 1 AND 0x80 \<noteq> 0)
            in if \<not> is_valid_arib_section_length (sec ! 0) section_length then None
               else if MAX_SECTION_PAYLOAD_BYTES < total_length then None
               else if syntax \<and> (section_length < 9 \<or> total_length < 12) then None
               else if length sec < total_length then None
               else if syntax then
                 if require_reserved_bits \<and> sec ! 5 AND 0xc0 \<noteq> 0xc0 then None
                 else Some \<lparr>sh_table_id = sec ! 0, sh_syntax = syntax, sh_section_length = section_length,
                        sh_total_length = total_length,
                        sh_table_id_extension = Some (be16 (sec ! 3) (sec ! 4)),
                        sh_version = Some (drop_bit 1 (sec ! 5) AND 0x1f),
                        sh_current_next_indicator = Some (sec ! 5 AND 1 \<noteq> 0),
                        sh_section_number = Some (sec ! 6), sh_last_section_number = Some (sec ! 7)\<rparr>
               else Some \<lparr>sh_table_id = sec ! 0, sh_syntax = syntax, sh_section_length = section_length,
                        sh_total_length = total_length, sh_table_id_extension = None, sh_version = None,
                        sh_current_next_indicator = None, sh_section_number = None,
                        sh_last_section_number = None\<rparr> }"

definition parse_section_header :: "bytes \<Rightarrow> i32 \<Rightarrow> section_header option" where
  "parse_section_header sec length_field_bits =
     parse_section_header_with_reserved_bit_policy sec length_field_bits True"

definition parse_raw_section_framing :: "bytes \<Rightarrow> i32 \<Rightarrow> section_header option" where
  "parse_raw_section_framing sec length_field_bits =
     parse_section_header_with_reserved_bit_policy sec length_field_bits False"

subsection \<open>CRC\<close>

definition crc32_bit :: "u32 \<Rightarrow> u32" where
  "crc32_bit crc = (if crc AND 0x80000000 \<noteq> 0 then push_bit 1 crc XOR 0x04c11db7 else push_bit 1 crc)"

definition crc32_byte :: "u32 \<Rightarrow> u8 \<Rightarrow> u32" where
  "crc32_byte crc byte = (crc32_bit ^^ 8) (crc XOR push_bit 24 (ucast byte))"

definition crc32_mpeg :: "bytes \<Rightarrow> u32" where
  "crc32_mpeg bs = foldl crc32_byte 0xffffffff bs"

definition section_crc_valid :: "bytes \<Rightarrow> i32 \<Rightarrow> bool" where
  "section_crc_valid sec length_field_bits =
     (case parse_section_header sec length_field_bits of
        None \<Rightarrow> False
      | Some header \<Rightarrow>
          if sh_section_length header < 4 then False
          else crc32_mpeg (take (sh_total_length header) sec) = 0)"

subsection \<open>Assembler\<close>

record section_assembler =
  sa_expected_len :: "nat option"
  sa_buf :: bytes
  sa_oversized_section_drops :: u64
  sa_stale_partial_section_discards :: u64
  sa_oversized_section_drop_counter_saturated :: bool
  sa_stale_partial_section_discard_counter_saturated :: bool

definition section_assembler_default :: section_assembler where
  "section_assembler_default = \<lparr>sa_expected_len = None, sa_buf = [], sa_oversized_section_drops = 0,
     sa_stale_partial_section_discards = 0, sa_oversized_section_drop_counter_saturated = False,
     sa_stale_partial_section_discard_counter_saturated = False\<rparr>"

definition section_reset :: "section_assembler \<Rightarrow> section_assembler" where
  "section_reset s = s\<lparr>sa_expected_len := None, sa_buf := []\<rparr>"

definition increment_oversized_section_drops :: "section_assembler \<Rightarrow> section_assembler" where
  "increment_oversized_section_drops s =
     (case checked_add_u64 (sa_oversized_section_drops s) 1 of
        Some next \<Rightarrow> s\<lparr>sa_oversized_section_drops := next\<rparr>
      | None \<Rightarrow> s\<lparr>sa_oversized_section_drop_counter_saturated := True\<rparr>)"

definition increment_stale_partial_section_discards :: "section_assembler \<Rightarrow> section_assembler" where
  "increment_stale_partial_section_discards s =
     (case checked_add_u64 (sa_stale_partial_section_discards s) 1 of
        Some next \<Rightarrow> s\<lparr>sa_stale_partial_section_discards := next\<rparr>
      | None \<Rightarrow> s\<lparr>sa_stale_partial_section_discard_counter_saturated := True\<rparr>)"

definition set_expected_len_or_drop :: "nat \<Rightarrow> section_assembler \<Rightarrow> bool \<times> section_assembler" where
  "set_expected_len_or_drop expected_len s =
     (if MAX_SECTION_PAYLOAD_BYTES < expected_len
      then (False, section_reset (increment_oversized_section_drops s))
      else (True, s\<lparr>sa_expected_len := Some expected_len\<rparr>))"

text \<open>The check on the first three bytes that both loops of the assembler make.\<close>

definition declared_total_length :: "bytes \<Rightarrow> nat" where
  "declared_total_length bs = 3 + section_length_field (bs ! 1) (bs ! 2)"

definition invalid_declared_header :: "bool \<Rightarrow> bytes \<Rightarrow> bool" where
  "invalid_declared_header require_reserved_bits bs =
     (let section_length = section_length_field (bs ! 1) (bs ! 2);
          total_length = 3 + section_length;
          syntax = (bs ! 1 AND 0x80 \<noteq> 0)
      in require_reserved_bits \<and> bs ! 1 AND 0x30 \<noteq> 0x30
         \<or> \<not> is_valid_arib_section_length (bs ! 0) section_length
         \<or> MAX_SECTION_PAYLOAD_BYTES < total_length
         \<or> syntax \<and> (section_length < 9 \<or> total_length < 12))"

definition parsed_by_policy :: "bool \<Rightarrow> bytes \<Rightarrow> section_header option" where
  "parsed_by_policy require_reserved_bits bs =
     (if require_reserved_bits then parse_section_header bs 12 else parse_raw_section_framing bs 12)"

definition parsed_is_some :: "bool \<Rightarrow> bytes \<Rightarrow> bool" where
  "parsed_is_some require_reserved_bits bs \<longleftrightarrow> \<not> Option.is_none (parsed_by_policy require_reserved_bits bs)"

text \<open>
  \<open>try_take_pending\<close>: the first part of its loop sets the expected length once three bytes are
  there; \<open>Inl\<close> is the early return.
\<close>

definition resolve_pending_header :: "bool \<Rightarrow> section_assembler \<Rightarrow> section_assembler + section_assembler" where
  "resolve_pending_header require_reserved_bits s =
     (if sa_expected_len s = None \<and> 3 \<le> length (sa_buf s) then
        if invalid_declared_header require_reserved_bits (sa_buf s)
        then Inl (section_reset (increment_oversized_section_drops s))
        else
          (case set_expected_len_or_drop (declared_total_length (sa_buf s)) s of
             (True, s') \<Rightarrow> Inr s'
           | (False, s') \<Rightarrow> Inl (section_reset (increment_oversized_section_drops s')))
      else Inr s)"

lemma resolve_pending_Inr:
  assumes "resolve_pending_header req s = Inr s'"
  shows "sa_buf s' = sa_buf s"
    and "sa_expected_len s' = sa_expected_len s \<or>
      sa_expected_len s = None \<and> \<not> invalid_declared_header req (sa_buf s) \<and> 3 \<le> length (sa_buf s) \<and>
      sa_expected_len s' = Some (declared_total_length (sa_buf s)) \<and>
      declared_total_length (sa_buf s) \<le> MAX_SECTION_PAYLOAD_BYTES"
    and "sa_expected_len s' = None \<Longrightarrow> length (sa_buf s) < 3"
  using assms by (auto simp: resolve_pending_header_def set_expected_len_or_drop_def split: if_splits)

lemma declared_total_ge: "3 \<le> declared_total_length bs"
  by (simp add: declared_total_length_def)

function try_take_pending ::
  "bool \<Rightarrow> bytes list \<Rightarrow> section_assembler \<Rightarrow> bytes list \<times> section_assembler" where
  "try_take_pending require_reserved_bits out s =
     (case resolve_pending_header require_reserved_bits s of
        Inl s' \<Rightarrow> (out, s')
      | Inr s1 \<Rightarrow>
          (case sa_expected_len s1 of
             None \<Rightarrow> (out, s1)
           | Some expected_len \<Rightarrow>
               if length (sa_buf s1) < expected_len then (out, s1)
               else
                 let sec = take expected_len (sa_buf s1);
                     s2 = s1\<lparr>sa_buf := drop expected_len (sa_buf s1), sa_expected_len := None\<rparr>;
                     parsed = parsed_is_some require_reserved_bits sec;
                     out' = (if parsed then out @ [sec] else out);
                     s3 = (if parsed then s2 else increment_oversized_section_drops s2)
                 in if sa_buf s3 = [] then (out', s3)
                    else if sa_buf s3 ! 0 = 0xff then (out', section_reset s3)
                    else try_take_pending require_reserved_bits out' s3))"
  by pat_completeness auto

lemma increment_drops_frame [simp]:
  "sa_buf (increment_oversized_section_drops s) = sa_buf s"
  "sa_expected_len (increment_oversized_section_drops s) = sa_expected_len s"
  "sa_buf (increment_stale_partial_section_discards s) = sa_buf s"
  "sa_expected_len (increment_stale_partial_section_discards s) = sa_expected_len s"
  by (simp_all add: increment_oversized_section_drops_def increment_stale_partial_section_discards_def
      split: option.split)

lemma section_reset_frame [simp]:
  "sa_buf (section_reset s) = []" "sa_expected_len (section_reset s) = None"
  by (simp_all add: section_reset_def)

termination try_take_pending
proof (relation "measure (\<lambda>(_, _, s). 2 * length (sa_buf s) + (if sa_expected_len s = None then 0 else 1))")
  fix req out s s1 e sec s2 parsed out' s3
  assume a: "resolve_pending_header req s = Inr s1" "sa_expected_len s1 = Some e" "\<not> length (sa_buf s1) < e"
    "sec = take e (sa_buf s1)" "s2 = s1\<lparr>sa_buf := drop e (sa_buf s1), sa_expected_len := None\<rparr>"
    "parsed = parsed_is_some req sec" "s3 = (if parsed then s2 else increment_oversized_section_drops s2)"
  have "sa_buf s3 = drop e (sa_buf s)" "sa_expected_len s3 = None"
    using a resolve_pending_Inr(1) [OF a(1)] by auto
  moreover have "sa_expected_len s \<noteq> None \<or> 3 \<le> e"
    using resolve_pending_Inr(2) [OF a(1)] a(2) declared_total_ge [of "sa_buf s"]
    by (cases "sa_expected_len s") auto
  ultimately show "((req, out', s3), req, out, s) \<in>
      measure (\<lambda>(_, _, s). 2 * length (sa_buf s) + (if sa_expected_len s = None then 0 else 1))"
    using a(3) resolve_pending_Inr(1) [OF a(1)] by auto
qed simp

declare try_take_pending.simps [simp del]

text \<open>The loop of \<open>push_payload_with_reserved_bit_policy\<close> over the rest of a payload.\<close>

function scan_sections ::
  "bool \<Rightarrow> bytes list \<Rightarrow> bytes \<Rightarrow> section_assembler \<Rightarrow> bytes list \<times> section_assembler" where
  "scan_sections require_reserved_bits out remaining s =
     (if remaining = [] then (out, s)
      else if remaining ! 0 = 0xff then (out, s)
      else if length remaining < 3 then
        (out, s\<lparr>sa_buf := sa_buf s @ remaining, sa_expected_len := None\<rparr>)
      else if invalid_declared_header require_reserved_bits remaining then
        scan_sections require_reserved_bits out (drop 1 remaining) (increment_oversized_section_drops s)
      else if declared_total_length remaining \<le> length remaining then
        if parsed_is_some require_reserved_bits remaining then
          scan_sections require_reserved_bits (out @ [take (declared_total_length remaining) remaining])
            (drop (declared_total_length remaining) remaining) s
        else scan_sections require_reserved_bits out (drop 1 remaining) (increment_oversized_section_drops s)
      else
        (out, snd (set_expected_len_or_drop (declared_total_length remaining)
                     (s\<lparr>sa_buf := sa_buf s @ remaining\<rparr>))))"
  by pat_completeness auto
termination scan_sections
  by (relation "measure (\<lambda>(_, _, remaining, _). length remaining)") (auto simp: declared_total_length_def)

declare scan_sections.simps [simp del]

lemma scan_sections_Nil [simp]: "scan_sections req out [] s = (out, s)"
  by (subst scan_sections.simps) simp

definition push_payload_with_reserved_bit_policy ::
  "bool \<Rightarrow> bool \<Rightarrow> bytes \<Rightarrow> section_assembler \<Rightarrow> bytes list \<times> section_assembler" where
  "push_payload_with_reserved_bit_policy require_reserved_bits payload_unit_start payload s =
     (let pending = (\<lambda>s. sa_buf s \<noteq> [] \<or> sa_expected_len s \<noteq> None);
          continue = (\<lambda>out cursor s.
            if length payload \<le> cursor then (out, s)
            else if pending s then
              try_take_pending require_reserved_bits out (s\<lparr>sa_buf := sa_buf s @ drop cursor payload\<rparr>)
            else scan_sections require_reserved_bits out (drop cursor payload) s)
      in if payload = [] then ([], s)
         else if payload_unit_start then
           let pointer = unat (payload ! 0) in
           if length payload < 1 + pointer then ([], section_reset s)
           else if pending s then
             let (out, s1) =
                   (if 0 < pointer then
                      try_take_pending require_reserved_bits []
                        (s\<lparr>sa_buf := sa_buf s @ slice payload 1 (1 + pointer)\<rparr>)
                    else ([], s));
                 s2 = (if pending s1 then section_reset (increment_stale_partial_section_discards s1) else s1)
             in continue out (1 + pointer) s2
           else continue [] (1 + pointer) s
         else if \<not> pending s then ([], s)
         else continue [] 0 s)"

record section_push_outcome =
  so_sections :: "bytes list"
  so_oversized_section_drop_delta :: u64
  so_stale_partial_discard_delta :: u64
  so_oversized_section_counter_saturated :: bool
  so_stale_partial_counter_saturated :: bool

definition has_drop_or_discard :: "section_push_outcome \<Rightarrow> bool" where
  "has_drop_or_discard o' \<longleftrightarrow> 0 < so_oversized_section_drop_delta o' \<or> 0 < so_stale_partial_discard_delta o'"

definition push_payload_with_outcome_policy ::
  "bool \<Rightarrow> bytes \<Rightarrow> bool \<Rightarrow> section_assembler \<Rightarrow> section_push_outcome \<times> section_assembler" where
  "push_payload_with_outcome_policy payload_unit_start payload require_reserved_bits s =
     (let (sections, s') = push_payload_with_reserved_bit_policy require_reserved_bits payload_unit_start payload s
      in (\<lparr>so_sections = sections,
           so_oversized_section_drop_delta =
             saturating_sub_u64 (sa_oversized_section_drops s') (sa_oversized_section_drops s),
           so_stale_partial_discard_delta =
             saturating_sub_u64 (sa_stale_partial_section_discards s') (sa_stale_partial_section_discards s),
           so_oversized_section_counter_saturated =
             (\<not> sa_oversized_section_drop_counter_saturated s \<and> sa_oversized_section_drop_counter_saturated s'),
           so_stale_partial_counter_saturated =
             (\<not> sa_stale_partial_section_discard_counter_saturated s \<and>
              sa_stale_partial_section_discard_counter_saturated s')\<rparr>, s'))"

definition push_payload_with_outcome ::
  "bool \<Rightarrow> bytes \<Rightarrow> section_assembler \<Rightarrow> section_push_outcome \<times> section_assembler" where
  "push_payload_with_outcome payload_unit_start payload s =
     push_payload_with_outcome_policy payload_unit_start payload True s"

subsection \<open>Headers of whole sections\<close>

definition whole_section :: "bool \<Rightarrow> bytes \<Rightarrow> bool" where
  "whole_section req p \<longleftrightarrow>
     (case parsed_by_policy req p of None \<Rightarrow> False | Some h \<Rightarrow> sh_total_length h = length p) \<and> p ! 0 \<noteq> 0xff"

lemma parsed_conv:
  "parsed_is_some req p \<longleftrightarrow>
     3 \<le> length p \<and> \<not> invalid_declared_header req p \<and> declared_total_length p \<le> length p \<and>
     (req \<and> p ! 1 AND 0x80 \<noteq> 0 \<longrightarrow> p ! 5 AND 0xc0 = 0xc0)"
  by (auto simp: parsed_is_some_def parsed_by_policy_def parse_section_header_def parse_raw_section_framing_def
      parse_section_header_with_reserved_bit_policy_def normalize_length_field_bits_def Let_def
      invalid_declared_header_def declared_total_length_def)

lemma parsed_total:
  "parsed_by_policy req p = Some h \<Longrightarrow> sh_total_length h = declared_total_length p"
  by (auto simp: parsed_by_policy_def parse_section_header_def parse_raw_section_framing_def
      parse_section_header_with_reserved_bit_policy_def normalize_length_field_bits_def Let_def
      declared_total_length_def split: if_splits)

lemma whole_section_conv:
  "whole_section req p \<longleftrightarrow>
     3 \<le> length p \<and> \<not> invalid_declared_header req p \<and> declared_total_length p = length p \<and>
     (req \<and> p ! 1 AND 0x80 \<noteq> 0 \<longrightarrow> p ! 5 AND 0xc0 = 0xc0) \<and> p ! 0 \<noteq> 0xff"
proof (cases "parsed_by_policy req p")
  case None
  with parsed_conv [of req p] show ?thesis by (auto simp: whole_section_def parsed_is_some_def)
next
  case (Some h)
  with parsed_conv [of req p] parsed_total [OF Some] show ?thesis
    by (auto simp: whole_section_def parsed_is_some_def)
qed

text \<open>The header of a section is read from its first bytes only.\<close>

lemma declared_append:
  "3 \<le> length p \<Longrightarrow> declared_total_length (p @ x) = declared_total_length p"
  "3 \<le> length p \<Longrightarrow> invalid_declared_header req (p @ x) = invalid_declared_header req p"
  by (auto simp: declared_total_length_def invalid_declared_header_def nth_append Let_def)

lemma declared_syntax:
  "\<not> invalid_declared_header req p \<Longrightarrow> p ! 1 AND 0x80 \<noteq> 0 \<Longrightarrow> 12 \<le> declared_total_length p"
  by (auto simp: invalid_declared_header_def declared_total_length_def Let_def)

lemma declared_bound:
  "\<not> invalid_declared_header req p \<Longrightarrow> declared_total_length p \<le> MAX_SECTION_PAYLOAD_BYTES"
  by (auto simp: invalid_declared_header_def declared_total_length_def Let_def)

lemma whole_section_take:
  assumes "parsed_is_some req (take n bs)" and "n = declared_total_length bs" and "n \<le> length bs"
    and "bs ! 0 \<noteq> 0xff"
  shows "whole_section req (take n bs)"
proof -
  have 3: "3 \<le> length (take n bs)" using assms(1) by (simp add: parsed_conv)
  have "declared_total_length (take n bs) = n"
    using declared_append(1) [OF 3, of "drop n bs"] assms(2) by simp
  with 3 assms show ?thesis by (auto simp: whole_section_conv parsed_conv)
qed

lemma parsed_take:
  assumes "declared_total_length bs \<le> length bs" and "3 \<le> length bs"
  shows "(parsed_is_some req (take (declared_total_length bs) bs)) = (parsed_is_some req bs)"
proof -
  let ?p = "take (declared_total_length bs) bs"
  have 3: "3 \<le> length ?p" using assms declared_total_ge [of bs] by simp
  have d: "declared_total_length ?p = declared_total_length bs"
    "invalid_declared_header req ?p = invalid_declared_header req bs"
    using declared_append [OF 3, where x = "drop (declared_total_length bs) bs"] by simp_all
  have "\<not> invalid_declared_header req bs \<Longrightarrow> bs ! 1 AND 0x80 \<noteq> 0 \<Longrightarrow> ?p ! 5 = bs ! 5"
    using declared_syntax [of req bs] by simp
  then show ?thesis unfolding parsed_conv d using 3 assms by auto
qed

lemma whole_section_append:
  assumes "whole_section req p"
  shows "3 \<le> length (p @ x)" and "\<not> invalid_declared_header req (p @ x)" and "declared_total_length (p @ x) = length p"
    and "parsed_is_some req (p @ x)" and "(p @ x) ! 0 \<noteq> 0xff"
proof -
  from assms have w: "3 \<le> length p" "\<not> invalid_declared_header req p" "declared_total_length p = length p"
    "p ! 0 \<noteq> 0xff" "parsed_is_some req p"
    by (auto simp: whole_section_conv parsed_conv)
  with declared_append [OF w(1), where x = x]
  show l: "3 \<le> length (p @ x)" "\<not> invalid_declared_header req (p @ x)" "declared_total_length (p @ x) = length p"
    by simp_all
  show "parsed_is_some req (p @ x)"
    using parsed_take [of "p @ x" req] l w by simp
  show "(p @ x) ! 0 \<noteq> 0xff" using w by (cases p) simp_all
qed

subsection \<open>Invariant of the assembler\<close>

definition section_wf :: "bool \<Rightarrow> section_assembler \<Rightarrow> bool" where
  "section_wf req s \<longleftrightarrow>
     (sa_buf s \<noteq> [] \<longrightarrow> sa_buf s ! 0 \<noteq> 0xff) \<and>
     (case sa_expected_len s of
        None \<Rightarrow> length (sa_buf s) < 3
      | Some e \<Rightarrow> 3 \<le> length (sa_buf s) \<and> length (sa_buf s) < e \<and> e = declared_total_length (sa_buf s) \<and>
          \<not> invalid_declared_header req (sa_buf s))"

text \<open>What holds of the buffer when \<open>try_take_pending\<close> is called.\<close>

definition pending_pre :: "bool \<Rightarrow> section_assembler \<Rightarrow> bool" where
  "pending_pre req s \<longleftrightarrow> sa_buf s \<noteq> [] \<and> sa_buf s ! 0 \<noteq> 0xff \<and>
     (\<forall>e. sa_expected_len s = Some e \<longrightarrow> 3 \<le> length (sa_buf s) \<and> e = declared_total_length (sa_buf s) \<and>
        \<not> invalid_declared_header req (sa_buf s))"

lemma section_wf_reset [simp]: "section_wf req (section_reset s)"
  by (simp add: section_wf_def)

lemma section_wf_pending:
  assumes "section_wf req s" and "sa_buf s \<noteq> [] \<or> sa_expected_len s \<noteq> None"
  shows "pending_pre req (s\<lparr>sa_buf := sa_buf s @ x\<rparr>)"
proof -
  have "sa_buf s \<noteq> []" using assms by (cases "sa_expected_len s") (auto simp: section_wf_def)
  with assms(1) show ?thesis
    by (auto simp: pending_pre_def section_wf_def declared_append nth_append split: option.splits)
qed

lemma try_take_pending_wf:
  assumes "pending_pre req s"
  shows "section_wf req (snd (try_take_pending req out s))"
    and "\<exists>ys. fst (try_take_pending req out s) = out @ ys \<and> list_all (whole_section req) ys"
proof -
  have "section_wf req (snd (try_take_pending req out s)) \<and>
    (\<exists>ys. fst (try_take_pending req out s) = out @ ys \<and> list_all (whole_section req) ys)"
    using assms
  proof (induction req out s rule: try_take_pending.induct)
    case (1 req out s)
    show ?case
    proof (cases "resolve_pending_header req s")
      case (Inl s')
      then have "s' = section_reset s' \<or> section_wf req s'"
        by (auto simp: resolve_pending_header_def set_expected_len_or_drop_def split: if_splits)
      then have "section_wf req s'" by (metis section_wf_reset)
      with Inl show ?thesis by (subst (1 2) try_take_pending.simps) (simp add: list_all_iff)
    next
      case (Inr s1)
      note r = resolve_pending_Inr [OF Inr]
      show ?thesis
      proof (cases "sa_expected_len s1")
        case None
        with r Inr "1.prems" show ?thesis
          by (subst (1 2) try_take_pending.simps) (auto simp: section_wf_def pending_pre_def)
      next
        case (Some e)
        with r "1.prems" have e: "e = declared_total_length (sa_buf s)" "3 \<le> length (sa_buf s)"
          "\<not> invalid_declared_header req (sa_buf s)" "sa_buf s \<noteq> []" "sa_buf s ! 0 \<noteq> 0xff"
          by (cases "sa_expected_len s"; simp add: pending_pre_def)+
        show ?thesis
        proof (cases "length (sa_buf s1) < e")
          case True
          with r Some e Inr show ?thesis
            by (subst (1 2) try_take_pending.simps) (auto simp: section_wf_def)
        next
          case False
          define sec where "sec = take e (sa_buf s1)"
          define s2 where "s2 = s1\<lparr>sa_buf := drop e (sa_buf s1), sa_expected_len := None\<rparr>"
          define out' where "out' = (if parsed_is_some req sec then out @ [sec] else out)"
          define s3 where "s3 = (if parsed_is_some req sec then s2 else increment_oversized_section_drops s2)"
          have s3: "sa_expected_len s3 = None" by (simp add: s3_def s2_def)
          have out': "\<exists>ys. out' = out @ ys \<and> list_all (whole_section req) ys"
            using whole_section_take [of req e "sa_buf s"] r e False by (auto simp: out'_def sec_def)
          have eq: "try_take_pending req out s =
            (if sa_buf s3 = [] then (out', s3)
             else if sa_buf s3 ! 0 = 0xff then (out', section_reset s3)
             else try_take_pending req out' s3)"
            using Inr Some False
            by (subst try_take_pending.simps) (simp add: Let_def sec_def s2_def out'_def s3_def)
          consider "sa_buf s3 = []" | "sa_buf s3 \<noteq> []" "sa_buf s3 ! 0 = 0xff"
            | "sa_buf s3 \<noteq> []" "sa_buf s3 ! 0 \<noteq> 0xff" by blast
          then show ?thesis
          proof cases
            case 1
            with eq s3 out' show ?thesis by (simp add: section_wf_def)
          next
            case 2
            with eq out' show ?thesis by simp
          next
            case 3
            with s3 have "pending_pre req s3" by (simp add: pending_pre_def)
            with "1.IH" [OF Inr Some False sec_def s2_def refl out'_def s3_def] 3 eq out' show ?thesis by force
          qed
        qed
      qed
    qed
  qed
  then show "section_wf req (snd (try_take_pending req out s))"
    and "\<exists>ys. fst (try_take_pending req out s) = out @ ys \<and> list_all (whole_section req) ys" by auto
qed

lemma scan_sections_wf:
  assumes "sa_buf s = []" and "sa_expected_len s = None"
  shows "section_wf req (snd (scan_sections req out bs s)) \<and>
    (\<exists>ys. fst (scan_sections req out bs s) = out @ ys \<and> list_all (whole_section req) ys)"
  using assms
proof (induction req out bs s rule: scan_sections.induct)
  case (1 req out bs s)
  let ?n = "declared_total_length bs"
  consider "bs = [] \<or> bs ! 0 = 0xff \<or> length bs < 3"
    | "bs \<noteq> []" "bs ! 0 \<noteq> 0xff" "3 \<le> length bs" "invalid_declared_header req bs"
    | "bs \<noteq> []" "bs ! 0 \<noteq> 0xff" "3 \<le> length bs" "\<not> invalid_declared_header req bs" "?n \<le> length bs"
      "\<not> parsed_is_some req bs"
    | "bs \<noteq> []" "bs ! 0 \<noteq> 0xff" "3 \<le> length bs" "\<not> invalid_declared_header req bs" "?n \<le> length bs"
      "parsed_is_some req bs"
    | "bs \<noteq> []" "bs ! 0 \<noteq> 0xff" "3 \<le> length bs" "\<not> invalid_declared_header req bs" "length bs < ?n"
    by linarith
  then show ?case
  proof cases
    case 1
    with "1.prems" show ?thesis by (subst (1 2) scan_sections.simps) (auto simp: section_wf_def)
  next
    case 2
    with "1.IH"(1) "1.prems" show ?thesis by (subst (1 2) scan_sections.simps) simp
  next
    case 3
    with "1.IH"(3) "1.prems" show ?thesis by (subst (1 2) scan_sections.simps) simp
  next
    case 4
    then have "whole_section req (take ?n bs)"
      using parsed_take [of bs req] by (intro whole_section_take) auto
    with "1.IH"(2) "1.prems" 4 show ?thesis by (subst (1 2) scan_sections.simps) force
  next
    case 5
    with "1.prems" declared_bound [of req bs] show ?thesis
      by (subst (1 2) scan_sections.simps) (auto simp: section_wf_def set_expected_len_or_drop_def)
  qed
qed

definition section_pending :: "section_assembler \<Rightarrow> bool" where
  "section_pending s \<longleftrightarrow> sa_buf s \<noteq> [] \<or> sa_expected_len s \<noteq> None"

lemma section_pending_simps [simp]:
  "\<not> section_pending (section_reset s)"
  "section_pending (increment_stale_partial_section_discards s) = section_pending s"
  by (simp_all add: section_pending_def)

text \<open>What a push does with the bytes of a payload from \<open>rest\<close> on.\<close>

definition push_rest :: "bool \<Rightarrow> bytes list \<Rightarrow> bytes \<Rightarrow> section_assembler \<Rightarrow> bytes list \<times> section_assembler" where
  "push_rest req out rest s =
     (if rest = [] then (out, s)
      else if section_pending s then try_take_pending req out (s\<lparr>sa_buf := sa_buf s @ rest\<rparr>)
      else scan_sections req out rest s)"

definition push_pointer :: "bool \<Rightarrow> bytes \<Rightarrow> section_assembler \<Rightarrow> bytes list \<times> section_assembler" where
  "push_pointer req tail s =
     (if section_pending s then
        case (if tail = [] then ([], s) else try_take_pending req [] (s\<lparr>sa_buf := sa_buf s @ tail\<rparr>)) of
          (out, s1) \<Rightarrow>
            (out, if section_pending s1 then section_reset (increment_stale_partial_section_discards s1) else s1)
      else ([], s))"

lemma section_push_split:
  "push_payload_with_reserved_bit_policy req pusi payload s =
     (if payload = [] then ([], s)
      else if pusi then
        if length payload < 1 + unat (payload ! 0) then ([], section_reset s)
        else case push_pointer req (slice payload 1 (1 + unat (payload ! 0))) s of
               (out, s1) \<Rightarrow> push_rest req out (drop (1 + unat (payload ! 0)) payload) s1
      else if section_pending s then push_rest req [] payload s
      else ([], s))"
proof -
  have "\<not> length payload < 1 + unat (payload ! 0) \<Longrightarrow>
    slice payload 1 (1 + unat (payload ! 0)) = [] \<longleftrightarrow> \<not> 0 < unat (payload ! 0)"
    by (auto simp: slice_def)
  then show ?thesis
    by (auto simp: push_payload_with_reserved_bit_policy_def push_rest_def push_pointer_def section_pending_def
        Let_def split: prod.splits)
qed

lemma push_rest_wf:
  assumes "section_wf req s"
  shows "section_wf req (snd (push_rest req out rest s)) \<and>
    (\<exists>ys. fst (push_rest req out rest s) = out @ ys \<and> list_all (whole_section req) ys)"
proof (cases "section_pending s")
  case True
  with assms try_take_pending_wf [OF section_wf_pending [OF assms, of rest]] show ?thesis
    by (auto simp: push_rest_def section_pending_def)
next
  case False
  with assms scan_sections_wf [of s req out rest] show ?thesis
    by (auto simp: push_rest_def section_pending_def)
qed

lemma push_pointer_wf:
  assumes "section_wf req s"
  shows "section_wf req (snd (push_pointer req tail s)) \<and>
    list_all (whole_section req) (fst (push_pointer req tail s)) \<and> \<not> section_pending (snd (push_pointer req tail s))"
proof (cases "section_pending s")
  case True
  with assms try_take_pending_wf [OF section_wf_pending [OF assms, of tail], of "[]"] show ?thesis
    by (auto simp: push_pointer_def section_pending_def split: prod.splits)
next
  case False
  with assms show ?thesis by (simp add: push_pointer_def)
qed

lemma section_push_wf:
  assumes "section_wf req s"
  shows "section_wf req (snd (push_payload_with_reserved_bit_policy req pusi payload s))"
    and "list_all (whole_section req) (fst (push_payload_with_reserved_bit_policy req pusi payload s))"
proof -
  let ?p = "push_pointer req (slice payload 1 (1 + unat (payload ! 0))) s"
  have "section_wf req (snd (push_payload_with_reserved_bit_policy req pusi payload s)) \<and>
    list_all (whole_section req) (fst (push_payload_with_reserved_bit_policy req pusi payload s))"
    using assms push_rest_wf [OF assms, of "[]" payload]
      push_pointer_wf [OF assms, of "slice payload 1 (1 + unat (payload ! 0))"]
      push_rest_wf [of req "snd ?p" "fst ?p" "drop (1 + unat (payload ! 0)) payload"]
    unfolding section_push_split
    by (cases ?p) (auto simp: list_all_iff)
  then show "section_wf req (snd (push_payload_with_reserved_bit_policy req pusi payload s))"
    and "list_all (whole_section req) (fst (push_payload_with_reserved_bit_policy req pusi payload s))" by auto
qed

lemma section_wf_held: "section_wf req s \<Longrightarrow> length (sa_buf s) \<le> MAX_SECTION_PAYLOAD_BYTES - 1"
  using declared_bound [of req "sa_buf s"]
  by (auto simp: section_wf_def hal_sizes split: option.splits)

interpretation section_asm: payload_assembler section_assembler_default "push_payload_with_reserved_bit_policy req"
  "section_wf req" "whole_section req" "\<lambda>s. length (sa_buf s)" "MAX_SECTION_PAYLOAD_BYTES - 1" for req
proof
  show "section_wf req section_assembler_default"
    by (simp add: section_wf_def section_assembler_default_def)
qed (use section_push_wf [of req] section_wf_held [of req] in \<open>auto simp: list_all_iff\<close>)

text \<open>
  Memory of the section assembler: after any sequence of TS payloads it holds fewer than
  4096 bytes, and every section it returned is exactly as long as its header declares, with a
  header that the configured policy accepts.
\<close>

lemma section_assembler_run:
  "length (sa_buf (snd (run_payloads (push_payload_with_reserved_bit_policy req) xs section_assembler_default))) \<le>
     MAX_SECTION_PAYLOAD_BYTES - 1 \<and>
   list_all (whole_section req)
     (fst (run_payloads (push_payload_with_reserved_bit_policy req) xs section_assembler_default))"
  using section_asm.run_from_init [of req xs] by (auto simp: list_all_iff)

subsection \<open>Reassembly\<close>

text \<open>
  A multiplexer sends sections back to back. A payload that starts a section has the flag set and
  a pointer over the rest of the section before it; then come whole sections and the start of the
  next one, or stuffing. Other payloads continue the section under way. The second argument is
  the section under way, split into the part sent and the part to come.
\<close>

inductive section_mux :: "bool \<Rightarrow> (bytes \<times> bytes) option \<Rightarrow> (bool \<times> bytes) list \<Rightarrow> bytes list \<Rightarrow> bool"
  for req where
  mux_end: "section_mux req pend [] []"
| mux_continue: "section_mux req (Some (d @ x, r)) ps ss \<Longrightarrow> x \<noteq> [] \<Longrightarrow> r \<noteq> [] \<Longrightarrow>
    section_mux req (Some (d, x @ r)) ((False, x) # ps) ss"
| mux_complete: "section_mux req None ps ss \<Longrightarrow>
    section_mux req (Some (d, r)) ((False, r @ replicate n 0xff) # ps) ((d @ r) # ss)"
| mux_start: "section_mux req nxt ps ss \<Longrightarrow>
    pend = None \<and> r = [] \<and> done = [] \<or> pend = Some (d, r) \<and> done = [d @ r] \<Longrightarrow> length r < 256 \<Longrightarrow>
    list_all (whole_section req) cs \<Longrightarrow>
    nxt = None \<and> f = replicate n 0xff \<or>
      nxt = Some (f, g) \<and> f \<noteq> [] \<and> g \<noteq> [] \<and> whole_section req (f @ g) \<Longrightarrow>
    section_mux req pend ((True, of_nat (length r) # r @ concat cs @ f) # ps) (done @ cs @ ss)"

text \<open>The assembler's state for a section under way.\<close>

definition mux_state :: "bool \<Rightarrow> (bytes \<times> bytes) option \<Rightarrow> section_assembler \<Rightarrow> bool" where
  "mux_state req pend s =
     (case pend of
        None \<Rightarrow> \<not> section_pending s
      | Some (d, r) \<Rightarrow> d \<noteq> [] \<and> r \<noteq> [] \<and> whole_section req (d @ r) \<and> sa_buf s = d \<and>
          sa_expected_len s = (if length d < 3 then None else Some (length (d @ r))))"

lemma whole_section_prefix:
  assumes "whole_section req (d @ r)" and "3 \<le> length d"
  shows "\<not> invalid_declared_header req d" and "declared_total_length d = length (d @ r)"
  using assms declared_append [OF assms(2), where x = r] by (auto simp: whole_section_conv)

lemma mux_resolve:
  assumes "whole_section req (b @ r)" and "sa_buf s = b"
    and "sa_expected_len s = None \<or> 3 \<le> length b \<and> sa_expected_len s = Some (length (b @ r))"
  shows "\<exists>s1. resolve_pending_header req s = Inr s1 \<and> sa_buf s1 = b \<and>
    sa_expected_len s1 = (if length b < 3 then None else Some (length (b @ r)))"
  using assms whole_section_prefix [OF assms(1)] declared_bound [of req b]
  by (auto simp: resolve_pending_header_def set_expected_len_or_drop_def)

lemma mux_take_more:
  assumes "whole_section req (b @ r)" and "b \<noteq> []" and "r \<noteq> []" and "sa_buf s = b"
    and "sa_expected_len s = None \<or> 3 \<le> length b \<and> sa_expected_len s = Some (length (b @ r))"
  shows "\<exists>s1. try_take_pending req out s = (out, s1) \<and> mux_state req (Some (b, r)) s1"
proof -
  from mux_resolve [OF assms(1,4,5)] obtain s1 where s1: "resolve_pending_header req s = Inr s1" "sa_buf s1 = b"
    "sa_expected_len s1 = (if length b < 3 then None else Some (length (b @ r)))" by blast
  then have "try_take_pending req out s = (out, s1)"
    using assms(3) by (subst try_take_pending.simps) (auto split: option.split)
  with s1 assms show ?thesis by (auto simp: mux_state_def)
qed

lemma mux_take_complete:
  assumes w: "whole_section req p" and b: "sa_buf s = p @ replicate n 0xff"
    and "sa_expected_len s = None \<or> sa_expected_len s = Some (length p)"
  shows "\<exists>s1. try_take_pending req out s = (out @ [p], s1) \<and> \<not> section_pending s1"
proof -
  note a = whole_section_append [OF w, where x = "replicate n 0xff"]
  obtain s1 where s1: "resolve_pending_header req s = Inr s1" "sa_buf s1 = p @ replicate n 0xff"
    "sa_expected_len s1 = Some (length p)"
    using assms(3) a b declared_bound [of req "p @ replicate n 0xff"]
    by (auto simp: resolve_pending_header_def set_expected_len_or_drop_def)
  with whole_section_append(4) [OF w, of "[]"] show ?thesis
    by (subst try_take_pending.simps) (cases n; simp add: Let_def section_pending_def section_reset_def)
qed

lemma scan_whole:
  assumes "list_all (whole_section req) cs"
  shows "scan_sections req out (concat cs @ f) s = scan_sections req (out @ cs) f s"
  using assms
proof (induction cs arbitrary: out)
  case (Cons c cs)
  then have c: "whole_section req c" by simp
  note a = whole_section_append [OF this, where x = "concat cs @ f"]
  have "c \<noteq> []" using c by (auto simp: whole_section_conv)
  then have "scan_sections req out (c @ concat cs @ f) s = scan_sections req (out @ [c]) (concat cs @ f) s"
    using a by (subst scan_sections.simps) auto
  with Cons show ?case by simp
qed simp

lemma scan_start:
  assumes "whole_section req (f @ g)" and "f \<noteq> []" and "g \<noteq> []" and "\<not> section_pending s"
  shows "\<exists>s1. scan_sections req out f s = (out, s1) \<and> mux_state req (Some (f, g)) s1"
proof -
  have "f ! 0 \<noteq> 0xff" using whole_section_append(5) [OF assms(1), of "[]"] assms(2) by (cases f) auto
  with assms whole_section_prefix [OF assms(1)] declared_bound [of req f] show ?thesis
    by (cases "length f < 3"; subst scan_sections.simps)
      (auto simp: mux_state_def section_pending_def set_expected_len_or_drop_def)
qed

lemma push_continue:
  assumes "mux_state req (Some (d, x @ r)) s" and "x \<noteq> []" and "r \<noteq> []"
  shows "\<exists>s1. push_payload_with_reserved_bit_policy req False x s = ([], s1) \<and> mux_state req (Some (d @ x, r)) s1"
proof -
  from assms(1) have "section_pending s" by (simp add: mux_state_def section_pending_def)
  then show ?thesis
    using assms mux_take_more [of req "d @ x" r "s\<lparr>sa_buf := sa_buf s @ x\<rparr>" "[]"]
    by (auto simp: section_push_split push_rest_def mux_state_def)
qed

lemma push_complete:
  assumes "mux_state req (Some (d, r)) s"
  shows "\<exists>s1. push_payload_with_reserved_bit_policy req False (r @ replicate n 0xff) s = ([d @ r], s1) \<and>
    mux_state req None s1"
proof -
  from assms have "section_pending s" "r \<noteq> []" by (simp_all add: mux_state_def section_pending_def)
  then show ?thesis
    using assms mux_take_complete [of req "d @ r" "s\<lparr>sa_buf := sa_buf s @ r @ replicate n 0xff\<rparr>" n "[]"]
    by (auto simp: section_push_split push_rest_def mux_state_def split: if_splits)
qed

lemma push_pointer_tail:
  assumes "mux_state req pend s" and "pend = None \<and> r = [] \<and> done = [] \<or> pend = Some (d, r) \<and> done = [d @ r]"
  shows "\<exists>s1. push_pointer req r s = (done, s1) \<and> \<not> section_pending s1"
proof (cases pend)
  case None
  with assms show ?thesis by (auto simp: push_pointer_def mux_state_def)
next
  case (Some p)
  with assms have "section_pending s" "r \<noteq> []" by (auto simp: mux_state_def section_pending_def)
  with Some assms mux_take_complete [of req "d @ r" "s\<lparr>sa_buf := sa_buf s @ r\<rparr>" 0 "[]"] show ?thesis
    by (auto simp: push_pointer_def mux_state_def split: if_splits)
qed

lemma push_rest_start:
  assumes "\<not> section_pending s" and "list_all (whole_section req) cs"
    and "nxt = None \<and> f = replicate n 0xff \<or>
      nxt = Some (f, g) \<and> f \<noteq> [] \<and> g \<noteq> [] \<and> whole_section req (f @ g)"
  shows "\<exists>s1. push_rest req out (concat cs @ f) s = (out @ cs, s1) \<and> mux_state req nxt s1"
proof -
  have "push_rest req out (concat cs @ f) s = scan_sections req out (concat cs @ f) s"
    using assms(1) by (cases "concat cs @ f = []") (simp_all add: push_rest_def del: concat_eq_Nil_conv append_is_Nil_conv)
  also have "\<dots> = scan_sections req (out @ cs) f s" by (rule scan_whole [OF assms(2)])
  finally have eq: "push_rest req out (concat cs @ f) s = scan_sections req (out @ cs) f s" .
  from assms(3) show ?thesis
  proof
    assume a: "nxt = None \<and> f = replicate n 0xff"
    then have "scan_sections req (out @ cs) f s = (out @ cs, s)"
      by (cases n) (simp_all add: scan_sections.simps [of _ _ "_ # _"])
    with a eq assms(1) show ?thesis by (simp add: mux_state_def)
  next
    assume "nxt = Some (f, g) \<and> f \<noteq> [] \<and> g \<noteq> [] \<and> whole_section req (f @ g)"
    with eq scan_start [of req f g s "out @ cs"] assms(1) show ?thesis by simp
  qed
qed

lemma push_start:
  assumes "mux_state req pend s" and "length r < 256"
    and "pend = None \<and> r = [] \<and> done = [] \<or> pend = Some (d, r) \<and> done = [d @ r]"
    and "list_all (whole_section req) cs"
    and "nxt = None \<and> f = replicate n 0xff \<or>
      nxt = Some (f, g) \<and> f \<noteq> [] \<and> g \<noteq> [] \<and> whole_section req (f @ g)"
  shows "\<exists>s1. push_payload_with_reserved_bit_policy req True (of_nat (length r) # r @ concat cs @ f) s = (done @ cs, s1) \<and>
    mux_state req nxt s1"
proof -
  have "unat (of_nat (length r) :: u8) = length r" using assms(2) by (simp add: unat_of_nat)
  then have "push_payload_with_reserved_bit_policy req True (of_nat (length r) # r @ concat cs @ f) s =
    (case push_pointer req r s of (out, s1) \<Rightarrow> push_rest req out (concat cs @ f) s1)"
    by (simp add: section_push_split slice_def)
  with push_pointer_tail [OF assms(1,3)] push_rest_start [OF _ assms(4,5), of _ "done"] show ?thesis by auto
qed

lemma section_mux_run:
  assumes "section_mux req pend ps ss" and "mux_state req pend s"
  shows "fst (run_payloads (push_payload_with_reserved_bit_policy req) ps s) = ss"
  using assms
proof (induction arbitrary: s rule: section_mux.induct)
  case (mux_continue d x r ps ss)
  with push_continue [OF mux_continue.prems] show ?case by (force split: prod.split)
next
  case (mux_complete ps ss d r n)
  with push_complete [OF mux_complete.prems, of n] show ?case by (force split: prod.split)
next
  case (mux_start nxt ps ss pend r "done" d cs f n g)
  from push_start [OF mux_start.prems mux_start.hyps(3,2,4,5)] obtain s1
    where s1: "push_payload_with_reserved_bit_policy req True (of_nat (length r) # r @ concat cs @ f) s = (done @ cs, s1)"
      "mux_state req nxt s1" by blast
  with mux_start.IH [OF s1(2)] show ?case by (force split: prod.split)
qed simp

text \<open>
  C4. Sections that a multiplexer sends over a PID come out of the assembler in order, each
  exactly once and byte for byte, however they are spread over TS payloads: split anywhere
  (also inside the three-byte header), packed several to a payload, behind a pointer field or
  before stuffing.
\<close>

theorem section_mux_reassembly:
  assumes "section_mux req None ps ss" and "\<not> section_pending s"
  shows "fst (run_payloads (push_payload_with_reserved_bit_policy req) ps s) = ss"
  using section_mux_run [OF assms(1)] assms(2) by (simp add: mux_state_def)

lemma sample_sections:
  "whole_section True [0x42, 0x30, 0x01, 7]" "whole_section True [0x43, 0x30, 0x02, 8, 9]"
  by (simp_all add: whole_section_conv invalid_declared_header_def declared_total_length_def
      section_length_field_def is_valid_arib_section_length_def max_arib_section_length_for_table_id_def hal_sizes)

lemma sample_mux:
  "section_mux True None
     [(True, of_nat (length ([] :: bytes)) # [] @ concat [[0x42, 0x30, 0x01, 7]] @ [0x43]),
      (False, [0x30]),
      (True, of_nat (length [0x02, 8, 9 :: u8]) # [0x02, 8, 9] @ concat [] @ replicate 2 0xff)]
     ([] @ [[0x42, 0x30, 0x01, 7]] @ [[0x43, 0x30] @ [0x02, 8, 9]] @ [] @ [])"
  by (rule mux_start [where nxt = "Some ([0x43], [0x30] @ [0x02, 8, 9])" and g = "[0x30] @ [0x02, 8, 9]"],
      rule mux_continue, rule mux_start [where nxt = None and pend = "Some ([0x43] @ [0x30], [0x02, 8, 9])"
        and d = "[0x43] @ [0x30]"])
    (auto simp: sample_sections intro: mux_end)

theorem section_mux_reassembly_witness:
  "fst (run_payloads (push_payload_with_reserved_bit_policy True)
     [(True, of_nat (length ([] :: bytes)) # [] @ concat [[0x42, 0x30, 0x01, 7]] @ [0x43]),
      (False, [0x30]),
      (True, of_nat (length [0x02, 8, 9 :: u8]) # [0x02, 8, 9] @ concat [] @ replicate 2 0xff)]
     section_assembler_default) = [] @ [[0x42, 0x30, 0x01, 7]] @ [[0x43, 0x30] @ [0x02, 8, 9]] @ [] @ []"
  by (rule section_mux_reassembly [OF sample_mux]) (simp add: section_pending_def section_assembler_default_def)

subsection \<open>CRC\<close>

text \<open>
  One bit step is linear over XOR and injective, because the polynomial has a constant term.
\<close>

lemma crc32_bit_alt: "crc32_bit x = push_bit 1 x XOR (if bit x 31 then 0x04c11db7 else 0)"
  using bit_iff_and_push_bit_not_eq_0 [of x 31] by (simp add: crc32_bit_def)

lemma crc32_bit_xor: "crc32_bit (x XOR y) = crc32_bit x XOR crc32_bit y"
  by (simp add: crc32_bit_alt bit_xor_iff push_bit_xor ac_simps)

lemma crc32_bits_xor: "(crc32_bit ^^ n) (x XOR y) = (crc32_bit ^^ n) x XOR (crc32_bit ^^ n) y"
  by (induction n) (simp_all add: crc32_bit_xor)

lemma crc32_bit_eq_0: "crc32_bit x = 0 \<longleftrightarrow> x = 0"
proof
  assume z: "crc32_bit x = 0"
  have "bit (crc32_bit x) 0 = bit x 31" by (simp add: crc32_bit_alt bit_simps del: push_bit_Suc)
  with z have top: "\<not> bit x 31" by simp
  with z have p: "push_bit 1 x = 0" by (simp add: crc32_bit_alt)
  show "x = 0"
  proof (rule bit_word_eqI)
    fix n assume "n < LENGTH(32)"
    moreover have "bit (push_bit 1 x) (n + 1) = (n < 31 \<and> bit x n)"
      by (auto simp: bit_simps simp del: push_bit_Suc)
    ultimately show "bit x n = bit 0 n" using p top by (cases "n = 31") auto
  qed
qed (simp add: crc32_bit_alt)

lemma crc32_bits_eq_0: "(crc32_bit ^^ n) x = 0 \<longleftrightarrow> x = 0"
  by (induction n) (simp_all add: crc32_bit_eq_0)

lemma xor_u32_eq_0: "(x :: u32) XOR y = 0 \<longleftrightarrow> x = y"
  by (auto simp: bit_eq_iff bit_xor_iff)

lemma crc32_bits_inj: "(crc32_bit ^^ n) x = (crc32_bit ^^ n) y \<longleftrightarrow> x = y"
  using crc32_bits_eq_0 [of n "x XOR y"] by (simp add: crc32_bits_xor xor_u32_eq_0)

text \<open>As long as the bits shifted out are zero, the steps only shift.\<close>

lemma crc32_bits_low:
  assumes "n \<le> 8"
  shows "(crc32_bit ^^ n) (drop_bit 8 x) = push_bit n (drop_bit 8 x)"
  using assms
proof (induction n)
  case (Suc n)
  then have "\<not> bit (push_bit n (drop_bit 8 x)) 31" by (auto simp: bit_simps dest: bit_imp_le_length)
  with Suc show ?case by (simp add: crc32_bit_alt push_bit_push_bit del: push_bit_Suc)
qed simp

text \<open>At most four bytes, left-aligned in a word, enter the CRC all at once.\<close>

fun crc_pad :: "bytes \<Rightarrow> u32" where
  "crc_pad [] = 0"
| "crc_pad (b # bs) = push_bit 24 (ucast b) XOR drop_bit 8 (crc_pad bs)"

lemma crc_pad_low:
  assumes "length bs \<le> 3"
  shows "push_bit 8 (drop_bit 8 (crc_pad bs)) = crc_pad bs"
proof -
  have "\<not> bit (crc_pad bs) n" if "length bs \<le> 4" "n < 8 * (4 - length bs)" for n
    using that
  proof (induction bs arbitrary: n)
    case (Cons b bs)
    then have "n < 24" "n + 8 < 8 * (4 - length bs)" by auto
    with Cons show ?case by (auto simp: bit_simps ac_simps)
  qed simp
  with assms have low: "\<not> bit (crc_pad bs) n" if "n < 8" for n using that by auto
  show ?thesis
  proof (rule bit_word_eqI)
    fix n assume "n < LENGTH(32)"
    then show "bit (push_bit 8 (drop_bit 8 (crc_pad bs))) n = bit (crc_pad bs) n"
      using low [of n] by (cases "n < 8") (auto simp: bit_simps)
  qed
qed

lemma foldl_crc_pad:
  assumes "length bs \<le> 4"
  shows "foldl crc32_byte s bs = (crc32_bit ^^ (8 * length bs)) (s XOR crc_pad bs)"
  using assms
proof (induction bs arbitrary: s)
  case (Cons b bs)
  let ?x = "s XOR push_bit 24 (ucast b)"
  have "(crc32_bit ^^ 8) (drop_bit 8 (crc_pad bs)) = crc_pad bs"
    using crc32_bits_low [of 8 "crc_pad bs"] crc_pad_low [of bs] Cons.prems by simp
  then have "(crc32_bit ^^ 8) ?x XOR crc_pad bs = (crc32_bit ^^ 8) (s XOR crc_pad (b # bs))"
    using crc32_bits_xor [of 8 ?x "drop_bit 8 (crc_pad bs)"] by (simp only: crc_pad.simps xor.assoc)
  moreover have "8 * length (b # bs) = 8 * length bs + 8" by simp
  ultimately show ?case
    using Cons by (simp only: foldl_Cons crc32_byte_def funpow_add comp_apply)
qed simp

lemma ucast_ucast_u8: "ucast (ucast (b :: u8) :: u32) = b"
  by (rule bit_word_eqI) (simp add: bit_simps)

lemma xor_u32_cancel: "(x :: u32) XOR y = x XOR z \<Longrightarrow> y = z"
  by (drule arg_cong [where f = "\<lambda>w. x XOR w"]) (simp add: xor.assoc [symmetric])

lemma crc_pad_head: "drop_bit 24 (push_bit 24 (ucast b) XOR drop_bit 8 (y :: u32)) = (ucast (b :: u8) :: u32)"
  by (rule bit_word_eqI) (auto simp: bit_simps dest: bit_imp_le_length)

lemma crc_pad_inj:
  assumes "length bs = length cs" and "length bs \<le> 4" and "crc_pad bs = crc_pad cs"
  shows "bs = cs"
  using assms
proof (induction bs cs rule: list_induct2)
  case (Cons b bs c cs)
  from arg_cong [OF Cons.prems(2), of "drop_bit 24"] have "(ucast b :: u32) = ucast c"
    by (simp only: crc_pad.simps crc_pad_head)
  then have "(ucast (ucast b :: u32) :: u8) = ucast (ucast c :: u32)" by (rule arg_cong)
  then have bc: "b = c" by (simp only: ucast_ucast_u8)
  with Cons.prems(2) have "drop_bit 8 (crc_pad bs) = drop_bit 8 (crc_pad cs)"
    by (simp only: crc_pad.simps) (rule xor_u32_cancel)
  then have "push_bit 8 (drop_bit 8 (crc_pad bs)) = push_bit 8 (drop_bit 8 (crc_pad cs))" by (rule arg_cong)
  moreover have "length bs \<le> 3" "length cs \<le> 3" using Cons.prems(1) Cons.hyps by simp_all
  ultimately have "crc_pad bs = crc_pad cs" by (simp only: crc_pad_low)
  with Cons.IH Cons.prems(1) bc show ?case by simp
qed simp

text \<open>\<open>u32::to_be_bytes\<close>.\<close>

definition to_be_bytes_u32 :: "u32 \<Rightarrow> bytes" where
  "to_be_bytes_u32 c = [ucast (drop_bit 24 c), ucast (drop_bit 16 c), ucast (drop_bit 8 c), ucast c]"

lemma crc_pad_be_bytes: "crc_pad (to_be_bytes_u32 c) = c"
proof (rule bit_word_eqI)
  fix n assume "n < LENGTH(32)"
  then have "n < 8 \<or> 8 \<le> n \<and> n < 16 \<or> 16 \<le> n \<and> n < 24 \<or> 24 \<le> n \<and> n < 32" by auto
  then show "bit (crc_pad (to_be_bytes_u32 c)) n = bit c n"
    by (elim disjE) (auto simp: to_be_bytes_u32_def bit_simps)
qed

lemma crc32_mpeg_append: "crc32_mpeg (xs @ ys) = foldl crc32_byte (crc32_mpeg xs) ys"
  by (simp add: crc32_mpeg_def)

lemma crc32_appended: "crc32_mpeg (bs @ to_be_bytes_u32 (crc32_mpeg bs)) = 0"
  using foldl_crc_pad [of "to_be_bytes_u32 (crc32_mpeg bs)" "crc32_mpeg bs"] crc32_bits_eq_0 [of 32 0]
  by (simp add: crc32_mpeg_append crc_pad_be_bytes xor_self_eq) (simp add: to_be_bytes_u32_def)

lemma crc32_byte_inj: "crc32_byte s b = crc32_byte t b \<longleftrightarrow> s = t"
  by (auto simp: crc32_byte_def crc32_bits_inj) (metis xor.commute xor_u32_cancel)

lemma foldl_crc_inj: "foldl crc32_byte s bs = foldl crc32_byte t bs \<longleftrightarrow> s = t"
  by (induction bs arbitrary: s t) (simp_all add: crc32_byte_inj)

lemma crc32_burst:
  assumes "length u = length v" and "length u \<le> 4" and "u \<noteq> v"
  shows "crc32_mpeg (xs @ u @ ys) \<noteq> crc32_mpeg (xs @ v @ ys)"
proof
  assume "crc32_mpeg (xs @ u @ ys) = crc32_mpeg (xs @ v @ ys)"
  then have "foldl crc32_byte (crc32_mpeg xs) u = foldl crc32_byte (crc32_mpeg xs) v"
    by (simp add: crc32_mpeg_append foldl_crc_inj)
  then have "crc32_mpeg xs XOR crc_pad u = crc32_mpeg xs XOR crc_pad v"
    using assms by (simp add: foldl_crc_pad crc32_bits_inj)
  with crc_pad_inj [OF assms(1,2)] assms(3) show False by (auto dest: xor_u32_cancel)
qed

lemma section_header_total:
  assumes "parse_section_header sec 12 = Some h"
  shows "sh_total_length h = 3 + sh_section_length h" and "sh_total_length h \<le> length sec"
  using assms
  by (auto simp: parse_section_header_def parse_section_header_with_reserved_bit_policy_def
      normalize_length_field_bits_def Let_def split: if_splits)

text \<open>
  The CRC check is met by what a sender writes: a section that ends in the CRC of the bytes
  before it passes the check.
\<close>

lemma section_crc_accepts:
  assumes "parse_section_header (body @ to_be_bytes_u32 (crc32_mpeg body)) 12 = Some h"
    and "sh_total_length h = length body + 4" and "3 \<le> length body"
  shows "section_crc_valid (body @ to_be_bytes_u32 (crc32_mpeg body)) 12"
  using assms crc32_appended [of body] section_header_total(1) [OF assms(1)]
  by (simp add: section_crc_valid_def to_be_bytes_u32_def)

lemma sample_section_header:
  "parse_section_header ([0x42, 0x30, 0x05, b] @ to_be_bytes_u32 c) 12 =
     Some \<lparr>sh_table_id = 0x42, sh_syntax = False, sh_section_length = 5, sh_total_length = 8,
       sh_table_id_extension = None, sh_version = None, sh_current_next_indicator = None,
       sh_section_number = None, sh_last_section_number = None\<rparr>"
  by (simp add: parse_section_header_def parse_section_header_with_reserved_bit_policy_def
      normalize_length_field_bits_def section_length_field_def is_valid_arib_section_length_def
      max_arib_section_length_for_table_id_def hal_sizes to_be_bytes_u32_def)

theorem section_crc_accepts_witness:
  "section_crc_valid ([0x42, 0x30, 0x05, 7] @ to_be_bytes_u32 (crc32_mpeg [0x42, 0x30, 0x05, 7])) 12"
  by (rule section_crc_accepts [OF sample_section_header]) simp_all

text \<open>The length a section declares, in twelve bits of its second and third byte.\<close>

definition declared_by_header :: "bytes \<Rightarrow> nat" where
  "declared_by_header sec = 256 * (unat (sec ! 1) mod 16) + unat (sec ! 2)"

lemma length_field_eq: "section_length_field b c = 256 * (unat b mod 16) + unat c"
proof -
  have "unat (b AND 0x0f) = unat b mod 16"
    by (simp add: and_mask_lits unsigned_take_bit_eq take_bit_nat_def)
  moreover have "push_bit 8 (unat (b AND 0x0f)) OR unat c = push_bit 8 (unat (b AND 0x0f)) + unat c"
    by (rule disjunctive_add_eq_or [symmetric]) (auto intro!: bit_eqI simp: bit_simps dest!: bit_imp_le_length [of c])
  ultimately show ?thesis by (simp add: section_length_field_def push_bit_eq_mult)
qed

lemma section_header_declared:
  assumes "parse_section_header sec 12 = Some h"
  shows "sh_total_length h = 3 + declared_by_header sec"
  using assms
  by (auto simp: parse_section_header_def parse_section_header_with_reserved_bit_policy_def length_field_eq
      declared_by_header_def normalize_length_field_bits_def Let_def split: if_splits)

text \<open>
  C30. The CRC check finds every error that is confined to four consecutive bytes and leaves the declared
  length of the section as it is: if a section of its declared length passes the check, no copy of it that
  declares the same length and differs from it only within four consecutive bytes, the CRC itself included,
  passes. An error that changes the declared length is not covered: then the check runs over other bytes.
\<close>

theorem section_crc_rejects_burst:
  assumes "section_crc_valid (xs @ u @ ys) 12"
    and "length (xs @ u @ ys) = 3 + declared_by_header (xs @ u @ ys)"
    and "declared_by_header (xs @ v @ ys) = declared_by_header (xs @ u @ ys)"
    and "length u = length v" and "length u \<le> 4" and "u \<noteq> v"
  shows "\<not> section_crc_valid (xs @ v @ ys) 12"
proof -
  have crc: "crc32_mpeg sec = 0" if "section_crc_valid sec 12" "length sec = 3 + declared_by_header sec" for sec
    using that by (auto simp: section_crc_valid_def section_header_declared split: option.splits if_splits)
  have "crc32_mpeg (xs @ u @ ys) = 0" using crc assms(1,2) by blast
  then have "crc32_mpeg (xs @ v @ ys) \<noteq> 0" using crc32_burst [OF assms(4-6), of xs ys] by simp
  then show ?thesis using crc [of "xs @ v @ ys"] assms(2-4) by auto
qed

theorem section_crc_rejects_burst_witness:
  "\<not> section_crc_valid ([0x42, 0x30, 0x05] @ [8] @ to_be_bytes_u32 (crc32_mpeg [0x42, 0x30, 0x05, 7])) 12"
proof (rule section_crc_rejects_burst [where u = "[7]"])
  show "section_crc_valid ([0x42, 0x30, 0x05] @ [7] @ to_be_bytes_u32 (crc32_mpeg [0x42, 0x30, 0x05, 7])) 12"
    using sample_section_header [of 7 "crc32_mpeg [0x42, 0x30, 0x05, 7]"] crc32_appended [of "[0x42, 0x30, 0x05, 7]"]
    by (simp add: section_crc_valid_def to_be_bytes_u32_def)
qed (simp_all add: to_be_bytes_u32_def declared_by_header_def)

end
