(* ===== verification/Ts_Core.thy ===== *)
theory Ts_Core
  imports Hal_Common Payload_Assembler "HOL-Library.Monad_Syntax"
begin

section \<open>Continuity counters and PES assembly\<close>

text \<open>
  \<open>tuner_hal2/demux/src/parser/ts_core.rs\<close>: the continuity tracker, the parser of PES
  headers and the assembler that joins TS payloads into PES packets.
\<close>

datatype packet_pid = PacketPid (packet_pid_ts: transport_stream_pid)

definition MAX_PES_BUFFER_BYTES :: nat where
  "MAX_PES_BUFFER_BYTES = 1024 * 1024"

subsection \<open>Continuity tracking\<close>

datatype continuity_outcome = FirstPacket | InOrder | Duplicate | CounterCollision | Discontinuity

record continuity_state =
  last_counter :: "u8 option"
  last_packet :: "bytes option"

type_synonym continuity_tracker = "packet_pid \<rightharpoonup> continuity_state"

definition continuity_state_default :: continuity_state where
  "continuity_state_default = \<lparr>last_counter = None, last_packet = None\<rparr>"

definition continuity_observe ::
  "packet_pid \<Rightarrow> u8 \<Rightarrow> bool \<Rightarrow> bytes \<Rightarrow> continuity_tracker \<Rightarrow> continuity_outcome \<times> continuity_tracker" where
  "continuity_observe pid cc has_payload packet t =
     (if \<not> has_payload then (InOrder, t)
      else
        let state = entry_or continuity_state_default t pid in
        case last_counter state of
          None \<Rightarrow> (FirstPacket, t(pid \<mapsto> state\<lparr>last_counter := Some cc, last_packet := Some packet\<rparr>))
        | Some lastc \<Rightarrow>
            (if cc = lastc then
               if last_packet state = Some packet then (Duplicate, t(pid \<mapsto> state))
               else (CounterCollision, t(pid \<mapsto> state\<lparr>last_packet := Some packet\<rparr>))
             else
               let expected = (lastc + 1) AND 0x0f;
                   t' = t(pid \<mapsto> state\<lparr>last_counter := Some cc, last_packet := Some packet\<rparr>)
               in if cc = expected then (InOrder, t') else (Discontinuity, t')))"

definition continuity_reset_pid :: "packet_pid \<Rightarrow> continuity_tracker \<Rightarrow> continuity_tracker" where
  "continuity_reset_pid pid t = t(pid := None)"

subsection \<open>PES headers\<close>

record pes_packet =
  pp_pid :: packet_pid
  pp_stream_id :: u8
  pp_pts_90khz :: "u64 option"
  pp_dts_90khz :: "u64 option"
  pp_is_pes_private_data :: bool
  pp_data_alignment_indicator :: bool
  pp_raw_bytes :: bytes
  pp_payload :: bytes

record pes_header_summary =
  ph_stream_id :: u8
  ph_payload_offset :: nat
  ph_pts_90khz :: "u64 option"
  ph_dts_90khz :: "u64 option"
  ph_is_pes_private_data :: bool
  ph_data_alignment_indicator :: bool
  ph_expected_len :: "nat option"

definition pes_stream_has_optional_header :: "u8 \<Rightarrow> bool" where
  "pes_stream_has_optional_header sid \<longleftrightarrow>
     sid \<notin> {0xbc, 0xbe, 0xbf, 0xf0, 0xf1, 0xf2, 0xf8, 0xff}"

definition pts_dts_field_value :: "bytes \<Rightarrow> u8 \<Rightarrow> u64 option" where
  "pts_dts_field_value field expected_prefix =
     (if length field < 5 then None
      else if drop_bit 4 (field ! 0) \<noteq> expected_prefix then None
      else if field ! 0 AND 1 = 0 \<or> field ! 2 AND 1 = 0 \<or> field ! 4 AND 1 = 0 then None
      else Some (push_bit 30 (ucast (drop_bit 1 (field ! 0)) AND 7)
                 OR push_bit 22 (ucast (field ! 1))
                 OR push_bit 15 (ucast (drop_bit 1 (field ! 2)))
                 OR push_bit 7 (ucast (field ! 3))
                 OR ucast (drop_bit 1 (field ! 4))))"

definition advance_optional_field :: "nat \<Rightarrow> nat \<Rightarrow> nat \<Rightarrow> nat option" where
  "advance_optional_field cursor len header_len =
     do { end \<leftarrow> checked_add_usize cursor len;
          if header_len < end then None else Some end }"

fun advance_flagged_fields :: "u8 \<Rightarrow> nat \<Rightarrow> (u8 \<times> nat) list \<Rightarrow> nat \<Rightarrow> nat option" where
  "advance_flagged_fields flags2 header_len [] cursor = Some cursor"
| "advance_flagged_fields flags2 header_len ((flag, len) # rest) cursor =
     (if flags2 AND flag \<noteq> 0 then
        do { cursor' \<leftarrow> advance_optional_field cursor len header_len;
             advance_flagged_fields flags2 header_len rest cursor' }
      else advance_flagged_fields flags2 header_len rest cursor)"

definition pes_private_data_presence :: "u8 \<Rightarrow> bytes \<Rightarrow> bool option" where
  "pes_private_data_presence flags2 optional_header =
     do { let n = length optional_header;
          let pts_dts = drop_bit 6 flags2 AND 3;
          cursor \<leftarrow> (if pts_dts = 0 then Some 0 else if pts_dts = 2 then Some 5
                     else if pts_dts = 3 then Some 10 else None);
          cursor \<leftarrow> advance_optional_field cursor 0 n;
          cursor \<leftarrow> advance_flagged_fields flags2 n [(0x20, 6), (0x10, 3), (0x08, 1), (0x04, 1), (0x02, 2)] cursor;
          if flags2 AND 1 = 0 then Some False
          else do {
            extension_flags \<leftarrow> get_opt optional_header cursor;
            cursor \<leftarrow> checked_add_usize cursor 1;
            if extension_flags AND 0x0e \<noteq> 0x0e then None
            else do {
              let is_private_data = (extension_flags AND 0x80 \<noteq> 0);
              cursor \<leftarrow> (if is_private_data then advance_optional_field cursor 16 n else Some cursor);
              cursor \<leftarrow> (if extension_flags AND 0x40 \<noteq> 0 then
                            do { pack_header_len \<leftarrow> get_opt optional_header cursor;
                                 cursor \<leftarrow> checked_add_usize cursor 1;
                                 advance_optional_field cursor (unat pack_header_len) n }
                          else Some cursor);
              cursor \<leftarrow> (if extension_flags AND 0x20 \<noteq> 0 then advance_optional_field cursor 2 n else Some cursor);
              cursor \<leftarrow> (if extension_flags AND 0x10 \<noteq> 0 then advance_optional_field cursor 2 n else Some cursor);
              if extension_flags AND 0x01 \<noteq> 0 then
                do { extension_length \<leftarrow> get_opt optional_header cursor;
                     if extension_length AND 0x80 = 0 then None
                     else do { cursor \<leftarrow> checked_add_usize cursor 1;
                               cursor \<leftarrow> advance_optional_field cursor (unat (extension_length AND 0x7f)) n;
                               Some is_private_data } }
              else Some is_private_data } } }"

datatype pes_header_parse_status =
    PesIncomplete
  | PesMalformed
  | PesComplete pes_header_summary

definition pes_timestamps :: "u8 \<Rightarrow> bytes \<Rightarrow> (u64 option \<times> u64 option) option" where
  "pes_timestamps pts_dts_flags bytes =
     do { pts \<leftarrow> (if pts_dts_flags = 2 then map_option Some (pts_dts_field_value (slice bytes 9 14) 2)
                  else if pts_dts_flags = 3 then map_option Some (pts_dts_field_value (slice bytes 9 14) 3)
                  else Some None);
          dts \<leftarrow> (if pts_dts_flags = 3 then map_option Some (pts_dts_field_value (slice bytes 14 19) 1)
                  else Some None);
          Some (pts, dts) }"

definition parse_pes_header_status :: "bytes \<Rightarrow> pes_header_parse_status" where
  "parse_pes_header_status bytes =
     (if length bytes < 6 then PesIncomplete
      else if take 3 bytes \<noteq> [0, 0, 1] then PesMalformed
      else
        let stream_id = bytes ! 3;
            packet_length = unat (be16 (bytes ! 4) (bytes ! 5));
            expected_len = (if packet_length = 0 then None else Some (6 + packet_length))
        in
        if packet_length = 0 \<and> \<not> (0xe0 \<le> stream_id \<and> stream_id \<le> 0xef) then PesMalformed
        else if \<not> pes_stream_has_optional_header stream_id then
          PesComplete \<lparr>ph_stream_id = stream_id, ph_payload_offset = 6, ph_pts_90khz = None,
            ph_dts_90khz = None, ph_is_pes_private_data = False,
            ph_data_alignment_indicator = False, ph_expected_len = expected_len\<rparr>
        else if length bytes < 9 then PesIncomplete
        else
          let flags1 = bytes ! 6; flags2 = bytes ! 7;
              header_data_len = unat (bytes ! 8);
              payload_offset = 9 + header_data_len;
              pts_dts_flags = drop_bit 6 flags2 AND 3
          in
          if flags1 AND 0xc0 \<noteq> 0x80 then PesMalformed
          else if packet_length \<noteq> 0 \<and> packet_length < 3 + header_data_len then PesMalformed
          else if pts_dts_flags = 1 then PesMalformed
          else if pts_dts_flags = 2 \<and> header_data_len < 5 then PesMalformed
          else if pts_dts_flags = 3 \<and> header_data_len < 10 then PesMalformed
          else if length bytes < payload_offset then PesIncomplete
          else
            case pes_timestamps pts_dts_flags bytes of
              None \<Rightarrow> PesMalformed
            | Some (pts, dts) \<Rightarrow>
                (case pes_private_data_presence flags2 (slice bytes 9 payload_offset) of
                   None \<Rightarrow> PesMalformed
                 | Some is_private \<Rightarrow>
                     PesComplete \<lparr>ph_stream_id = stream_id, ph_payload_offset = payload_offset,
                       ph_pts_90khz = pts, ph_dts_90khz = dts, ph_is_pes_private_data = is_private,
                       ph_data_alignment_indicator = (flags1 AND 4 \<noteq> 0),
                       ph_expected_len = expected_len\<rparr>))"

definition parse_pes_header_summary :: "bytes \<Rightarrow> pes_header_summary option" where
  "parse_pes_header_summary bytes =
     (case parse_pes_header_status bytes of PesComplete summary \<Rightarrow> Some summary | _ \<Rightarrow> None)"

subsection \<open>The PES assembler\<close>

datatype pes_drop_reason = ContinuationWithoutStart | MalformedPes | OversizedPes | FlushDiscard

record pes_assembler =
  pa_pid :: "packet_pid option"
  pa_buf :: bytes
  pa_expected_len :: "nat option"
  pa_unbounded_summary :: "pes_header_summary option"
  pa_next_header :: "bytes option"
  pa_overflow_drop_count :: u64
  pa_overflow_generation :: u64
  pa_overflow_drop_counter_saturated :: bool
  pa_overflow_generation_counter_saturated :: bool
  pa_last_drop_reason :: "pes_drop_reason option"

definition pes_assembler_default :: pes_assembler where
  "pes_assembler_default = \<lparr>pa_pid = None, pa_buf = [], pa_expected_len = None,
     pa_unbounded_summary = None, pa_next_header = None, pa_overflow_drop_count = 0,
     pa_overflow_generation = 0, pa_overflow_drop_counter_saturated = False,
     pa_overflow_generation_counter_saturated = False, pa_last_drop_reason = None\<rparr>"

definition pes_reset_state_only :: "pes_assembler \<Rightarrow> pes_assembler" where
  "pes_reset_state_only s = s\<lparr>pa_pid := None, pa_buf := [], pa_expected_len := None,
     pa_unbounded_summary := None, pa_next_header := None\<rparr>"

definition pes_reset_with_drop :: "pes_drop_reason \<Rightarrow> pes_assembler \<Rightarrow> pes_assembler" where
  "pes_reset_with_drop reason s =
     (let s1 =
        (if pa_pid s \<noteq> None \<or> pa_buf s \<noteq> [] \<or> pa_expected_len s \<noteq> None \<or> pa_unbounded_summary s \<noteq> None then
           let (drops, drops_sat) = sat_incr (pa_overflow_drop_count s) (pa_overflow_drop_counter_saturated s);
               (gen, gen_sat) = sat_incr (pa_overflow_generation s) (pa_overflow_generation_counter_saturated s)
           in s\<lparr>pa_overflow_drop_count := drops, pa_overflow_drop_counter_saturated := drops_sat,
                pa_overflow_generation := gen, pa_overflow_generation_counter_saturated := gen_sat,
                pa_last_drop_reason := Some reason\<rparr>
         else s)
      in pes_reset_state_only s1)"

definition pes_take_drop_diagnostic ::
  "pes_assembler \<Rightarrow> (pes_drop_reason \<times> u64) option \<times> pes_assembler" where
  "pes_take_drop_diagnostic s =
     (map_option (\<lambda>reason. (reason, pa_overflow_generation s)) (pa_last_drop_reason s),
      s\<lparr>pa_last_drop_reason := None\<rparr>)"

definition pes_take_completed :: "pes_assembler \<Rightarrow> pes_packet option \<times> pes_assembler" where
  "pes_take_completed s =
     (case pa_pid s of None \<Rightarrow> (None, s)
      | Some pid \<Rightarrow>
          (case (case parse_pes_header_summary (pa_buf s) of
                   Some h \<Rightarrow> Some h | None \<Rightarrow> pa_unbounded_summary s) of
             None \<Rightarrow> (None, s)
           | Some summary \<Rightarrow>
               (if (case ph_expected_len summary of Some e \<Rightarrow> length (pa_buf s) < e | None \<Rightarrow> False) then (None, s)
                else
                  let raw = (case ph_expected_len summary of
                               Some e \<Rightarrow> take e (pa_buf s) | None \<Rightarrow> pa_buf s);
                      payload = (if starts_with raw [0, 0, 1]
                                 then drop (min (ph_payload_offset summary) (length raw)) raw
                                 else raw)
                  in (Some \<lparr>pp_pid = pid, pp_stream_id = ph_stream_id summary,
                            pp_pts_90khz = ph_pts_90khz summary, pp_dts_90khz = ph_dts_90khz summary,
                            pp_is_pes_private_data = ph_is_pes_private_data summary,
                            pp_data_alignment_indicator = ph_data_alignment_indicator summary,
                            pp_raw_bytes = raw, pp_payload = payload\<rparr>,
                      s\<lparr>pa_buf := [], pa_expected_len := None, pa_unbounded_summary := None,
                        pa_pid := None\<rparr>))))"

text \<open>
  \<open>push\<close> in three stages: the payload unit start (or a continuation for another PID), the
  bytes added to the pending next header or to the buffer, and the checks on the buffer.
\<close>

definition pes_push_start :: "packet_pid \<Rightarrow> pes_assembler \<Rightarrow> pes_assembler" where
  "pes_push_start pid s =
     (if pa_unbounded_summary s \<noteq> None \<and> pa_pid s = Some pid \<and> pa_next_header s = None
      then s\<lparr>pa_next_header := Some []\<rparr>
      else (if pa_unbounded_summary s \<noteq> None then pes_reset_with_drop MalformedPes s
            else pes_reset_state_only s)\<lparr>pa_pid := Some pid\<rparr>)"

definition pes_push_finish :: "pes_packet list \<Rightarrow> pes_assembler \<Rightarrow> pes_packet list \<times> pes_assembler" where
  "pes_push_finish out s =
     (let checked =
        (if pa_expected_len s = None then
           (case parse_pes_header_status (pa_buf s) of
              PesComplete summary \<Rightarrow>
                Some (s\<lparr>pa_expected_len := ph_expected_len summary,
                        pa_unbounded_summary := (if ph_expected_len summary = None then Some summary else None)\<rparr>)
            | PesIncomplete \<Rightarrow> Some s
            | PesMalformed \<Rightarrow> None)
         else Some s)
      in case checked of
           None \<Rightarrow> (out, pes_reset_with_drop MalformedPes s)
         | Some s1 \<Rightarrow>
             (if MAX_PES_BUFFER_BYTES < length (pa_buf s1) then (out, pes_reset_with_drop OversizedPes s1)
              else
                case pa_expected_len s1 of
                  None \<Rightarrow> (out, s1)
                | Some expected_len \<Rightarrow>
                    (if expected_len \<le> length (pa_buf s1) then
                       (case pes_take_completed s1 of
                          (Some packet, s2) \<Rightarrow> (out @ [packet], s2)
                        | (None, s2) \<Rightarrow> (out, s2))
                     else (out, s1))))"

definition pes_push ::
  "packet_pid \<Rightarrow> bool \<Rightarrow> bytes \<Rightarrow> pes_assembler \<Rightarrow> pes_packet list \<times> pes_assembler" where
  "pes_push pid payload_unit_start payload s =
     (if \<not> payload_unit_start \<and> pa_pid s \<noteq> Some pid
      then ([], pes_reset_with_drop ContinuationWithoutStart s)
      else
        let s1 = (if payload_unit_start then pes_push_start pid s else s) in
        case pa_next_header s1 of
          None \<Rightarrow> pes_push_finish [] (s1\<lparr>pa_buf := pa_buf s1 @ payload\<rparr>)
        | Some header0 \<Rightarrow>
            let s2 = s1\<lparr>pa_next_header := None\<rparr>;
                copied = min (264 - length header0) (length payload);
                header = header0 @ take copied payload
            in (case parse_pes_header_status header of
                  PesIncomplete \<Rightarrow> ([], s2\<lparr>pa_next_header := Some header\<rparr>)
                | PesMalformed \<Rightarrow> ([], pes_reset_with_drop MalformedPes s2)
                | PesComplete _ \<Rightarrow>
                    (case pes_take_completed s2 of
                       (packet, s3) \<Rightarrow>
                         pes_push_finish (case packet of Some p \<Rightarrow> [p] | None \<Rightarrow> [])
                           (s3\<lparr>pa_pid := Some pid, pa_buf := header @ drop copied payload\<rparr>))))"

subsection \<open>The header parser on a growing buffer\<close>

lemma be16_bound: "unat (be16 hi lo) < 65536"
  using unsigned_less [of "be16 hi lo"] by simp

lemma u8_bound: "unat (b :: u8) < 256"
  using unsigned_less [of b] by simp

lemma pes_timestamps_append:
  "(f = 2 \<longrightarrow> 14 \<le> length bs) \<Longrightarrow> (f = 3 \<longrightarrow> 19 \<le> length bs) \<Longrightarrow>
     pes_timestamps f (bs @ ms) = pes_timestamps f bs"
  by (cases "f = 3") (simp_all add: pes_timestamps_def slice_append1)

lemma status_append:
  assumes "parse_pes_header_status bs \<noteq> PesIncomplete"
  shows "parse_pes_header_status (bs @ ms) = parse_pes_header_status bs"
proof -
  from assms have len: "6 \<le> length bs" by (rule contrapos_np) (simp add: parse_pes_header_status_def)
  then have nth: "\<And>i. i < 6 \<Longrightarrow> (bs @ ms) ! i = bs ! i" and tk: "take 3 (bs @ ms) = take 3 bs"
    by (simp_all add: nth_append)
  show ?thesis
  proof (cases "length bs < 9")
    case True
    with assms len nth tk show ?thesis
      by (auto simp add: parse_pes_header_status_def Let_def split: if_splits)
  next
    case False
    then have nth9: "\<And>i. i < 9 \<Longrightarrow> (bs @ ms) ! i = bs ! i" by (simp add: nth_append)
    show ?thesis
    proof (cases "length bs < 9 + unat (bs ! 8)")
      case True
      with assms len nth9 tk False show ?thesis
        by (auto simp add: parse_pes_header_status_def Let_def split: if_splits)
    next
      case long: False
      let ?f = "drop_bit 6 (bs ! 7) AND 3"
      show ?thesis
      proof (cases "(?f = 2 \<longrightarrow> 5 \<le> unat (bs ! 8)) \<and> (?f = 3 \<longrightarrow> 10 \<le> unat (bs ! 8))")
        case True
        with long have "pes_timestamps ?f (bs @ ms) = pes_timestamps ?f bs"
          by (intro pes_timestamps_append) auto
        moreover from long have "slice (bs @ ms) 9 (9 + unat (bs ! 8)) = slice bs 9 (9 + unat (bs ! 8))"
          by (intro slice_append1) simp
        ultimately show ?thesis using long len nth9 tk False
          by (simp add: parse_pes_header_status_def Let_def split: option.split prod.split)
      next
        case short: False
        with long len nth9 tk False show ?thesis
          by (auto simp: parse_pes_header_status_def Let_def)
      qed
    qed
  qed
qed

lemma status_decided:
  assumes "264 \<le> length bs"
  shows "parse_pes_header_status bs \<noteq> PesIncomplete"
  using assms u8_bound [of "bs ! 8"]
  by (auto simp: parse_pes_header_status_def Let_def split: option.splits)

lemma status_nil [simp]: "parse_pes_header_status [] = PesIncomplete"
  by (simp add: parse_pes_header_status_def)

text \<open>What a complete header promises about the bytes it was read from.\<close>

lemma status_complete:
  assumes "parse_pes_header_status bs = PesComplete h"
  shows "ph_payload_offset h \<le> length bs" and "take 3 bs = [0, 0, 1]" and "6 \<le> ph_payload_offset h"
    and "\<And>e. ph_expected_len h = Some e \<Longrightarrow> ph_payload_offset h \<le> e \<and> e < 65542"
    and "ph_expected_len h = None \<Longrightarrow> 0xe0 \<le> ph_stream_id h \<and> ph_stream_id h \<le> 0xef"
  using assms be16_bound [of "bs ! 4" "bs ! 5"]
  by (auto simp: parse_pes_header_status_def Let_def split: if_splits option.splits)

lemma status_take:
  assumes c: "parse_pes_header_status bs = PesComplete h" and n: "ph_payload_offset h \<le> n"
  shows "parse_pes_header_status (take n bs) = PesComplete h"
proof -
  have "parse_pes_header_status (take n bs) \<noteq> PesIncomplete"
  proof
    assume inc: "parse_pes_header_status (take n bs) = PesIncomplete"
    note h = status_complete [OF c]
    from h n have n6: "6 \<le> n" and l6: "6 \<le> length bs" by auto
    show False
    proof (cases "pes_stream_has_optional_header (bs ! 3)")
      case False
      with inc n6 l6 h(2) show False
        by (auto simp: parse_pes_header_status_def Let_def split: if_splits option.splits)
    next
      case True
      with c l6 have off: "ph_payload_offset h = 9 + unat (bs ! 8)"
        by (auto simp: parse_pes_header_status_def Let_def split: if_splits option.splits)
      with inc n n6 l6 h(1) show False
        by (auto simp: parse_pes_header_status_def Let_def split: if_splits option.splits)
    qed
  qed
  from status_append [OF this, of "drop n bs"] c show ?thesis by simp
qed

subsection \<open>Invariant of the assembler\<close>

definition pes_wf :: "pes_assembler \<Rightarrow> bool" where
  "pes_wf s \<longleftrightarrow>
     length (pa_buf s) \<le> MAX_PES_BUFFER_BYTES \<and>
     (pa_pid s = None \<longrightarrow> pa_buf s = [] \<and> pa_expected_len s = None \<and> pa_unbounded_summary s = None) \<and>
     (\<forall>h. pa_next_header s = Some h \<longrightarrow>
        pa_unbounded_summary s \<noteq> None \<and> parse_pes_header_status h = PesIncomplete) \<and>
     (case pa_expected_len s of
        Some e \<Rightarrow> pa_unbounded_summary s = None \<and> length (pa_buf s) < e \<and>
          (\<exists>u. parse_pes_header_status (pa_buf s) = PesComplete u \<and> ph_expected_len u = Some e)
      | None \<Rightarrow>
          (case pa_unbounded_summary s of
             Some u \<Rightarrow> parse_pes_header_status (pa_buf s) = PesComplete u \<and> ph_expected_len u = None
           | None \<Rightarrow> parse_pes_header_status (pa_buf s) = PesIncomplete))"

text \<open>
  A packet that was assembled: its raw bytes carry a complete header whose fields the packet
  repeats, the payload is what follows the header, and a declared length is met exactly.
\<close>

definition pes_packet_ok :: "pes_packet \<Rightarrow> bool" where
  "pes_packet_ok p \<longleftrightarrow>
     (\<exists>h. parse_pes_header_status (pp_raw_bytes p) = PesComplete h \<and>
        pp_stream_id p = ph_stream_id h \<and> pp_pts_90khz p = ph_pts_90khz h \<and>
        pp_dts_90khz p = ph_dts_90khz h \<and> pp_is_pes_private_data p = ph_is_pes_private_data h \<and>
        pp_data_alignment_indicator p = ph_data_alignment_indicator h \<and>
        pp_payload p = drop (ph_payload_offset h) (pp_raw_bytes p) \<and>
        (\<forall>e. ph_expected_len h = Some e \<longrightarrow> length (pp_raw_bytes p) = e) \<and>
        length (pp_raw_bytes p) \<le> MAX_PES_BUFFER_BYTES)"

definition pes_held :: "pes_assembler \<Rightarrow> nat" where
  "pes_held s = length (pa_buf s) + (case pa_next_header s of Some h \<Rightarrow> length h | None \<Rightarrow> 0)"

lemma pes_reset_only_simps [simp]:
  "pa_pid (pes_reset_state_only s) = None" "pa_buf (pes_reset_state_only s) = []"
  "pa_expected_len (pes_reset_state_only s) = None" "pa_unbounded_summary (pes_reset_state_only s) = None"
  "pa_next_header (pes_reset_state_only s) = None"
  by (simp_all add: pes_reset_state_only_def)

lemma pes_reset_drop_simps [simp]:
  "pa_pid (pes_reset_with_drop r s) = None" "pa_buf (pes_reset_with_drop r s) = []"
  "pa_expected_len (pes_reset_with_drop r s) = None" "pa_unbounded_summary (pes_reset_with_drop r s) = None"
  "pa_next_header (pes_reset_with_drop r s) = None"
  by (simp_all add: pes_reset_with_drop_def Let_def)

lemma pes_wf_reset [wf_intros]:
  "pes_wf (pes_reset_with_drop r s)" "pes_wf (pes_reset_state_only s)" "pes_wf pes_assembler_default"
  by (simp_all add: pes_wf_def pes_assembler_default_def)

text \<open>Taking a packet off a buffer whose header is complete.\<close>

lemma pes_take_completed_packet:
  assumes pid: "pa_pid s = Some pid" and c: "parse_pes_header_status (pa_buf s) = PesComplete h"
    and e: "\<And>e. ph_expected_len h = Some e \<Longrightarrow> e \<le> length (pa_buf s)"
    and len: "length (pa_buf s) \<le> MAX_PES_BUFFER_BYTES"
  shows "\<exists>p. pes_take_completed s =
      (Some p, s\<lparr>pa_buf := [], pa_expected_len := None, pa_unbounded_summary := None, pa_pid := None\<rparr>) \<and>
      pp_pid p = pid \<and> pes_packet_ok p \<and>
      pp_raw_bytes p = (case ph_expected_len h of Some e \<Rightarrow> take e (pa_buf s) | None \<Rightarrow> pa_buf s)"
proof -
  define raw where "raw = (case ph_expected_len h of Some e \<Rightarrow> take e (pa_buf s) | None \<Rightarrow> pa_buf s)"
  have raw: "parse_pes_header_status raw = PesComplete h"
    using c status_complete(4) [OF c] by (auto simp: raw_def status_take split: option.split)
  note h = status_complete [OF raw]
  have "starts_with raw [0, 0, 1]" using h(2) by (simp add: starts_with_def numeral_3_eq_3)
  moreover have "min (ph_payload_offset h) (length raw) = ph_payload_offset h" using h(1) by simp
  moreover have "parse_pes_header_summary (pa_buf s) = Some h" using c by (simp add: parse_pes_header_summary_def)
  moreover have "\<not> (case ph_expected_len h of Some e \<Rightarrow> length (pa_buf s) < e | None \<Rightarrow> False)"
    using e by (auto split: option.split)
  ultimately have "pes_take_completed s =
      (Some \<lparr>pp_pid = pid, pp_stream_id = ph_stream_id h, pp_pts_90khz = ph_pts_90khz h,
             pp_dts_90khz = ph_dts_90khz h, pp_is_pes_private_data = ph_is_pes_private_data h,
             pp_data_alignment_indicator = ph_data_alignment_indicator h,
             pp_raw_bytes = raw, pp_payload = drop (ph_payload_offset h) raw\<rparr>,
       s\<lparr>pa_buf := [], pa_expected_len := None, pa_unbounded_summary := None, pa_pid := None\<rparr>)"
    using pid by (simp add: pes_take_completed_def raw_def [symmetric])
  moreover have "length raw \<le> MAX_PES_BUFFER_BYTES \<and> (\<forall>e. ph_expected_len h = Some e \<longrightarrow> length raw = e)"
    using e len by (auto simp: raw_def split: option.split)
  ultimately show ?thesis using raw by (auto simp: pes_packet_ok_def raw_def [symmetric])
qed

text \<open>The checks at the end of \<open>push\<close>, on any buffer whose header state is consistent.\<close>

definition finish_pre :: "pes_assembler \<Rightarrow> bool" where
  "finish_pre s \<longleftrightarrow> pa_pid s \<noteq> None \<and> pa_next_header s = None \<and>
     (case pa_expected_len s of
        Some e \<Rightarrow> pa_unbounded_summary s = None \<and>
          (\<exists>u. parse_pes_header_status (pa_buf s) = PesComplete u \<and> ph_expected_len u = Some e)
      | None \<Rightarrow> parse_pes_header_status (pa_buf s) = PesIncomplete \<longrightarrow> pa_unbounded_summary s = None)"

lemma pes_push_finish_wf:
  assumes "finish_pre s"
  shows "pes_wf (snd (pes_push_finish out s)) \<and>
    (\<exists>ps. fst (pes_push_finish out s) = out @ ps \<and> (\<forall>p \<in> set ps. pes_packet_ok p))"
proof -
  have bounded: "pes_wf (snd (pes_push_finish out s)) \<and>
      (\<exists>ps. fst (pes_push_finish out s) = out @ ps \<and> (\<forall>p \<in> set ps. pes_packet_ok p))"
    if s1: "pes_push_finish out s =
        (if MAX_PES_BUFFER_BYTES < length (pa_buf s) then (out, pes_reset_with_drop OversizedPes s1)
         else if e \<le> length (pa_buf s) then
           (case pes_take_completed s1 of (Some p, s2) \<Rightarrow> (out @ [p], s2) | (None, s2) \<Rightarrow> (out, s2))
         else (out, s1))"
      and c: "parse_pes_header_status (pa_buf s) = PesComplete u" "ph_expected_len u = Some e"
      and eq: "pa_buf s1 = pa_buf s" "pa_pid s1 = pa_pid s" "pa_next_header s1 = None"
        "pa_expected_len s1 = Some e" "pa_unbounded_summary s1 = None" for s1 u e
  proof (cases "e \<le> length (pa_buf s) \<and> length (pa_buf s) \<le> MAX_PES_BUFFER_BYTES")
    case True
    from assms obtain pid where pid: "pa_pid s1 = Some pid" by (auto simp: finish_pre_def eq)
    obtain p where p: "pes_take_completed s1 =
        (Some p, s1\<lparr>pa_buf := [], pa_expected_len := None, pa_unbounded_summary := None, pa_pid := None\<rparr>)"
      "pes_packet_ok p"
      using pes_take_completed_packet [OF pid, of u] c eq True by auto
    with True s1 eq show ?thesis by (auto simp: pes_wf_def)
  next
    case False
    with s1 c eq assms show ?thesis
      by (auto simp: pes_wf_def finish_pre_def intro: pes_wf_reset)
  qed
  show ?thesis
  proof (cases "pa_expected_len s")
    case (Some e)
    with assms obtain u where u: "parse_pes_header_status (pa_buf s) = PesComplete u"
      "ph_expected_len u = Some e" "pa_unbounded_summary s = None" "pa_next_header s = None"
      by (auto simp: finish_pre_def)
    show ?thesis
      by (rule bounded [OF _ u(1,2), of s]) (use Some u in \<open>simp_all add: pes_push_finish_def Let_def\<close>)
  next
    case None
    show ?thesis
    proof (cases "parse_pes_header_status (pa_buf s)")
      case PesIncomplete
      with None assms show ?thesis
        by (auto simp: pes_push_finish_def finish_pre_def pes_wf_def)
    next
      case PesMalformed
      with None show ?thesis by (simp add: pes_push_finish_def pes_wf_reset)
    next
      case (PesComplete u)
      show ?thesis
      proof (cases "ph_expected_len u")
        case None
        with PesComplete \<open>pa_expected_len s = None\<close> assms show ?thesis
          by (auto simp: pes_push_finish_def finish_pre_def Let_def pes_wf_def)
      next
        case (Some e)
        show ?thesis
          by (rule bounded [OF _ PesComplete Some,
                of "s\<lparr>pa_expected_len := Some e, pa_unbounded_summary := None\<rparr>"])
            (use Some PesComplete None assms in
              \<open>simp_all add: pes_push_finish_def Let_def finish_pre_def\<close>)
      qed
    qed
  qed
qed

lemma pes_wf_start:
  assumes "pes_wf s"
  shows "pes_wf (pes_push_start pid s)" and "pa_pid (pes_push_start pid s) = Some pid"
  using assms by (auto simp: pes_push_start_def pes_wf_def split: option.splits)

lemma finish_pre_append:
  assumes "pes_wf s" and "pa_pid s \<noteq> None" and "pa_next_header s = None"
  shows "finish_pre (s\<lparr>pa_buf := pa_buf s @ payload\<rparr>)"
proof (cases "pa_expected_len s")
  case (Some e)
  with assms show ?thesis by (auto simp: pes_wf_def finish_pre_def status_append)
next
  case None
  show ?thesis
  proof (cases "pa_unbounded_summary s")
    case (Some u)
    with None assms have "parse_pes_header_status (pa_buf s @ payload) = PesComplete u"
      by (simp add: pes_wf_def status_append)
    with None assms show ?thesis by (simp add: finish_pre_def)
  qed (use None assms in \<open>simp add: finish_pre_def\<close>)
qed

lemma pes_push_wf_ok:
  assumes "pes_wf s"
  shows "pes_wf (snd (pes_push pid pusi payload s)) \<and>
    (\<forall>p \<in> set (fst (pes_push pid pusi payload s)). pes_packet_ok p)"
proof (cases "\<not> pusi \<and> pa_pid s \<noteq> Some pid")
  case True
  then show ?thesis by (simp add: pes_push_def pes_wf_reset)
next
  case False
  define s1 where "s1 = (if pusi then pes_push_start pid s else s)"
  have wf: "pes_wf s1" and pid: "pa_pid s1 = Some pid"
    using False assms pes_wf_start [OF assms] by (auto simp: s1_def)
  show ?thesis
  proof (cases "pa_next_header s1")
    case None
    with wf pid have "finish_pre (s1\<lparr>pa_buf := pa_buf s1 @ payload\<rparr>)"
      by (intro finish_pre_append) simp_all
    from pes_push_finish_wf [OF this, of "[]"] None False show ?thesis
      by (auto simp: pes_push_def s1_def Let_def)
  next
    case (Some header0)
    define s2 where "s2 = s1\<lparr>pa_next_header := None\<rparr>"
    define copied where "copied = min (264 - length header0) (length payload)"
    define header where "header = header0 @ take copied payload"
    from wf Some obtain u where u: "pa_unbounded_summary s1 = Some u" "pa_expected_len s1 = None"
      "parse_pes_header_status (pa_buf s1) = PesComplete u" "ph_expected_len u = None"
      "length (pa_buf s1) \<le> MAX_PES_BUFFER_BYTES"
      by (cases "pa_expected_len s1") (auto simp: pes_wf_def)
    have push: "pes_push pid pusi payload s =
      (case parse_pes_header_status header of
         PesIncomplete \<Rightarrow> ([], s2\<lparr>pa_next_header := Some header\<rparr>)
       | PesMalformed \<Rightarrow> ([], pes_reset_with_drop MalformedPes s2)
       | PesComplete _ \<Rightarrow>
           (case pes_take_completed s2 of (packet, s3) \<Rightarrow>
              pes_push_finish (case packet of Some p \<Rightarrow> [p] | None \<Rightarrow> [])
                (s3\<lparr>pa_pid := Some pid, pa_buf := header @ drop copied payload\<rparr>)))"
      unfolding pes_push_def Let_def s1_def [symmetric] s2_def header_def copied_def
      using Some False by auto
    show ?thesis
    proof (cases "parse_pes_header_status header")
      case PesIncomplete
      with push wf u pid show ?thesis by (auto simp: pes_wf_def s2_def)
    next
      case PesMalformed
      with push show ?thesis by (simp add: pes_wf_reset)
    next
      case (PesComplete h)
      obtain p where p: "pes_take_completed s2 =
          (Some p, s2\<lparr>pa_buf := [], pa_expected_len := None, pa_unbounded_summary := None, pa_pid := None\<rparr>)"
        "pes_packet_ok p"
        using pes_take_completed_packet [of s2 pid u] pid u by (auto simp: s2_def)
      let ?s3 = "s2\<lparr>pa_expected_len := None, pa_unbounded_summary := None, pa_pid := Some pid,
         pa_buf := header @ drop copied payload\<rparr>"
      have "finish_pre ?s3" by (simp add: finish_pre_def s2_def)
      from pes_push_finish_wf [OF this, of "[p]"] obtain ps
        where "pes_wf (snd (pes_push_finish [p] ?s3))" "fst (pes_push_finish [p] ?s3) = [p] @ ps"
          "\<forall>p \<in> set ps. pes_packet_ok p" by blast
      moreover have "pes_push pid pusi payload s = pes_push_finish [p] ?s3"
        using push PesComplete p by simp
      ultimately show ?thesis using p(2) by simp
    qed
  qed
qed

lemma pes_wf_held: "pes_wf s \<Longrightarrow> pes_held s \<le> MAX_PES_BUFFER_BYTES + 263"
proof -
  assume wf: "pes_wf s"
  have "length h \<le> 263" if "pa_next_header s = Some h" for h
    using wf that status_decided [of h] by (cases "264 \<le> length h") (auto simp: pes_wf_def)
  with wf show ?thesis by (auto simp: pes_wf_def pes_held_def split: option.split)
qed

interpretation pes: payload_assembler pes_assembler_default "pes_push pid" pes_wf pes_packet_ok
    pes_held "MAX_PES_BUFFER_BYTES + 263"
  for pid
proof unfold_locales
  show "pes_wf pes_assembler_default" by (rule pes_wf_reset)
  show "pes_wf (snd (pes_push pid pusi payload s))" if "pes_wf s" for s pusi payload
    using pes_push_wf_ok [OF that] by blast
  show "pes_packet_ok p" if "pes_wf s" "p \<in> set (fst (pes_push pid pusi payload s))" for s p pusi payload
    using pes_push_wf_ok [OF that(1)] that(2) by blast
qed (rule pes_wf_held)

subsection \<open>Reassembly\<close>

text \<open>
  The state while a PES packet with header \<open>h\<close> arrives: the bytes so far are in the buffer
  and the header fields are set as soon as the header is complete.
\<close>

definition pes_acc :: "packet_pid \<Rightarrow> pes_header_summary \<Rightarrow> bytes \<Rightarrow> pes_assembler \<Rightarrow> bool" where
  "pes_acc pid h b s \<longleftrightarrow>
     pa_pid s = Some pid \<and> pa_buf s = b \<and> pa_next_header s = None \<and>
     pa_expected_len s = (if parse_pes_header_status b = PesIncomplete then None else ph_expected_len h) \<and>
     pa_unbounded_summary s =
       (if parse_pes_header_status b = PesIncomplete \<or> ph_expected_len h \<noteq> None then None else Some h)"

lemma status_prefix:
  assumes "parse_pes_header_status (b @ r) = PesComplete h" and "parse_pes_header_status b \<noteq> PesIncomplete"
  shows "parse_pes_header_status b = PesComplete h"
  using status_append [OF assms(2), of r] assms(1) by simp

lemma pes_acc_push:
  assumes p: "parse_pes_header_status ((b @ x) @ r) = PesComplete h"
    and len: "length (b @ x) \<le> MAX_PES_BUFFER_BYTES"
    and short: "\<And>e. ph_expected_len h = Some e \<Longrightarrow> length (b @ x) < e"
    and acc: "pes_acc pid h b s"
  shows "\<exists>s'. pes_push pid False x s = ([], s') \<and> pes_acc pid h (b @ x) s'"
proof -
  let ?t = "s\<lparr>pa_buf := b @ x\<rparr>"
  have push: "pes_push pid False x s = pes_push_finish [] ?t"
    using acc by (simp add: pes_push_def pes_acc_def)
  show ?thesis
  proof (cases "parse_pes_header_status (b @ x)")
    case PesIncomplete
    then have "parse_pes_header_status b = PesIncomplete"
      using status_append [of b x] by fastforce
    with PesIncomplete acc len push show ?thesis
      by (auto simp: pes_push_finish_def pes_acc_def Let_def)
  next
    case PesMalformed
    with status_prefix [OF p] show ?thesis by simp
  next
    case (PesComplete h')
    with status_prefix [OF p] have c: "parse_pes_header_status (b @ x) = PesComplete h" by simp
    show ?thesis
    proof (cases "ph_expected_len h")
      case None
      with c acc len push show ?thesis
        by (auto simp: pes_push_finish_def pes_acc_def Let_def)
    next
      case (Some e)
      with c acc len push short [OF Some] show ?thesis
        by (auto simp: pes_push_finish_def pes_acc_def Let_def)
    qed
  qed
qed

text \<open>The first payload of a unit, on an assembler with no open-ended packet.\<close>

lemma pes_start_acc:
  assumes "pa_unbounded_summary s = None"
  shows "pes_push pid True x s =
    pes_push pid False x ((pes_reset_state_only s)\<lparr>pa_pid := Some pid\<rparr>)"
    and "pes_acc pid h [] ((pes_reset_state_only s)\<lparr>pa_pid := Some pid\<rparr>)"
  using assms by (simp_all add: pes_push_def pes_push_start_def pes_acc_def)

lemma pes_acc_run:
  assumes p: "parse_pes_header_status (concat fs @ r) = PesComplete h" and "fs \<noteq> []"
    and len: "length (concat fs) \<le> MAX_PES_BUFFER_BYTES"
    and short: "\<And>e. ph_expected_len h = Some e \<Longrightarrow> length (concat fs) < e"
    and s: "pa_unbounded_summary s = None"
  shows "\<exists>s'. run_payloads (pes_push pid) (unit_payloads fs) s = ([], s') \<and> pes_acc pid h (concat fs) s'"
  using \<open>fs \<noteq> []\<close> p len short
proof (induction fs arbitrary: r rule: rev_induct)
  case (snoc f fs)
  show ?case
  proof (cases "fs = []")
    case True
    with snoc.prems pes_acc_push [of "[]" f r h pid, OF _ _ _ pes_start_acc(2) [OF s]] show ?thesis
      by (auto simp: unit_payloads_def pes_start_acc(1) [OF s])
  next
    case False
    with snoc.IH [of "f @ r"] snoc.prems obtain s1
      where s1: "run_payloads (pes_push pid) (unit_payloads fs) s = ([], s1)" "pes_acc pid h (concat fs) s1"
      by fastforce
    with pes_acc_push [of "concat fs" f r h pid s1] snoc.prems obtain s2
      where "pes_push pid False f s1 = ([], s2)" "pes_acc pid h (concat fs @ f) s2" by auto
    with s1 False show ?thesis by (simp add: unit_payloads_snoc run_payloads_append)
  qed
qed simp

text \<open>The payload that completes a packet of declared length; what follows it is stuffing.\<close>

lemma pes_acc_complete:
  assumes p: "parse_pes_header_status (b @ l) = PesComplete h" and e: "ph_expected_len h = Some (length (b @ l))"
    and len: "length (b @ l @ stuff) \<le> MAX_PES_BUFFER_BYTES"
    and acc: "pes_acc pid h b s"
  shows "\<exists>pkt s'. pes_push pid False (l @ stuff) s = ([pkt], s') \<and> pp_raw_bytes pkt = b @ l \<and>
    pes_packet_ok pkt \<and> pp_pid pkt = pid \<and> pa_pid s' = None"
proof -
  let ?t = "s\<lparr>pa_buf := b @ l @ stuff\<rparr>"
  let ?u = "?t\<lparr>pa_expected_len := Some (length (b @ l)), pa_unbounded_summary := None\<rparr>"
  have c: "parse_pes_header_status (b @ l @ stuff) = PesComplete h"
    using status_append [of "b @ l" stuff] p by simp
  have "pes_push pid False (l @ stuff) s = pes_push_finish [] ?t"
    using acc by (simp add: pes_push_def pes_acc_def)
  also have "\<dots> = (case pes_take_completed ?u of (Some q, s2) \<Rightarrow> ([] @ [q], s2) | (None, s2) \<Rightarrow> ([], s2))"
  proof (cases "parse_pes_header_status b = PesIncomplete")
    case True
    with acc c e len show ?thesis by (simp add: pes_push_finish_def pes_acc_def Let_def)
  next
    case False
    then have "pa_expected_len s = Some (length (b @ l))" "pa_unbounded_summary s = None"
      using acc e by (simp_all add: pes_acc_def)
    then have "?t = ?u" by simp
    with \<open>pa_expected_len s = _\<close> len show ?thesis by (simp add: pes_push_finish_def Let_def)
  qed
  finally have push: "pes_push pid False (l @ stuff) s =
    (case pes_take_completed ?u of (Some q, s2) \<Rightarrow> ([] @ [q], s2) | (None, s2) \<Rightarrow> ([], s2))" .
  have "pa_pid ?u = Some pid" using acc by (simp add: pes_acc_def)
  from pes_take_completed_packet [OF this, of h] c e len push show ?thesis by auto
qed

text \<open>The payload unit start that closes a packet of undeclared length.\<close>

lemma pes_acc_next:
  assumes acc: "pes_acc pid h b s" and c: "parse_pes_header_status b = PesComplete h"
    and e: "ph_expected_len h = None" and len: "length b \<le> MAX_PES_BUFFER_BYTES"
    and nxt: "parse_pes_header_status (take 264 nxt) = PesComplete h2"
  shows "\<exists>pkt rest s'. pes_push pid True nxt s = (pkt # rest, s') \<and> pp_raw_bytes pkt = b \<and>
    pes_packet_ok pkt \<and> pp_pid pkt = pid"
proof -
  let ?t = "s\<lparr>pa_next_header := None\<rparr>"
  have s: "pa_pid s = Some pid" "pa_buf s = b" "pa_next_header s = None" "pa_unbounded_summary s = Some h"
    using acc c e by (simp_all add: pes_acc_def)
  obtain p where p: "pes_take_completed ?t =
      (Some p, ?t\<lparr>pa_buf := [], pa_expected_len := None, pa_unbounded_summary := None, pa_pid := None\<rparr>)"
    "pp_pid p = pid" "pes_packet_ok p" "pp_raw_bytes p = b"
    using pes_take_completed_packet [of ?t pid h] s c e len by auto
  let ?u = "s\<lparr>pa_next_header := None, pa_expected_len := None, pa_unbounded_summary := None,
     pa_pid := Some pid, pa_buf := nxt\<rparr>"
  have m: "take (min 264 (length nxt)) nxt = take 264 nxt" by (simp add: min_def)
  have "take 264 nxt @ drop (min 264 (length nxt)) nxt = nxt" by (simp add: min_def)
  then have push: "pes_push pid True nxt s = pes_push_finish [p] ?u"
    using s p nxt m by (simp add: pes_push_def pes_push_start_def Let_def)
  have "finish_pre ?u" by (simp add: finish_pre_def)
  from pes_push_finish_wf [OF this, of "[p]"] obtain ps where "fst (pes_push_finish [p] ?u) = [p] @ ps" by blast
  with push p show ?thesis by (cases "pes_push_finish [p] ?u") auto
qed

text \<open>
  C15. A PES packet with a declared length is reassembled exactly from any split into TS
  payloads, when it fits the buffer with its stuffing and no packet without declared length is waiting
  to be reported: nothing is returned before its last byte, then one packet whose raw bytes are the
  packet sent and whose fields are those of its header; stuffing after it is cut off.
\<close>

theorem pes_bounded_reassembly:
  assumes "parse_pes_header_status p = PesComplete h" and "ph_expected_len h = Some (length p)"
    and "p = concat fs @ l" and "l \<noteq> []" and "length (p @ stuff) \<le> MAX_PES_BUFFER_BYTES"
    and "pa_unbounded_summary s = None"
  shows "\<exists>pkt s'. run_payloads (pes_push pid) (unit_payloads (fs @ [l @ stuff])) s = ([pkt], s') \<and>
    pp_raw_bytes pkt = p \<and> pes_packet_ok pkt \<and> pp_pid pkt = pid \<and> pa_pid s' = None"
proof (cases "fs = []")
  case True
  with assms pes_acc_complete [of "[]" l h stuff pid, OF _ _ _ pes_start_acc(2) [OF assms(6)]] show ?thesis
    by (auto simp: unit_payloads_def pes_start_acc(1) [OF assms(6)])
next
  case False
  from pes_acc_run [of fs l h s pid] assms False obtain s1
    where s1: "run_payloads (pes_push pid) (unit_payloads fs) s = ([], s1)" "pes_acc pid h (concat fs) s1"
    by auto
  from pes_acc_complete [of "concat fs" l h stuff pid s1] assms s1 obtain pkt s2
    where "pes_push pid False (l @ stuff) s1 = ([pkt], s2)" "pp_raw_bytes pkt = p" "pes_packet_ok pkt"
      "pp_pid pkt = pid" "pa_pid s2 = None" by auto
  with s1 False show ?thesis by (simp add: unit_payloads_snoc run_payloads_append)
qed

definition sample_pes :: bytes where
  "sample_pes = [0, 0, 1, 0xc0, 0, 5, 0x80, 0, 0, 0xaa, 0xbb]"

lemmas pes_header_eval = parse_pes_header_status_def be16_def pes_stream_has_optional_header_def
  pes_timestamps_def pes_private_data_presence_def advance_optional_field_def checked_add_usize_def
  USIZE_MAX_def slice_def numeral_3_eq_3

lemma sample_pes_status:
  "parse_pes_header_status sample_pes = PesComplete \<lparr>ph_stream_id = 0xc0, ph_payload_offset = 9,
     ph_pts_90khz = None, ph_dts_90khz = None, ph_is_pes_private_data = False,
     ph_data_alignment_indicator = False, ph_expected_len = Some 11\<rparr>"
  by (simp add: sample_pes_def pes_header_eval)

lemma sample_pes_take:
  "parse_pes_header_status (take 264 sample_pes) = PesComplete \<lparr>ph_stream_id = 0xc0, ph_payload_offset = 9,
     ph_pts_90khz = None, ph_dts_90khz = None, ph_is_pes_private_data = False,
     ph_data_alignment_indicator = False, ph_expected_len = Some 11\<rparr>"
  using sample_pes_status by (simp add: sample_pes_def)

theorem pes_bounded_reassembly_witness:
  "\<exists>pkt s'. run_payloads (pes_push (PacketPid (TransportStreamPid 0x100)))
      (unit_payloads ([[0, 0, 1, 0xc0, 0], [5, 0x80, 0, 0]] @ [[0xaa, 0xbb] @ [0xff]])) pes_assembler_default =
        ([pkt], s') \<and> pp_raw_bytes pkt = sample_pes \<and> pes_packet_ok pkt \<and>
      pp_pid pkt = PacketPid (TransportStreamPid 0x100) \<and> pa_pid s' = None"
  by (rule pes_bounded_reassembly [OF sample_pes_status])
    (simp_all add: sample_pes_def MAX_PES_BUFFER_BYTES_def pes_assembler_default_def)

subsection \<open>Time stamps\<close>

text \<open>The 33-bit time stamp field of a PES header as an encoder writes it (ISO/IEC 13818-1).\<close>

definition pts_field :: "u8 \<Rightarrow> u64 \<Rightarrow> bytes" where
  "pts_field prefix v =
     [push_bit 4 prefix OR push_bit 1 (ucast (drop_bit 30 v) AND 7) OR 1,
      ucast (drop_bit 22 v),
      push_bit 1 (ucast (drop_bit 15 v)) OR 1,
      ucast (drop_bit 7 v),
      push_bit 1 (ucast v) OR 1]"

lemma and_1_bit: "(x :: u8) AND 1 = 0 \<longleftrightarrow> \<not> bit x 0"
  by (simp add: bit_0 and_one_eq even_iff_mod_2_eq_zero)

lemma bit_take_bound: "take_bit n v = v \<Longrightarrow> bit v k \<Longrightarrow> k < n"
  by (metis bit_take_bit_iff)


lemmas bit_calc = bit_or_iff bit_push_bit_iff bit_drop_bit_eq bit_unsigned_iff bit_take_bit_iff and_mask_lits
  bit_1_iff

lemma pts_bits:
  fixes a b c d e :: u8
  shows "bit (push_bit 30 (ucast (drop_bit 1 a) AND 7) OR push_bit 22 (ucast b) OR
       push_bit 15 (ucast (drop_bit 1 c)) OR push_bit 7 (ucast d) OR (ucast (drop_bit 1 e) :: u64)) n \<longleftrightarrow>
     (if n < 7 then bit e (n + 1)
      else if n < 15 then bit d (n - 7)
      else if n < 22 then bit c (Suc (n - 15))
      else if n < 30 then bit b (n - 22)
      else n < 33 \<and> bit a (Suc (n - 30)))"
proof -
  have s: "\<And>x k. \<not> k < 8 \<Longrightarrow> \<not> bit (x :: u8) k" by (auto dest: bit_imp_le_length)
  consider "n < 7" | "7 \<le> n" "n < 15" | "15 \<le> n" "n < 22" | "22 \<le> n" "n < 30" | "30 \<le> n" "n < 33" | "33 \<le> n" 
    by linarith
  then show ?thesis
    by cases (auto simp: bit_calc s simp del: drop_bit_Suc push_bit_Suc)
qed
lemma pts_field_nths:
  assumes "take_bit 4 prefix = prefix" and "n < 8"
  shows "bit (pts_field prefix v ! 0) n = (if n = 0 then True else if n < 4 then bit v (29 + n) else bit prefix (n - 4))"
   "bit (pts_field prefix v ! Suc 0) n = bit v (22 + n)"
   "bit (pts_field prefix v ! 2) n = (n = 0 \<or> bit v (14 + n))"
   "bit (pts_field prefix v ! 3) n = bit v (7 + n)"
   "bit (pts_field prefix v ! 4) n = (n = 0 \<or> bit v (n - 1))"
  using assms(2) bit_take_bound [OF assms(1)] 
  by (auto simp: pts_field_def bit_calc  simp del: drop_bit_Suc push_bit_Suc) 
lemma pts_bits_bound:
  fixes a b c d e :: u8
  shows "push_bit 30 (ucast (drop_bit 1 a) AND 7) OR push_bit 22 (ucast b) OR
       push_bit 15 (ucast (drop_bit 1 c)) OR push_bit 7 (ucast d) OR (ucast (drop_bit 1 e) :: u64) < 2 ^ 33"
    (is "?v < _")
proof -
  have "take_bit 33 ?v = ?v"
    by (rule bit_word_eqI) (simp only: bit_take_bit_iff pts_bits, auto)
  then have "?v = ?v AND mask 33" by (simp only: take_bit_eq_mask)
  then have "?v \<le> mask 33" using word_and_le1 by metis
  then show ?thesis by (rule le_less_trans) (simp add: mask_eq_exp_minus_1)
qed

lemma pts_value_bound:
  "pts_dts_field_value f prefix = Some v \<Longrightarrow> v < 2 ^ 33"
  unfolding pts_dts_field_value_def by (metis option.distinct(1) option.inject pts_bits_bound)

text \<open>
  Every 33-bit time stamp survives the encoding of a PES header: the reader of PTS and DTS
  fields returns the stamp that the field was written from.
\<close>

lemma pts_field_roundtrip:
  assumes "take_bit 4 prefix = prefix" and "take_bit 33 v = v"
  shows "pts_dts_field_value (pts_field prefix v) prefix = Some v"
proof -
  let ?f = "pts_field prefix v"
  have "length ?f = 5" by (simp add: pts_field_def)
  moreover have "?f ! 0 AND 1 \<noteq> 0" "?f ! 2 AND 1 \<noteq> 0" "?f ! 4 AND 1 \<noteq> 0"
    by (simp_all add: and_1_bit pts_field_nths [OF assms(1)])
  moreover have "drop_bit 4 (?f ! 0) = prefix"
  proof (rule bit_word_eqI)
    fix n
    show "bit (drop_bit 4 (?f ! 0)) n = bit prefix n"
      using bit_take_bound [OF assms(1), of n] bit_imp_le_length [of "?f ! 0" "4 + n"]
      by (cases "n < 4") (auto simp: pts_field_nths(1) [OF assms(1)] bit_drop_bit_eq)
  qed
  moreover have "push_bit 30 (ucast (drop_bit 1 (?f ! 0)) AND 7) OR push_bit 22 (ucast (?f ! 1)) OR
       push_bit 15 (ucast (drop_bit 1 (?f ! 2))) OR push_bit 7 (ucast (?f ! 3)) OR ucast (drop_bit 1 (?f ! 4)) = v"
  proof (rule bit_word_eqI)
    fix n
    show "bit (push_bit 30 (ucast (drop_bit 1 (?f ! 0)) AND 7) OR push_bit 22 (ucast (?f ! 1)) OR
       push_bit 15 (ucast (drop_bit 1 (?f ! 2))) OR push_bit 7 (ucast (?f ! 3)) OR
       (ucast (drop_bit 1 (?f ! 4)) :: u64)) n = bit v n"
      using bit_take_bound [OF assms(2), of n] by (simp only: pts_bits) (auto simp: pts_field_nths [OF assms(1)] split: if_splits)
  qed
  ultimately show ?thesis
    by (simp add: pts_dts_field_value_def)
qed

theorem pts_field_roundtrip_witness:
  "pts_dts_field_value (pts_field 2 0x123456789) 2 = Some 0x123456789"
  by (rule pts_field_roundtrip) simp_all

lemma pes_timestamps_bound:
  assumes "pes_timestamps f bs = Some (pts, dts)"
  shows "pred_option (\<lambda>t. t < 2 ^ 33) pts" and "pred_option (\<lambda>t. t < 2 ^ 33) dts"
  using assms pts_value_bound
  by (auto simp: pes_timestamps_def bind_eq_Some_conv split: if_splits)

lemma status_stamps:
  assumes "parse_pes_header_status bs = PesComplete h"
  shows "pred_option (\<lambda>t. t < 2 ^ 33) (ph_pts_90khz h)" and "pred_option (\<lambda>t. t < 2 ^ 33) (ph_dts_90khz h)"
  using assms pes_timestamps_bound
  by (auto simp: parse_pes_header_status_def Let_def split: if_splits option.splits prod.splits)

text \<open>
  A header that is read once is read for good: as soon as the parser has an answer, bytes
  that arrive later do not change it, an answer is there after 264 bytes at the latest, and
  the time stamps of a complete header are 33-bit values.
\<close>

lemma pes_header_streaming:
  assumes "parse_pes_header_status bs \<noteq> PesIncomplete \<or> 264 \<le> length bs"
  shows "parse_pes_header_status bs \<noteq> PesIncomplete \<and>
    parse_pes_header_status (bs @ ms) = parse_pes_header_status bs \<and>
    (case parse_pes_header_status bs of
       PesComplete h \<Rightarrow> pred_option (\<lambda>t. t < 2 ^ 33) (ph_pts_90khz h) \<and>
         pred_option (\<lambda>t. t < 2 ^ 33) (ph_dts_90khz h) \<and> ph_payload_offset h \<le> length bs
     | _ \<Rightarrow> True)"
  using assms status_decided [of bs] status_append [of bs ms] status_complete(1) [of bs] status_stamps [of bs]
  by (auto split: pes_header_parse_status.split)

theorem pes_header_streaming_witness:
  "parse_pes_header_status (sample_pes @ [1, 2, 3]) = parse_pes_header_status sample_pes"
  using pes_header_streaming [of sample_pes "[1, 2, 3]"] sample_pes_status by simp

text \<open>
  Memory of the assembler: after any sequence of TS payloads of a PID it holds at most the
  PES limit plus one pending header, and every packet it returned is a complete PES packet
  whose fields and payload are those of its raw bytes.
\<close>

lemma pes_assembler_run:
  "pes_held (snd (run_payloads (pes_push pid) xs pes_assembler_default)) \<le> MAX_PES_BUFFER_BYTES + 263 \<and>
   list_all pes_packet_ok (fst (run_payloads (pes_push pid) xs pes_assembler_default))"
  using pes.run_from_init [of pid xs] by (auto simp: list_all_iff)

text \<open>
  A packet of undeclared length (video only) is closed by the next packet of its PID: the
  payloads of the first give nothing, and the start of the next returns exactly their bytes.
\<close>

lemma pes_unbounded_reassembly:
  assumes "parse_pes_header_status (concat fs) = PesComplete h" and "ph_expected_len h = None"
    and "fs \<noteq> []" and "length (concat fs) \<le> MAX_PES_BUFFER_BYTES"
    and "pa_unbounded_summary s = None" and "parse_pes_header_status (take 264 nxt) = PesComplete h2"
  shows "\<exists>pkt rest s'. run_payloads (pes_push pid) (unit_payloads fs @ [(True, nxt)]) s = (pkt # rest, s') \<and>
    pp_raw_bytes pkt = concat fs \<and> pes_packet_ok pkt \<and> pp_pid pkt = pid"
proof -
  from pes_acc_run [of fs "[]" h s pid] assms obtain s1
    where s1: "run_payloads (pes_push pid) (unit_payloads fs) s = ([], s1)" "pes_acc pid h (concat fs) s1"
    by auto
  from pes_acc_next [OF s1(2) assms(1,2,4,6)] obtain pkt rest s2
    where "pes_push pid True nxt s1 = (pkt # rest, s2)" "pp_raw_bytes pkt = concat fs"
      "pes_packet_ok pkt" "pp_pid pkt = pid" by auto
  with s1 show ?thesis by (simp add: run_payloads_append)
qed

theorem pes_unbounded_reassembly_witness:
  "\<exists>pkt rest s'. run_payloads (pes_push (PacketPid (TransportStreamPid 0x100)))
      (unit_payloads [[0, 0, 1, 0xe0, 0, 0, 0x80], [0, 0, 0xaa]] @ [(True, sample_pes)]) pes_assembler_default =
        (pkt # rest, s') \<and> pp_raw_bytes pkt = concat [[0, 0, 1, 0xe0, 0, 0, 0x80], [0, 0, 0xaa]] \<and>
      pes_packet_ok pkt \<and> pp_pid pkt = PacketPid (TransportStreamPid 0x100)"
  by (rule pes_unbounded_reassembly [where h = "\<lparr>ph_stream_id = 0xe0, ph_payload_offset = 9,
     ph_pts_90khz = None, ph_dts_90khz = None, ph_is_pes_private_data = False,
     ph_data_alignment_indicator = False, ph_expected_len = None\<rparr>", OF _ _ _ _ _ sample_pes_take])
    (simp_all add: MAX_PES_BUFFER_BYTES_def pes_assembler_default_def pes_header_eval)

subsection \<open>Loss detection\<close>

text \<open>Packets of one PID with payload, in the order they arrive.\<close>

fun observe_run ::
  "packet_pid \<Rightarrow> (u8 \<times> bytes) list \<Rightarrow> continuity_tracker \<Rightarrow> continuity_outcome list \<times> continuity_tracker" where
  "observe_run pid [] t = ([], t)"
| "observe_run pid ((cc, packet) # rest) t =
     (case continuity_observe pid cc True packet t of
        (outcome, t1) \<Rightarrow> (case observe_run pid rest t1 of (outcomes, t2) \<Rightarrow> (outcome # outcomes, t2)))"

text \<open>The counter of the \<open>n\<close>th packet a multiplexer sends on a PID, and a gap-free run of packets.\<close>

definition sent_counter :: "nat \<Rightarrow> u8" where
  "sent_counter n = of_nat (n mod 16)"

fun sent_run :: "nat \<Rightarrow> bytes list \<Rightarrow> (u8 \<times> bytes) list" where
  "sent_run n [] = []"
| "sent_run n (p # ps) = (sent_counter n, p) # sent_run (Suc n) ps"

lemma sent_counter_unat: "unat (sent_counter n) = n mod 16"
  using mod_less_divisor [of 16 n] by (simp add: sent_counter_def unat_of_nat)

lemma sent_counter_eq: "sent_counter m = sent_counter n \<longleftrightarrow> m mod 16 = n mod 16"
  by (metis sent_counter_unat word_unat_eq_iff)

lemma sent_counter_Suc: "(sent_counter n + 1) AND 15 = sent_counter (Suc n)"
proof -
  have "unat (sent_counter n + 1) = Suc (n mod 16)"
    using mod_less_divisor [of 16 n] sent_counter_unat [of n]
    by (simp add: unat_word_ariths)
  then have "unat ((sent_counter n + 1) AND 15) = Suc (n mod 16) mod 16"
    by (simp add: unat_mod and_mask_lits take_bit_eq_mod)
  then show ?thesis by (simp add: word_unat_eq_iff sent_counter_unat mod_Suc_eq)
qed

lemma observe_run_append:
  "observe_run pid (xs @ ys) t =
     (case observe_run pid xs t of (os, t1) \<Rightarrow>
        case observe_run pid ys t1 of (os', t2) \<Rightarrow> (os @ os', t2))"
  by (induction xs arbitrary: t) (auto split: prod.splits)

lemma observe_next:
  assumes "t pid = Some \<lparr>last_counter = Some (sent_counter n), last_packet = Some p\<rparr>" and "k < 15"
  shows "continuity_observe pid (sent_counter (n + 1 + k)) True q t =
    (if k = 0 then InOrder else Discontinuity,
     t(pid \<mapsto> \<lparr>last_counter = Some (sent_counter (n + 1 + k)), last_packet = Some q\<rparr>))"
proof -
  have "sent_counter (n + 1 + k) \<noteq> sent_counter n"
    using assms(2) by (auto simp: sent_counter_eq mod_eq_dvd_iff_nat dest: dvd_imp_le)
  moreover have "sent_counter (n + 1 + k) = sent_counter (Suc n) \<longleftrightarrow> k = 0"
    using assms(2) by (auto simp: sent_counter_eq mod_eq_dvd_iff_nat dest: dvd_imp_le)
  ultimately show ?thesis
    using assms(1) by (simp add: continuity_observe_def entry_or_def sent_counter_Suc Let_def)
qed

lemma observe_run_sent:
  assumes "t pid = Some \<lparr>last_counter = Some (sent_counter n), last_packet = Some p\<rparr>"
  shows "observe_run pid (sent_run (Suc n) ps) t =
    (replicate (length ps) InOrder,
     t(pid \<mapsto> \<lparr>last_counter = Some (sent_counter (n + length ps)), last_packet = Some (last (p # ps))\<rparr>))"
  using assms
proof (induction ps arbitrary: n p t)
  case Nil
  then show ?case by (simp add: fun_upd_idem)
next
  case (Cons q ps)
  let ?t1 = "t(pid \<mapsto> \<lparr>last_counter = Some (sent_counter (Suc n)), last_packet = Some q\<rparr>)"
  have step: "continuity_observe pid (sent_counter (Suc n)) True q t = (InOrder, ?t1)"
    using observe_next [of t pid n p 0 q] Cons.prems by simp
  have rest: "observe_run pid (sent_run (Suc (Suc n)) ps) ?t1 =
    (replicate (length ps) InOrder,
     ?t1(pid \<mapsto> \<lparr>last_counter = Some (sent_counter (Suc n + length ps)), last_packet = Some (last (q # ps))\<rparr>))"
    by (rule Cons.IH) simp
  show ?case
    by (simp only: sent_run.simps observe_run.simps step rest prod.case fun_upd_upd list.size replicate_Suc)
      (simp add: last_ConsR fun_eq_iff del: last.simps)
qed

text \<open>
  C33. A PID received without loss is reported in order, a loss of one to fourteen packets is
  reported as a discontinuity at the first packet after it, and the retransmission of a packet
  is reported as a duplicate and does not change the tracker.
\<close>

theorem continuity_loss_detected:
  assumes "t pid = None" and "k < 15"
  shows "fst (observe_run pid (sent_run n (p # ps) @ [(sent_counter (n + 1 + length ps + k), q)]) t) =
      FirstPacket # replicate (length ps) InOrder @ [if k = 0 then InOrder else Discontinuity] \<and>
    (let t' = snd (observe_run pid (sent_run n (p # ps)) t) in
       continuity_observe pid (sent_counter (n + length ps)) True (last (p # ps)) t' = (Duplicate, t'))"
proof -
  let ?t1 = "t(pid \<mapsto> \<lparr>last_counter = Some (sent_counter n), last_packet = Some p\<rparr>)"
  have first: "continuity_observe pid (sent_counter n) True p t = (FirstPacket, ?t1)"
    using assms(1) by (simp add: continuity_observe_def entry_or_def continuity_state_default_def Let_def)
  let ?t2 = "t(pid \<mapsto> \<lparr>last_counter = Some (sent_counter (n + length ps)), last_packet = Some (last (p # ps))\<rparr>)"
  have "observe_run pid (sent_run (Suc n) ps) ?t1 =
      (replicate (length ps) InOrder,
       ?t1(pid \<mapsto> \<lparr>last_counter = Some (sent_counter (n + length ps)), last_packet = Some (last (p # ps))\<rparr>))"
    by (rule observe_run_sent) simp
  with first have run: "observe_run pid (sent_run n (p # ps)) t = (FirstPacket # replicate (length ps) InOrder, ?t2)"
    by (simp only: sent_run.simps observe_run.simps prod.case fun_upd_upd)
  have nxt: "fst (continuity_observe pid (sent_counter (n + 1 + length ps + k)) True q ?t2) =
    (if k = 0 then InOrder else Discontinuity)"
    using observe_next [of ?t2 pid "n + length ps" "last (p # ps)" k q] assms(2)
    by (simp del: last.simps fun_upd_upd add: ac_simps)
  have dup: "continuity_observe pid (sent_counter (n + length ps)) True (last (p # ps)) ?t2 = (Duplicate, ?t2)"
    by (simp add: continuity_observe_def entry_or_def del: last.simps)
  have "observe_run pid [(cc, q)] t' = ([fst (continuity_observe pid cc True q t')],
      snd (continuity_observe pid cc True q t'))" for cc t'
    by (simp split: prod.split)
  then show ?thesis
    by (simp only: observe_run_append run prod.case nxt dup Let_def fst_conv snd_conv append_Cons)
qed

theorem continuity_loss_detected_witness:
  "fst (observe_run (PacketPid (TransportStreamPid 0x100))
      (sent_run 14 ([1] # [[2], [3]]) @ [(sent_counter (14 + 1 + length [[2], [3 :: u8]] + 4), [9])]) Map.empty) =
    FirstPacket # replicate (length [[2], [3 :: u8]]) InOrder @ [if (4 :: nat) = 0 then InOrder else Discontinuity]"
  by (rule continuity_loss_detected [THEN conjunct1]) simp_all

end
