(* ===== verification/Multi2.thy ===== *)
theory Multi2
  imports Tv_Prelude
begin

unbundle bit_operations_syntax

section \<open>The MULTI2 cipher\<close>

text \<open>
  \<open>tuner_hal2/descrambler/src/core/multi2.rs\<close>: the MULTI2 block cipher, its key schedule and the
  chaining mode (CBC with an OFB tail) that scrambles the payload of a TS packet. A fixed-size
  array is a list; its length is stated where it matters. Wiping key material from memory has no
  counterpart here.
\<close>

definition DEFAULT_MULTI2_ROUNDS :: nat where
  "DEFAULT_MULTI2_ROUNDS = 4"

record multi2_key_material =
  km_system_key :: bytes
  km_cbc_iv :: bytes
  km_data_key :: bytes
  km_rounds :: nat

definition multi2_key_material_new :: "bytes \<Rightarrow> bytes \<Rightarrow> bytes \<Rightarrow> multi2_key_material" where
  "multi2_key_material_new system_key cbc_iv data_key =
     \<lparr>km_system_key = system_key, km_cbc_iv = cbc_iv, km_data_key = data_key,
      km_rounds = DEFAULT_MULTI2_ROUNDS\<rparr>"

record prepared_multi2_key =
  pk_cbc_iv :: "u32 list"
  pk_work_key :: "u32 list"
  pk_rounds :: nat

datatype multi2_prepare_error = InvalidRoundsZero

subsection \<open>Words and blocks\<close>

definition load_be :: "bytes \<Rightarrow> u32" where
  "load_be p = push_bit 24 (ucast (p ! 0)) OR push_bit 16 (ucast (p ! 1)) OR push_bit 8 (ucast (p ! 2)) OR
     ucast (p ! 3)"

definition store_be :: "u32 \<Rightarrow> bytes" where
  "store_be v = [ucast (drop_bit 24 v AND 0xff), ucast (drop_bit 16 v AND 0xff), ucast (drop_bit 8 v AND 0xff),
     ucast (v AND 0xff)]"

definition parse_system_key :: "bytes \<Rightarrow> u32 list" where
  "parse_system_key bs = map (\<lambda>i. load_be (slice bs (i * 4) (i * 4 + 4))) [0..<8]"

definition rot1_sub :: "u32 \<Rightarrow> u32" where
  "rot1_sub v = v + drop_bit 31 v"

definition rot1_add_dec :: "u32 \<Rightarrow> u32" where
  "rot1_add_dec v = word_rotl 1 v + v - 1"

record block =
  bl_left :: u32
  bl_right :: u32

definition block_load :: "bytes \<Rightarrow> block" where
  "block_load p = \<lparr>bl_left = load_be (slice p 0 4), bl_right = load_be (slice p 4 8)\<rparr>"

definition block_store :: "block \<Rightarrow> bytes" where
  "block_store b = store_be (bl_left b) @ store_be (bl_right b)"

definition block_xor :: "block \<Rightarrow> block \<Rightarrow> block" where
  "block_xor a b = \<lparr>bl_left = bl_left a XOR bl_left b, bl_right = bl_right a XOR bl_right b\<rparr>"

definition cbc_post_decrypt :: "block \<Rightarrow> block \<Rightarrow> block \<Rightarrow> block \<times> block" where
  "cbc_post_decrypt d ciphertext state = (block_xor d state, ciphertext)"

subsection \<open>Rounds\<close>

definition pi1 :: "block \<Rightarrow> block" where
  "pi1 p = \<lparr>bl_left = bl_left p, bl_right = bl_right p XOR bl_left p\<rparr>"

definition pi2 :: "block \<Rightarrow> u32 \<Rightarrow> block" where
  "pi2 p k1 =
     (let x = bl_right p; y = x + k1; z = rot1_add_dec y
      in \<lparr>bl_left = bl_left p XOR word_rotl 4 z XOR z, bl_right = bl_right p\<rparr>)"

definition pi3 :: "block \<Rightarrow> u32 \<Rightarrow> u32 \<Rightarrow> block" where
  "pi3 p k2 k3 =
     (let x = bl_left p; y = x + k2; z = word_rotl 2 y + y + 1; a = word_rotl 8 z XOR z; b = a + k3;
          c = rot1_sub b
      in \<lparr>bl_left = bl_left p, bl_right = bl_right p XOR word_rotl 16 c XOR (c OR x)\<rparr>)"

definition pi4 :: "block \<Rightarrow> u32 \<Rightarrow> block" where
  "pi4 p k4 =
     (let x = bl_right p; y = x + k4
      in \<lparr>bl_left = bl_left p XOR (word_rotl 2 y + y + 1), bl_right = bl_right p\<rparr>)"

definition encrypt_round :: "u32 list \<Rightarrow> block \<Rightarrow> block" where
  "encrypt_round wk b =
     (let b = pi1 b; b = pi2 b (wk ! 0); b = pi3 b (wk ! 1) (wk ! 2); b = pi4 b (wk ! 3);
          b = pi1 b; b = pi2 b (wk ! 4); b = pi3 b (wk ! 5) (wk ! 6); b = pi4 b (wk ! 7)
      in b)"

definition decrypt_round :: "u32 list \<Rightarrow> block \<Rightarrow> block" where
  "decrypt_round wk b =
     (let b = pi4 b (wk ! 7); b = pi3 b (wk ! 5) (wk ! 6); b = pi2 b (wk ! 4); b = pi1 b;
          b = pi4 b (wk ! 3); b = pi3 b (wk ! 1) (wk ! 2); b = pi2 b (wk ! 0); b = pi1 b
      in b)"

definition cipher_encrypt :: "block \<Rightarrow> u32 list \<Rightarrow> nat \<Rightarrow> block" where
  "cipher_encrypt b wk rounds = (encrypt_round wk ^^ rounds) b"

definition cipher_decrypt :: "block \<Rightarrow> u32 list \<Rightarrow> nat \<Rightarrow> block" where
  "cipher_decrypt b wk rounds = (decrypt_round wk ^^ rounds) b"

definition schedule :: "u32 list \<Rightarrow> u32 list \<Rightarrow> u32 list" where
  "schedule dk sk =
     (let a0 = pi1 \<lparr>bl_left = dk ! 0, bl_right = dk ! 1\<rparr>;
          a1 = pi2 a0 (sk ! 0);
          a2 = pi3 a1 (sk ! 1) (sk ! 2);
          a3 = pi4 a2 (sk ! 3);
          a4 = pi1 a3;
          a5 = pi2 a4 (sk ! 4);
          a6 = pi3 a5 (sk ! 5) (sk ! 6);
          a7 = pi4 a6 (sk ! 7);
          a8 = pi1 a7
      in [bl_left a1, bl_right a2, bl_left a3, bl_right a4, bl_left a5, bl_right a6, bl_left a7, bl_right a8])"

definition multi2_prepare :: "multi2_key_material \<Rightarrow> multi2_prepare_error + prepared_multi2_key" where
  "multi2_prepare m =
     (if km_rounds m = 0 then Err InvalidRoundsZero
      else
        let system_key = parse_system_key (km_system_key m);
            data_key = [load_be (slice (km_data_key m) 0 4), load_be (slice (km_data_key m) 4 8)];
            work_key = schedule data_key system_key;
            cbc_iv = [load_be (slice (km_cbc_iv m) 0 4), load_be (slice (km_cbc_iv m) 4 8)]
        in Ok \<lparr>pk_cbc_iv = cbc_iv, pk_work_key = work_key, pk_rounds = km_rounds m\<rparr>)"

subsection \<open>Chaining\<close>

text \<open>
  Both directions of the chaining mode, over the block cipher they call: whole blocks of eight
  bytes are chained, what is left is masked with the encrypted state.
\<close>

definition ofb_tail :: "(block \<Rightarrow> block) \<Rightarrow> block \<Rightarrow> bytes \<Rightarrow> bytes" where
  "ofb_tail enc state rem =
     (if rem = [] then []
      else
        let t = rem @ replicate (8 - length rem) 0;
            p = block_load t;
            c = block_xor p (enc state)
        in take (length rem) (block_store c))"

function cbc_ofb_encrypt :: "(block \<Rightarrow> block) \<Rightarrow> block \<Rightarrow> bytes \<Rightarrow> bytes" where
  "cbc_ofb_encrypt enc state buf =
     (if 8 \<le> length buf then
        let c = enc (block_xor (block_load (take 8 buf)) state)
        in block_store c @ cbc_ofb_encrypt enc c (drop 8 buf)
      else ofb_tail enc state buf)"
  by pat_completeness auto
termination cbc_ofb_encrypt
  by (relation "measure (\<lambda>(_, _, buf). length buf)") auto

function cbc_ofb_decrypt :: "(block \<Rightarrow> block) \<Rightarrow> (block \<Rightarrow> block) \<Rightarrow> block \<Rightarrow> bytes \<Rightarrow> bytes" where
  "cbc_ofb_decrypt enc dec state buf =
     (if 8 \<le> length buf then
        let c = block_load (take 8 buf);
            (p, next_state) = cbc_post_decrypt (dec c) c state
        in block_store p @ cbc_ofb_decrypt enc dec next_state (drop 8 buf)
      else ofb_tail enc state buf)"
  by pat_completeness auto
termination cbc_ofb_decrypt
  by (relation "measure (\<lambda>(_, _, _, buf). length buf)") auto

declare cbc_ofb_encrypt.simps [simp del] cbc_ofb_decrypt.simps [simp del]

definition encrypt_cbc_ofb :: "bytes \<Rightarrow> u32 list \<Rightarrow> u32 list \<Rightarrow> nat \<Rightarrow> bytes" where
  "encrypt_cbc_ofb buf iv key rounds =
     cbc_ofb_encrypt (\<lambda>b. cipher_encrypt b key rounds) \<lparr>bl_left = iv ! 0, bl_right = iv ! 1\<rparr> buf"

definition decrypt_cbc_ofb :: "bytes \<Rightarrow> u32 list \<Rightarrow> u32 list \<Rightarrow> nat \<Rightarrow> bytes" where
  "decrypt_cbc_ofb buf iv key rounds =
     cbc_ofb_decrypt (\<lambda>b. cipher_encrypt b key rounds) (\<lambda>b. cipher_decrypt b key rounds)
       \<lparr>bl_left = iv ! 0, bl_right = iv ! 1\<rparr> buf"

definition multi2_decrypt_payload :: "bytes \<Rightarrow> prepared_multi2_key \<Rightarrow> bytes" where
  "multi2_decrypt_payload payload key = decrypt_cbc_ofb payload (pk_cbc_iv key) (pk_work_key key) (pk_rounds key)"

definition multi2_encrypt_payload :: "bytes \<Rightarrow> prepared_multi2_key \<Rightarrow> bytes" where
  "multi2_encrypt_payload payload key = encrypt_cbc_ofb payload (pk_cbc_iv key) (pk_work_key key) (pk_rounds key)"

subsection \<open>Loading and storing blocks\<close>

lemma bit_load_be:
  "bit (load_be p) n \<longleftrightarrow>
     (if n < 8 then bit (p ! 3) n
      else if n < 16 then bit (p ! 2) (n - 8)
      else if n < 24 then bit (p ! 1) (n - 16)
      else bit (p ! 0) (n - 24))"
proof -
  have s: "\<And>x k. \<not> k < 8 \<Longrightarrow> \<not> bit (x :: u8) k" by (auto dest: bit_imp_le_length)
  consider "n < 8" | "8 \<le> n" "n < 16" | "16 \<le> n" "n < 24" | "24 \<le> n" "n < 32" | "32 \<le> n" by linarith
  then show ?thesis
    by cases (auto simp: load_be_def bit_simps s)
qed

lemma bit_store_be:
  assumes "i < 4"
  shows "bit (store_be v ! i) n \<longleftrightarrow> n < 8 \<and> bit v (8 * (3 - i) + n)"
proof -
  from assms have "i = 0 \<or> i = 1 \<or> i = 2 \<or> i = 3" by linarith
  then show ?thesis by (auto simp: store_be_def and_mask_lits bit_simps)
qed

lemma load_store_be: "load_be (store_be v) = v"
proof (rule bit_word_eqI)
  fix n assume "n < LENGTH(32)"
  then consider "n < 8" | "8 \<le> n" "n < 16" | "16 \<le> n" "n < 24" | "24 \<le> n" "n < 32" by fastforce
  then show "bit (load_be (store_be v)) n = bit v n"
    by cases (auto simp: bit_load_be bit_store_be)
qed

lemma store_load_be:
  assumes "length p = 4"
  shows "store_be (load_be p) = p"
proof (rule nth_equalityI)
  show "length (store_be (load_be p)) = length p" using assms by (simp add: store_be_def)
  fix i assume "i < length (store_be (load_be p))"
  then have "i < 4" by (simp add: store_be_def)
  then have "i = 0 \<or> i = 1 \<or> i = 2 \<or> i = 3" by linarith
  then show "store_be (load_be p) ! i = p ! i"
    by (intro bit_word_eqI) (auto simp: bit_store_be bit_load_be)
qed

lemma store_be_xor: "store_be (a XOR b) = map2 (XOR) (store_be a) (store_be b)"
  by (auto simp: store_be_def and_mask_lits intro!: bit_word_eqI simp: bit_simps)

lemma length_store_be [simp]: "length (store_be v) = 4"
  by (simp add: store_be_def)

lemma length_block_store [simp]: "length (block_store b) = 8"
  by (simp add: block_store_def)

lemma block_load_store [simp]: "block_load (block_store b) = b"
  by (simp add: block_load_def block_store_def slice_def load_store_be)

lemma block_store_load:
  assumes "length p = 8"
  shows "block_store (block_load p) = p"
proof -
  have "block_store (block_load p) = take 4 p @ drop 4 p"
    using assms by (simp add: block_store_def block_load_def slice_def store_load_be del: append_take_drop_id)
  then show ?thesis by simp
qed

lemma block_store_xor: "block_store (block_xor a b) = map2 (XOR) (block_store a) (block_store b)"
  by (simp add: block_store_def block_xor_def store_be_xor)

lemma block_xor_cancel [simp]: "block_xor (block_xor a b) b = a"
  by (simp add: block_xor_def xor.assoc)

subsection \<open>The contract of a block cipher\<close>

text \<open>Chaining relies on the cipher only for the law that decryption undoes encryption.\<close>

locale block_cipher =
  fixes enc dec :: "block \<Rightarrow> block"
  assumes dec_enc: "dec (enc b) = b"
    and enc_dec: "enc (dec b) = b"
begin

lemma length_ofb_tail: "length buf < 8 \<Longrightarrow> length (ofb_tail enc state buf) = length buf"
  by (simp add: ofb_tail_def Let_def)

text \<open>The tail is masked byte by byte with the key stream.\<close>

lemma ofb_tail_mask:
  assumes "length buf < 8"
  shows "ofb_tail enc state buf = map2 (XOR) buf (block_store (enc state))"
proof -
  let ?t = "buf @ replicate (8 - length buf) 0"
  have "block_store (block_load ?t) = ?t" using assms by (intro block_store_load) simp
  then show ?thesis using assms
    by (intro nth_equalityI) (auto simp: ofb_tail_def Let_def block_store_xor nth_append)
qed

lemma ofb_tail_twice:
  assumes "length buf < 8"
  shows "ofb_tail enc state (ofb_tail enc state buf) = buf"
proof -
  have "length (ofb_tail enc state buf) < 8" using length_ofb_tail [OF assms] assms by simp
  then have "ofb_tail enc state (ofb_tail enc state buf) =
    map2 (XOR) (map2 (XOR) buf (block_store (enc state))) (block_store (enc state))"
    using assms by (simp add: ofb_tail_mask)
  also have "\<dots> = buf"
    using assms by (intro nth_equalityI) (simp_all add: xor.assoc)
  finally show ?thesis .
qed

lemma length_encrypt [simp]: "length (cbc_ofb_encrypt enc state buf) = length buf"
proof (induction enc state buf rule: cbc_ofb_encrypt.induct)
  case (1 enc state buf)
  then show ?case by (subst cbc_ofb_encrypt.simps) (auto simp: Let_def ofb_tail_def)
qed

lemma length_decrypt [simp]: "length (cbc_ofb_decrypt enc dec state buf) = length buf"
proof (induction enc dec state buf rule: cbc_ofb_decrypt.induct)
  case (1 enc dec state buf)
  then show ?case by (subst cbc_ofb_decrypt.simps) (auto simp: Let_def ofb_tail_def cbc_post_decrypt_def)
qed

lemma decrypt_encrypt: "cbc_ofb_decrypt enc dec state (cbc_ofb_encrypt enc state buf) = buf"
proof (induction "length buf" arbitrary: buf state rule: less_induct)
  case less
  show ?case
  proof (cases "8 \<le> length buf")
    case True
    let ?c = "enc (block_xor (block_load (take 8 buf)) state)"
    have "cbc_ofb_encrypt enc state buf = block_store ?c @ cbc_ofb_encrypt enc ?c (drop 8 buf)"
      using True by (subst cbc_ofb_encrypt.simps) (simp add: Let_def)
    then have "cbc_ofb_decrypt enc dec state (cbc_ofb_encrypt enc state buf) =
      block_store (block_load (take 8 buf)) @ cbc_ofb_decrypt enc dec ?c (cbc_ofb_encrypt enc ?c (drop 8 buf))"
      by (subst cbc_ofb_decrypt.simps) (simp add: Let_def cbc_post_decrypt_def dec_enc)
    with True less [of "drop 8 buf" ?c] show ?thesis by (simp add: block_store_load)
  next
    case False
    then show ?thesis
      using length_ofb_tail [of buf state] ofb_tail_twice [of buf state]
      by (simp add: cbc_ofb_encrypt.simps [of _ _ buf] cbc_ofb_decrypt.simps [of _ _ _ "ofb_tail _ _ _"])
  qed
qed

lemma encrypt_decrypt: "cbc_ofb_encrypt enc state (cbc_ofb_decrypt enc dec state buf) = buf"
proof (induction "length buf" arbitrary: buf state rule: less_induct)
  case less
  show ?case
  proof (cases "8 \<le> length buf")
    case True
    let ?c = "block_load (take 8 buf)"
    have "cbc_ofb_decrypt enc dec state buf =
      block_store (block_xor (dec ?c) state) @ cbc_ofb_decrypt enc dec ?c (drop 8 buf)"
      using True by (subst cbc_ofb_decrypt.simps) (simp add: Let_def cbc_post_decrypt_def)
    then have "cbc_ofb_encrypt enc state (cbc_ofb_decrypt enc dec state buf) =
      block_store ?c @ cbc_ofb_encrypt enc ?c (cbc_ofb_decrypt enc dec ?c (drop 8 buf))"
      by (subst cbc_ofb_encrypt.simps) (simp add: Let_def enc_dec)
    with True less [of "drop 8 buf" ?c] show ?thesis by (simp add: block_store_load)
  next
    case False
    then show ?thesis
      using length_ofb_tail [of buf state] ofb_tail_twice [of buf state]
      by (simp add: cbc_ofb_decrypt.simps [of _ _ _ buf] cbc_ofb_encrypt.simps [of _ _ "ofb_tail _ _ _"])
  qed
qed

end

subsection \<open>MULTI2 is such a cipher\<close>

lemma xor_mask_twice [simp]: "((a :: u32) XOR m) XOR m = a"
  by (simp add: xor.assoc)

lemma pi_involutions:
  "pi1 (pi1 b) = b" "pi2 (pi2 b k) k = b" "pi3 (pi3 b k k') k k' = b" "pi4 (pi4 b k) k = b"
  by (simp_all add: pi1_def pi2_def pi3_def pi4_def Let_def)

lemma round_inverse:
  "decrypt_round wk (encrypt_round wk b) = b" "encrypt_round wk (decrypt_round wk b) = b"
  by (simp_all add: decrypt_round_def encrypt_round_def Let_def pi_involutions)

lemma funpow_inverse:
  fixes f g :: "'a \<Rightarrow> 'a"
  assumes "\<And>x. g (f x) = x"
  shows "(g ^^ n) ((f ^^ n) x) = x"
proof (induction n arbitrary: x)
  case (Suc n)
  have "(g ^^ Suc n) ((f ^^ Suc n) x) = (g ^^ n) (g ((f ^^ Suc n) x))"
    by (simp only: funpow_Suc_right comp_apply)
  with Suc show ?case by (simp add: assms)
qed simp

interpretation multi2: block_cipher "\<lambda>b. cipher_encrypt b wk rounds" "\<lambda>b. cipher_decrypt b wk rounds"
  for wk rounds
  by unfold_locales (simp_all add: cipher_encrypt_def cipher_decrypt_def funpow_inverse round_inverse)

lemma multi2_payload_inverse:
  "multi2_decrypt_payload (multi2_encrypt_payload payload key) key = payload"
  "multi2_encrypt_payload (multi2_decrypt_payload payload key) key = payload"
  by (simp_all add: multi2_decrypt_payload_def multi2_encrypt_payload_def decrypt_cbc_ofb_def encrypt_cbc_ofb_def
      multi2.decrypt_encrypt multi2.encrypt_decrypt)

lemma multi2_payload_length [simp]:
  "length (multi2_decrypt_payload payload key) = length payload"
  "length (multi2_encrypt_payload payload key) = length payload"
  by (simp_all add: multi2_decrypt_payload_def multi2_encrypt_payload_def decrypt_cbc_ofb_def encrypt_cbc_ofb_def)

text \<open>
  C26. Scrambling and descrambling of a payload undo each other for every prepared key and every
  length, also when the payload does not end on a block boundary, and keep the length.
\<close>

theorem multi2_roundtrip:
  "multi2_decrypt_payload (multi2_encrypt_payload payload key) key = payload \<and>
   multi2_encrypt_payload (multi2_decrypt_payload payload key) key = payload \<and>
   length (multi2_decrypt_payload payload key) = length payload"
  by (simp add: multi2_payload_inverse)

text \<open>
  The shortcut of the third round function is the operation of the cipher's definition:
  rotating a word left by one bit and subtracting the word is adding its top bit.
\<close>

lemma rot1_sub_reference: "rot1_sub v = word_rotl 1 v - v"
proof -
  have "word_rotl 1 v = push_bit 1 v OR drop_bit 31 v"
  proof (rule bit_word_eqI)
    fix n assume n: "n < LENGTH(32)"
    then show "bit (word_rotl 1 v) n = bit (push_bit 1 v OR drop_bit 31 v) n"
      using bit_imp_le_length [of v "31 + n"]
      by (cases n) (auto simp: bit_word_rotl_iff bit_simps simp del: push_bit_Suc)
  qed
  also have "\<dots> = push_bit 1 v + drop_bit 31 v"
    by (rule disjunctive_add [symmetric])
      (auto simp: bit_simps simp del: push_bit_Suc dest: bit_imp_le_length)
  finally show ?thesis by (simp add: rot1_sub_def)
qed

end
