(* ===== verification/Descrambler.thy ===== *)
theory Descrambler
  imports Hal_Common Multi2
begin

unbundle bit_operations_syntax

section \<open>Descrambling of TS packets\<close>

text \<open>
  \<open>tuner_hal2/descrambler/src/core/packet.rs\<close> and \<open>runtime/\<close>: key slots, the header of a
  scrambled packet, the descrambling of a packet in place, and the claims and tokens that name
  what is to be descrambled. A function that works in place returns its result with the packet
  it leaves.
\<close>

definition NULL_PID :: u16 where
  "NULL_PID = 0x1fff"

subsection \<open>PID claims and key tokens\<close>

datatype descrambler_pid = DescramblerPid (descrambler_ts_pid: transport_stream_pid)

definition from_validated_pid_for_descrambler_core :: "u16 \<Rightarrow> descrambler_pid option" where
  "from_validated_pid_for_descrambler_core pid =
     (case validate_u16 pid of Ok p \<Rightarrow> Some (DescramblerPid p) | Err _ \<Rightarrow> None)"

record source_filter_ref =
  sf_filter_id :: i32
  sf_generation :: u64

datatype descrambler_pid_claim_source = DemuxInput | SourceFilter source_filter_ref

record descrambler_pid_claim =
  dc_pid :: descrambler_pid
  dc_source :: descrambler_pid_claim_source

datatype descrambler_pid_claim_error = InvalidPid

definition claim_from_source_filter ::
  "u16 \<Rightarrow> i32 \<Rightarrow> u64 \<Rightarrow> descrambler_pid_claim_error + descrambler_pid_claim" where
  "claim_from_source_filter pid filter_id generation =
     (case validate_u16 pid of
        Err _ \<Rightarrow> Err InvalidPid
      | Ok p \<Rightarrow> Ok \<lparr>dc_pid = DescramblerPid p,
                   dc_source = SourceFilter \<lparr>sf_filter_id = filter_id, sf_generation = generation\<rparr>\<rparr>)"

definition claim_from_demux_input :: "u16 \<Rightarrow> descrambler_pid_claim_error + descrambler_pid_claim" where
  "claim_from_demux_input pid =
     (case validate_u16 pid of
        Err _ \<Rightarrow> Err InvalidPid
      | Ok p \<Rightarrow> Ok \<lparr>dc_pid = DescramblerPid p, dc_source = DemuxInput\<rparr>)"

definition claim_source_filter_ref :: "descrambler_pid_claim \<Rightarrow> source_filter_ref option" where
  "claim_source_filter_ref claim =
     (case dc_source claim of SourceFilter source \<Rightarrow> Some source | DemuxInput \<Rightarrow> None)"

datatype descrambler_key_token = DescramblerKeyToken (token_bytes: bytes)

datatype descrambler_key_token_error =
    TokenEmpty
  | TokenInvalidLength nat nat nat

definition DESCRAMBLER_TOKEN_MIN_BYTES :: nat where "DESCRAMBLER_TOKEN_MIN_BYTES = 1"
definition DESCRAMBLER_TOKEN_MAX_BYTES :: nat where "DESCRAMBLER_TOKEN_MAX_BYTES = 16"

definition token_try_from_bytes :: "bytes \<Rightarrow> descrambler_key_token_error + descrambler_key_token" where
  "token_try_from_bytes bs =
     (if bs = [] then Err TokenEmpty
      else if DESCRAMBLER_TOKEN_MAX_BYTES < length bs
      then Err (TokenInvalidLength (length bs) DESCRAMBLER_TOKEN_MIN_BYTES DESCRAMBLER_TOKEN_MAX_BYTES)
      else Ok (DescramblerKeyToken bs))"

subsection \<open>Key slots\<close>

datatype key_parity = EvenKey | OddKey

record descrambler_key_slot =
  ks_even :: "prepared_multi2_key option"
  ks_odd :: "prepared_multi2_key option"

definition key_slot_empty :: descrambler_key_slot where
  "key_slot_empty = \<lparr>ks_even = None, ks_odd = None\<rparr>"

definition try_with_even ::
  "multi2_key_material \<Rightarrow> descrambler_key_slot \<Rightarrow> multi2_prepare_error + descrambler_key_slot" where
  "try_with_even key slot =
     (case multi2_prepare key of Err e \<Rightarrow> Err e | Ok prepared \<Rightarrow> Ok (slot\<lparr>ks_even := Some prepared\<rparr>))"

definition try_with_odd ::
  "multi2_key_material \<Rightarrow> descrambler_key_slot \<Rightarrow> multi2_prepare_error + descrambler_key_slot" where
  "try_with_odd key slot =
     (case multi2_prepare key of Err e \<Rightarrow> Err e | Ok prepared \<Rightarrow> Ok (slot\<lparr>ks_odd := Some prepared\<rparr>))"

definition with_even_prepared :: "prepared_multi2_key \<Rightarrow> descrambler_key_slot \<Rightarrow> descrambler_key_slot" where
  "with_even_prepared key slot = slot\<lparr>ks_even := Some key\<rparr>"

definition with_odd_prepared :: "prepared_multi2_key \<Rightarrow> descrambler_key_slot \<Rightarrow> descrambler_key_slot" where
  "with_odd_prepared key slot = slot\<lparr>ks_odd := Some key\<rparr>"

definition key_for :: "descrambler_key_slot \<Rightarrow> key_parity \<Rightarrow> prepared_multi2_key option" where
  "key_for slot parity = (case parity of EvenKey \<Rightarrow> ks_even slot | OddKey \<Rightarrow> ks_odd slot)"

definition has_any_key :: "descrambler_key_slot \<Rightarrow> bool" where
  "has_any_key slot \<longleftrightarrow> \<not> Option.is_none (ks_even slot) \<or> \<not> Option.is_none (ks_odd slot)"

definition has_even_and_odd_keys :: "descrambler_key_slot \<Rightarrow> bool" where
  "has_even_and_odd_keys slot \<longleftrightarrow> \<not> Option.is_none (ks_even slot) \<and> \<not> Option.is_none (ks_odd slot)"

subsection \<open>Outcomes and their policy\<close>

datatype pass_through_reason = ClearPacket | ClearAdaptationOnly | NullPid | PidNotTargeted

datatype packet_policy_action = RecordPassThroughAndDropAssembly | DropAndDiagnose | DiagnoseOnly

datatype descramble_failure =
    InvalidPacketSize | BadSyncByte | InvalidAfc | InvalidAdaptationField | InvalidTsc
  | TransportErrorRecord | ScrambledNullPid | ScrambledWithoutPayload | NoKey | BadToken | Multi2Fail
  | ScrambledPidNotRegistered

fun packet_policy_for_descramble_failure :: "descramble_failure \<Rightarrow> packet_policy_action" where
  "packet_policy_for_descramble_failure NoKey = RecordPassThroughAndDropAssembly"
| "packet_policy_for_descramble_failure ScrambledPidNotRegistered = RecordPassThroughAndDropAssembly"
| "packet_policy_for_descramble_failure BadToken = DiagnoseOnly"
| "packet_policy_for_descramble_failure Multi2Fail = DiagnoseOnly"
| "packet_policy_for_descramble_failure _ = DropAndDiagnose"

datatype descramble_outcome =
    Descrambled u16 key_parity nat
  | PassedThrough u16 pass_through_reason

subsection \<open>Header\<close>

record ts_packet_header =
  th_pid :: u16
  th_transport_error_indicator :: bool
  th_payload_unit_start :: bool
  th_transport_scrambling_control :: u8
  th_adaptation_field_control :: u8
  th_continuity_counter :: u8
  th_payload_offset :: "nat option"

definition parse_ts_packet_header :: "bytes \<Rightarrow> descramble_failure + ts_packet_header" where
  "parse_ts_packet_header packet =
     (if length packet \<noteq> TS_PACKET_SIZE then Err InvalidPacketSize
      else if packet ! 0 \<noteq> 0x47 then Err BadSyncByte
      else
        let transport_scrambling_control = drop_bit 6 (packet ! 3) AND 3;
            adaptation_field_control = drop_bit 4 (packet ! 3) AND 3
        in if adaptation_field_control = 0 then Err InvalidAfc
           else
             let offset =
               (if adaptation_field_control = 2 \<or> adaptation_field_control = 3 then
                  let adaptation_len = unat (packet ! 4) in
                  (case checked_add_usize 4 (1 + adaptation_len) of
                     None \<Rightarrow> None
                   | Some offset \<Rightarrow> if length packet < offset then None else Some offset)
                else Some 4)
             in case offset of
                  None \<Rightarrow> Err InvalidAdaptationField
                | Some offset \<Rightarrow>
                    if adaptation_field_control = 3 \<and> TS_PACKET_SIZE \<le> offset then Err InvalidAdaptationField
                    else Ok \<lparr>th_pid = push_bit 8 (ucast (packet ! 1 AND 0x1f)) OR ucast (packet ! 2),
                             th_transport_error_indicator = (packet ! 1 AND 0x80 \<noteq> 0),
                             th_payload_unit_start = (packet ! 1 AND 0x40 \<noteq> 0),
                             th_transport_scrambling_control = transport_scrambling_control,
                             th_adaptation_field_control = adaptation_field_control,
                             th_continuity_counter = packet ! 3 AND 0x0f,
                             th_payload_offset = (if adaptation_field_control = 2 then None else Some offset)\<rparr>)"

subsection \<open>Descrambling\<close>

definition descramble_ts_packet_in_place ::
  "bytes \<Rightarrow> descrambler_pid set \<Rightarrow> descrambler_key_slot \<Rightarrow> (descramble_failure + descramble_outcome) \<times> bytes" where
  "descramble_ts_packet_in_place packet target_pids key_slot =
     (case parse_ts_packet_header packet of
        Err e \<Rightarrow> (Err e, packet)
      | Ok header \<Rightarrow>
          let tsc = th_transport_scrambling_control header in
          if th_transport_error_indicator header then (Err TransportErrorRecord, packet)
          else if tsc = 0 then
            let reason =
              (if th_pid header = NULL_PID then NullPid
               else if th_payload_offset header = None then ClearAdaptationOnly
               else ClearPacket)
            in (Ok (PassedThrough (th_pid header) reason), packet)
          else if tsc = 1 then (Err InvalidTsc, packet)
          else if tsc = 2 \<or> tsc = 3 then
            if th_pid header = NULL_PID then (Err ScrambledNullPid, packet)
            else
              let parity = (if tsc = 2 then EvenKey else OddKey) in
              (case from_validated_pid_for_descrambler_core (th_pid header) of
                 None \<Rightarrow> (Err InvalidPacketSize, packet)
               | Some target_pid \<Rightarrow>
                   if target_pid \<notin> target_pids then (Err ScrambledPidNotRegistered, packet)
                   else
                     (case th_payload_offset header of
                        None \<Rightarrow> (Err ScrambledWithoutPayload, packet)
                      | Some payload_offset \<Rightarrow>
                          if TS_PACKET_SIZE \<le> payload_offset then (Err ScrambledWithoutPayload, packet)
                          else
                            (case key_for key_slot parity of
                               None \<Rightarrow> (Err NoKey, packet)
                             | Some key \<Rightarrow>
                                 let packet' = take payload_offset packet
                                       @ multi2_decrypt_payload (drop payload_offset packet) key
                                 in (Ok (Descrambled (th_pid header) parity payload_offset),
                                     packet'[3 := packet' ! 3 AND 0x3f]))))
          else (Err InvalidTsc, packet))"

definition descramble_validated_ts_packet_in_place ::
  "bytes \<Rightarrow> descrambler_pid set \<Rightarrow> descrambler_key_slot \<Rightarrow> (descramble_failure + descramble_outcome) \<times> bytes" where
  "descramble_validated_ts_packet_in_place packet target_pids key_slot =
     descramble_ts_packet_in_place packet target_pids key_slot"

subsection \<open>What the header depends on\<close>

lemma low_bits:
  fixes x y :: u8
  assumes "x AND 0x3f = y AND 0x3f"
  shows "drop_bit 4 x AND 3 = drop_bit 4 y AND 3" and "x AND 0x0f = y AND 0x0f"
proof -
  from assms have t: "take_bit 6 x = take_bit 6 y" by (simp add: and_mask_lits)
  have "take_bit 2 (drop_bit 4 z) = drop_bit 4 (take_bit 6 z)" for z :: u8
    by (simp add: drop_bit_take_bit)
  with t show "drop_bit 4 x AND 3 = drop_bit 4 y AND 3" by (simp add: and_mask_lits)
  have "take_bit 4 z = take_bit 4 (take_bit 6 z)" for z :: u8 by simp
  with t show "x AND 0x0f = y AND 0x0f" by (metis and_mask_lits(4))
qed

lemma parse_header_Ok:
  assumes "parse_ts_packet_header p = Ok h"
  shows "length p = TS_PACKET_SIZE" and "p ! 0 = 0x47"
    and "th_transport_scrambling_control h = drop_bit 6 (p ! 3) AND 3"
    and "\<And>off. th_payload_offset h = Some off \<Longrightarrow> 4 \<le> off \<and> off < TS_PACKET_SIZE"
    and "\<And>off. th_payload_offset h = Some off \<Longrightarrow> drop_bit 4 (p ! 3) AND 3 = 1 \<or> 5 \<le> off"
    and "th_pid h \<le> 0x1fff"
    and "th_transport_error_indicator h = (p ! 1 AND 0x80 \<noteq> 0)"
  using assms header_pid_valid [of "p ! 1" "p ! 2"] and_3_cases [of "drop_bit 4 (p ! 3)"]
  by (auto simp: parse_ts_packet_header_def Let_def valid_pid_def from_mpeg_ts_header_bytes_def hal_sizes
      split: if_splits option.splits)

lemma parse_header_cong:
  assumes h: "parse_ts_packet_header p = Ok h" and "length p' = length p"
    and "p' ! 0 = p ! 0" and "p' ! 1 = p ! 1" and "p' ! 2 = p ! 2" and "p' ! 3 AND 0x3f = p ! 3 AND 0x3f"
    and "drop_bit 4 (p ! 3) AND 3 = 1 \<or> p' ! 4 = p ! 4"
  shows "parse_ts_packet_header p' = Ok (h\<lparr>th_transport_scrambling_control := drop_bit 6 (p' ! 3) AND 3\<rparr>)"
  using h assms(2-5,7) low_bits [OF assms(6)]
  by (auto simp: parse_ts_packet_header_def Let_def split: if_splits option.splits)

lemma pid_registered:
  "pid \<le> 0x1fff \<Longrightarrow> from_validated_pid_for_descrambler_core pid = Some (DescramblerPid (TransportStreamPid pid))"
  by (simp add: from_validated_pid_for_descrambler_core_def validate_u16_def)

text \<open>All that a descrambling that succeeds does.\<close>

lemma descramble_Descrambled:
  assumes "descramble_ts_packet_in_place p pids slot = (Ok (Descrambled pid parity off), p')"
  obtains h key where "parse_ts_packet_header p = Ok h" "\<not> th_transport_error_indicator h"
    "th_pid h = pid" "pid \<noteq> NULL_PID" "th_payload_offset h = Some off"
    "th_transport_scrambling_control h = (case parity of EvenKey \<Rightarrow> 2 | OddKey \<Rightarrow> 3)"
    "DescramblerPid (TransportStreamPid pid) \<in> pids" "key_for slot parity = Some key"
    "p' = ((take off p) @ multi2_decrypt_payload (drop off p) key)[3 := p ! 3 AND 0x3f]"
proof -
  from assms obtain h where h: "parse_ts_packet_header p = Ok h"
    by (cases "parse_ts_packet_header p") (auto simp: descramble_ts_packet_in_place_def)
  note ok = parse_header_Ok [OF h]
  from assms h obtain key where key: "\<not> th_transport_error_indicator h" "th_pid h = pid" "pid \<noteq> NULL_PID"
    "th_payload_offset h = Some off"
    "th_transport_scrambling_control h = (case parity of EvenKey \<Rightarrow> 2 | OddKey \<Rightarrow> 3)"
    "DescramblerPid (TransportStreamPid pid) \<in> pids" "key_for slot parity = Some key"
    "p' = (let q = take off p @ multi2_decrypt_payload (drop off p) key in q[3 := q ! 3 AND 0x3f])"
    using ok(6) by (auto simp: descramble_ts_packet_in_place_def Let_def pid_registered
        split: if_splits option.splits)
  moreover from ok(1,4) key(4) have "(take off p @ multi2_decrypt_payload (drop off p) key) ! 3 = p ! 3"
    by (simp add: nth_append hal_sizes)
  ultimately show ?thesis using that [OF h] by (simp add: Let_def)
qed

lemma descrambled_packet:
  assumes len: "length p = TS_PACKET_SIZE" and off: "4 \<le> off" "off < TS_PACKET_SIZE"
    and p': "p' = ((take off p) @ multi2_decrypt_payload (drop off p) key)[3 := b]"
  shows "length p' = TS_PACKET_SIZE" and "\<And>i. i < off \<Longrightarrow> p' ! i = (if i = 3 then b else p ! i)"
    and "drop off p' = multi2_decrypt_payload (drop off p) key"
  using assms multi2_payload_length [of "drop off p" key]
  by (auto simp: hal_sizes nth_append nth_list_update drop_update_cancel)

text \<open>
  C23. Descrambling in place is all or nothing. A packet that fails or passes through is left as
  it was. A packet that is descrambled had no transport error, a registered PID and a key of its
  parity in the slot; it keeps its length, its header apart from the scrambling bits and its
  adaptation field; its payload is the decryption of the old one; and it is a clear packet of the
  same PID for every later stage.
\<close>

theorem descramble_in_place_frame:
  "case descramble_ts_packet_in_place p pids slot of
     (Err e, p') \<Rightarrow> p' = p
   | (Ok (PassedThrough pid reason), p') \<Rightarrow> p' = p
   | (Ok (Descrambled pid parity off), p') \<Rightarrow>
       DescramblerPid (TransportStreamPid pid) \<in> pids \<and>
       length p' = length p \<and> 4 \<le> off \<and> off < length p \<and>
       take off p' = (take off p)[3 := p ! 3 AND 0x3f] \<and>
       (\<exists>key. key_for slot parity = Some key \<and> drop off p' = multi2_decrypt_payload (drop off p) key) \<and>
       descramble_ts_packet_in_place p' pids2 slot2 = (Ok (PassedThrough pid ClearPacket), p')"
proof (cases "descramble_ts_packet_in_place p pids slot")
  case (Pair r p')
  show ?thesis
  proof (cases "\<exists>pid parity off. r = Ok (Descrambled pid parity off)")
    case False
    have "fst (descramble_ts_packet_in_place p pids slot) = r \<Longrightarrow> snd (descramble_ts_packet_in_place p pids slot) = p"
      using False
      by (auto simp: descramble_ts_packet_in_place_def Let_def split: sum.splits option.splits if_splits)
    with Pair False show ?thesis by (auto split: sum.split descramble_outcome.split)
  next
    case True
    then obtain pid parity off where r: "r = Ok (Descrambled pid parity off)" by blast
    with Pair obtain h key where h: "parse_ts_packet_header p = Ok h" "\<not> th_transport_error_indicator h"
      "th_pid h = pid" "pid \<noteq> NULL_PID" "th_payload_offset h = Some off"
      "DescramblerPid (TransportStreamPid pid) \<in> pids" "key_for slot parity = Some key"
      "p' = ((take off p) @ multi2_decrypt_payload (drop off p) key)[3 := p ! 3 AND 0x3f]"
      by (auto elim: descramble_Descrambled)
    note ok = parse_header_Ok [OF h(1)]
    note p' = descrambled_packet [OF ok(1) _ _ h(8)]
    have off: "4 \<le> off" "off < TS_PACKET_SIZE" using ok(4) [OF h(5)] by auto
    have byte3: "p' ! 3 = p ! 3 AND 0x3f" using p'(2) [OF off, of 3] off by simp
    have "parse_ts_packet_header p' = Ok (h\<lparr>th_transport_scrambling_control := drop_bit 6 (p' ! 3) AND 3\<rparr>)"
      using p' [OF off] off ok(1) ok(5) [OF h(5)] byte3
      by (intro parse_header_cong [OF h(1)]) (auto simp: hal_sizes and.assoc)
    moreover have "drop_bit 6 (p' ! 3) AND 3 = 0"
      unfolding byte3 by (simp add: and_mask_lits) (simp add: drop_bit_take_bit)?
    ultimately have "descramble_ts_packet_in_place p' pids2 slot2 = (Ok (PassedThrough pid ClearPacket), p')"
      using h by (simp add: descramble_ts_packet_in_place_def Let_def)
    moreover have "take off p' = (take off p)[3 := p ! 3 AND 0x3f]"
      using p' [OF off] off ok(1) by (intro nth_equalityI) (auto simp: nth_list_update)
    ultimately show ?thesis using Pair r h p' [OF off] off ok(1) by simp
  qed
qed

subsection \<open>Scrambling and descrambling a packet\<close>

text \<open>What the sender does to a clear packet whose payload starts at \<open>off\<close>.\<close>

definition parity_bits :: "key_parity \<Rightarrow> u8" where
  "parity_bits parity = (case parity of EvenKey \<Rightarrow> 0x80 | OddKey \<Rightarrow> 0xc0)"

definition scramble_packet :: "key_parity \<Rightarrow> prepared_multi2_key \<Rightarrow> nat \<Rightarrow> bytes \<Rightarrow> bytes" where
  "scramble_packet parity key off p =
     ((take off p) @ multi2_encrypt_payload (drop off p) key)[3 := p ! 3 OR parity_bits parity]"

lemma parity_byte:
  assumes "drop_bit 6 (x :: u8) AND 3 = 0"
  shows "x AND 0x3f = x" and "(x OR parity_bits parity) AND 0x3f = x"
    and "drop_bit 6 (x OR parity_bits parity) AND 3 = (case parity of EvenKey \<Rightarrow> 2 | OddKey \<Rightarrow> 3)"
proof -
  have hi: "\<not> bit x 6" "\<not> bit x 7"
    using assms bit_take_bit_iff [of 2 "drop_bit 6 x" 0] bit_take_bit_iff [of 2 "drop_bit 6 x" 1]
    by (simp_all add: and_mask_lits bit_drop_bit_eq)
  have low: "bit x n \<Longrightarrow> n < 6" for n
    using hi bit_imp_le_length [of x n] by (cases "n = 6"; cases "n = 7") auto
  show keep: "x AND 0x3f = x"
    using low by (intro bit_word_eqI) (auto simp: and_mask_lits bit_simps)
  have p: "parity_bits parity AND 0x3f = 0" "drop_bit 6 (parity_bits parity) AND 3 = (case parity of EvenKey \<Rightarrow> 2 | OddKey \<Rightarrow> 3)"
    by (cases parity; simp add: parity_bits_def)+
  from keep p(1) show "(x OR parity_bits parity) AND 0x3f = x"
    by (simp add: bit.conj_disj_distrib2)
  from assms p(2) show "drop_bit 6 (x OR parity_bits parity) AND 3 = (case parity of EvenKey \<Rightarrow> 2 | OddKey \<Rightarrow> 3)"
    by (simp add: drop_bit_or bit.conj_disj_distrib2)
qed

text \<open>
  C6. Round trip of a packet: a clear packet that is scrambled with the key of a parity comes
  back byte for byte when its PID is registered and the slot holds that key, and the outcome
  reports its PID, the parity and where its payload starts.
\<close>

theorem descramble_scrambled:
  assumes h: "parse_ts_packet_header p = Ok h" and tsc: "th_transport_scrambling_control h = 0"
    and tei: "\<not> th_transport_error_indicator h" and pid: "th_pid h \<noteq> NULL_PID"
    and off: "th_payload_offset h = Some off"
    and reg: "DescramblerPid (TransportStreamPid (th_pid h)) \<in> pids" and key: "key_for slot parity = Some key"
  shows "descramble_ts_packet_in_place (scramble_packet parity key off p) pids slot =
    (Ok (Descrambled (th_pid h) parity off), p)"
proof -
  let ?s = "scramble_packet parity key off p"
  note ok = parse_header_Ok [OF h]
  have o: "4 \<le> off" "off < TS_PACKET_SIZE" using ok(4) [OF off] by auto
  have b: "p ! 3 AND 0x3f = p ! 3" "(p ! 3 OR parity_bits parity) AND 0x3f = p ! 3"
    "drop_bit 6 (p ! 3 OR parity_bits parity) AND 3 = (case parity of EvenKey \<Rightarrow> 2 | OddKey \<Rightarrow> 3)"
    using parity_byte [of "p ! 3"] tsc ok(3) by simp_all
  have s: "length ?s = TS_PACKET_SIZE" "\<And>i. i < off \<Longrightarrow> ?s ! i = (if i = 3 then p ! 3 OR parity_bits parity else p ! i)"
    "take off ?s = (take off p)[3 := p ! 3 OR parity_bits parity]"
    "drop off ?s = multi2_encrypt_payload (drop off p) key"
    using ok(1) o
    by (simp_all add: scramble_packet_def hal_sizes nth_append nth_list_update drop_update_cancel list_update_append)
  have "parse_ts_packet_header ?s = Ok (h\<lparr>th_transport_scrambling_control := drop_bit 6 (?s ! 3) AND 3\<rparr>)"
    using s o ok(1) ok(5) [OF off] b by (intro parse_header_cong [OF h]) (auto simp: hal_sizes)
  moreover have "?s ! 3 = p ! 3 OR parity_bits parity" using s(2) [of 3] o by simp
  moreover have "((take off p)[3 := p ! 3 OR parity_bits parity] @ drop off p)[3 := p ! 3] = p"
    using o ok(1) by (intro nth_equalityI) (auto simp: hal_sizes nth_append nth_list_update)
  ultimately show ?thesis
    using tei pid off reg key o b s ok(1,6)
    by (cases parity) (simp_all add: descramble_ts_packet_in_place_def Let_def pid_registered
        multi2_payload_inverse nth_append hal_sizes)
qed

definition sample_packet :: bytes where
  "sample_packet = [0x47, 0x01, 0x00, 0x10] @ replicate 184 0xaa"

definition sample_key :: prepared_multi2_key where
  "sample_key = \<lparr>pk_cbc_iv = [1, 2], pk_work_key = [1, 2, 3, 4, 5, 6, 7, 8], pk_rounds = 4\<rparr>"

lemma sample_packet_header:
  "parse_ts_packet_header sample_packet = Ok \<lparr>th_pid = 0x100, th_transport_error_indicator = False,
     th_payload_unit_start = False, th_transport_scrambling_control = 0, th_adaptation_field_control = 1,
     th_continuity_counter = 0, th_payload_offset = Some 4\<rparr>"
  by (simp add: parse_ts_packet_header_def sample_packet_def hal_sizes)

theorem descramble_scrambled_witness:
  "descramble_ts_packet_in_place (scramble_packet OddKey sample_key 4 sample_packet)
     {DescramblerPid (TransportStreamPid 0x100)} (with_odd_prepared sample_key key_slot_empty) =
   (Ok (Descrambled 0x100 OddKey 4), sample_packet)"
  using descramble_scrambled [OF sample_packet_header, of 4 "{DescramblerPid (TransportStreamPid 0x100)}"
      "with_odd_prepared sample_key key_slot_empty" OddKey sample_key]
  by (simp add: NULL_PID_def key_for_def with_odd_prepared_def)

end
