(* ===== verification/Ts_Packet.thy ===== *)
theory Ts_Packet
  imports Ts_Core "HOL-Library.Monad_Syntax"
begin

unbundle bit_operations_syntax

section \<open>Validation of TS packets\<close>

text \<open>
  The first part of \<open>tuner_hal2/demux/src/parser/packet_pipeline.rs\<close>: a packet of 188 bytes is
  accepted only if its header and every field its adaptation field announces fit; the view that
  validation returns is all that the later stages read of the packet.
\<close>

datatype ts_packet_validation_error =
    WrongLength | MissingSyncByte | InvalidAdaptationControl | InvalidAdaptationLength

record ts_packet_view =
  tv_pid :: packet_pid
  tv_transport_error_indicator :: bool
  tv_payload_unit_start :: bool
  tv_priority :: bool
  tv_scrambling_control :: u8
  tv_continuity_counter :: u8
  tv_discontinuity_indicator :: bool
  tv_random_access_indicator :: bool
  tv_pcr_flag :: bool
  tv_pcr_base_90khz :: "u64 option"
  tv_opcr_flag :: bool
  tv_splicing_point_flag :: bool
  tv_private_data_flag :: bool
  tv_adaptation_extension_flag :: bool
  tv_payload :: "bytes option"

text \<open>What the adaptation field contributes to the view.\<close>

record ts_adaptation =
  ad_discontinuity_indicator :: bool
  ad_random_access_indicator :: bool
  ad_pcr_flag :: bool
  ad_pcr_base_90khz :: "u64 option"
  ad_opcr_flag :: bool
  ad_splicing_point_flag :: bool
  ad_private_data_flag :: bool
  ad_adaptation_extension_flag :: bool

definition no_adaptation :: ts_adaptation where
  "no_adaptation = \<lparr>ad_discontinuity_indicator = False, ad_random_access_indicator = False, ad_pcr_flag = False,
     ad_pcr_base_90khz = None, ad_opcr_flag = False, ad_splicing_point_flag = False,
     ad_private_data_flag = False, ad_adaptation_extension_flag = False\<rparr>"

definition pcr_base :: "bytes \<Rightarrow> nat \<Rightarrow> u64" where
  "pcr_base packet cursor =
     push_bit 25 (ucast (packet ! cursor)) OR push_bit 17 (ucast (packet ! (cursor + 1)))
     OR push_bit 9 (ucast (packet ! (cursor + 2))) OR push_bit 1 (ucast (packet ! (cursor + 3)))
     OR drop_bit 7 (ucast (packet ! (cursor + 4)))"

text \<open>
  The flags byte and the fields it announces, for an adaptation field of at least one byte that
  starts behind the length byte at \<open>offset\<close>. Every field must end within the adaptation field.
\<close>

definition parse_adaptation_field :: "bytes \<Rightarrow> nat \<Rightarrow> nat \<Rightarrow> ts_adaptation option" where
  "parse_adaptation_field packet offset adaptation_len =
     do { let flags = packet ! (offset + 1);
          let adaptation_end = offset + 1 + adaptation_len;
          let cursor = offset + 2;
          (cursor, pcr) \<leftarrow>
            (if flags AND 0x10 \<noteq> 0 then
               if adaptation_end < cursor + 6 then None
               else Some (cursor + 6, Some (pcr_base packet cursor))
             else Some (cursor, None));
          cursor \<leftarrow>
            (if flags AND 0x08 \<noteq> 0 then
               if adaptation_end < cursor + 6 then None else Some (cursor + 6)
             else Some cursor);
          cursor \<leftarrow>
            (if flags AND 0x04 \<noteq> 0 then
               if adaptation_end \<le> cursor then None else Some (cursor + 1)
             else Some cursor);
          cursor \<leftarrow>
            (if flags AND 0x02 \<noteq> 0 then
               if adaptation_end \<le> cursor then None
               else
                 let private_len = unat (packet ! cursor) in
                 if adaptation_end < cursor + 1 + private_len then None else Some (cursor + 1 + private_len)
             else Some cursor);
          _ \<leftarrow>
            (if flags AND 0x01 \<noteq> 0 then
               if adaptation_end \<le> cursor then None
               else
                 let extension_len = unat (packet ! cursor) in
                 if adaptation_end < cursor + 1 + extension_len then None else Some ()
             else Some ());
          Some \<lparr>ad_discontinuity_indicator = (flags AND 0x80 \<noteq> 0), ad_random_access_indicator = (flags AND 0x40 \<noteq> 0),
                ad_pcr_flag = (flags AND 0x10 \<noteq> 0), ad_pcr_base_90khz = pcr, ad_opcr_flag = (flags AND 0x08 \<noteq> 0),
                ad_splicing_point_flag = (flags AND 0x04 \<noteq> 0), ad_private_data_flag = (flags AND 0x02 \<noteq> 0),
                ad_adaptation_extension_flag = (flags AND 0x01 \<noteq> 0)\<rparr> }"

definition ts_view :: "bytes \<Rightarrow> ts_adaptation \<Rightarrow> bytes option \<Rightarrow> ts_packet_view" where
  "ts_view packet ad payload =
     \<lparr>tv_pid = PacketPid (from_mpeg_ts_header_bytes (packet ! 1) (packet ! 2)),
      tv_transport_error_indicator = (packet ! 1 AND 0x80 \<noteq> 0),
      tv_payload_unit_start = (packet ! 1 AND 0x40 \<noteq> 0),
      tv_priority = (packet ! 1 AND 0x20 \<noteq> 0),
      tv_scrambling_control = drop_bit 6 (packet ! 3) AND 3,
      tv_continuity_counter = packet ! 3 AND 0x0f,
      tv_discontinuity_indicator = ad_discontinuity_indicator ad,
      tv_random_access_indicator = ad_random_access_indicator ad,
      tv_pcr_flag = ad_pcr_flag ad, tv_pcr_base_90khz = ad_pcr_base_90khz ad, tv_opcr_flag = ad_opcr_flag ad,
      tv_splicing_point_flag = ad_splicing_point_flag ad, tv_private_data_flag = ad_private_data_flag ad,
      tv_adaptation_extension_flag = ad_adaptation_extension_flag ad,
      tv_payload = payload\<rparr>"

definition ts_view_validate :: "bytes \<Rightarrow> ts_packet_validation_error + ts_packet_view" where
  "ts_view_validate packet =
     (if length packet \<noteq> TS_PACKET_SIZE then Err WrongLength
      else if packet ! 0 \<noteq> 0x47 then Err MissingSyncByte
      else
        let adaptation_control = drop_bit 4 (packet ! 3) AND 3;
            offset = 4
        in if adaptation_control = 0 then Err InvalidAdaptationControl
           else if adaptation_control = 2 \<or> adaptation_control = 3 then
             if length packet \<le> offset then Err InvalidAdaptationLength
             else
               let adaptation_len = unat (packet ! offset) in
               if length packet < offset + 1 + adaptation_len then Err InvalidAdaptationLength
               else
                 (case (if 0 < adaptation_len then parse_adaptation_field packet offset adaptation_len
                        else Some no_adaptation) of
                    None \<Rightarrow> Err InvalidAdaptationLength
                  | Some ad \<Rightarrow>
                      let offset = offset + 1 + adaptation_len in
                      if adaptation_control = 2 then Ok (ts_view packet ad None)
                      else Ok (ts_view packet ad
                                 (if offset < length packet then Some (drop offset packet) else None)))
           else Ok (ts_view packet no_adaptation
                      (if offset < length packet then Some (drop offset packet) else None)))"

record validated_ts_packet =
  vp_packet :: bytes
  vp_view :: ts_packet_view

definition validate_ts_packet :: "bytes \<Rightarrow> ts_packet_validation_error + validated_ts_packet" where
  "validate_ts_packet packet =
     (if length packet \<noteq> TS_PACKET_SIZE then Err WrongLength
      else
        (case ts_view_validate packet of
           Err e \<Rightarrow> Err e
         | Ok view \<Rightarrow> Ok \<lparr>vp_packet = packet, vp_view = view\<rparr>))"

definition matches_config_tpid :: "packet_pid \<Rightarrow> i32 option \<Rightarrow> bool" where
  "matches_config_tpid pid tpid = matches_i32_config (packet_pid_ts pid) tpid"

text \<open>The packets that the pipeline is given: what validation returns.\<close>

definition vp_ok :: "validated_ts_packet \<Rightarrow> bool" where
  "vp_ok vp \<longleftrightarrow> validate_ts_packet (vp_packet vp) = Ok vp"

subsection \<open>Payload and adaptation field partition the packet\<close>

lemma ts_view_fields:
  assumes "ts_view_validate p = Ok v"
  shows "length p = TS_PACKET_SIZE" and "p ! 0 = 0x47"
    and "\<exists>ad. v = ts_view p ad (tv_payload v)"
    and "tv_payload v =
      (let afc = drop_bit 4 (p ! 3) AND 3; off = (if afc = 1 then 4 else 5 + unat (p ! 4)) in
       if afc = 2 \<or> TS_PACKET_SIZE \<le> off then None else Some (drop off p))"
    and "drop_bit 4 (p ! 3) AND 3 \<noteq> 0"
    and "drop_bit 4 (p ! 3) AND 3 = 1 \<or> 5 + unat (p ! 4) \<le> TS_PACKET_SIZE"
  using assms and_3_cases [of "drop_bit 4 (p ! 3)"]
  by (auto simp: ts_view_validate_def Let_def ts_view_def hal_sizes split: if_splits option.splits)

end
