(* ===== verification/Record_Index.thy ===== *)
theory Record_Index
  imports Ts_Packet
begin

unbundle bit_operations_syntax

section \<open>Record index events\<close>

text \<open>
  \<open>tuner_hal2/demux/src/parser/record_index.rs\<close>: for every TS packet that is recorded, an event
  with the index bits of its header and adaptation field, the PTS of a PES header and the start
  codes of its elementary stream. The parser keeps the end of a payload so that it sees start
  codes and PES headers that cross a packet boundary.
\<close>

subsection \<open>Constants\<close>

definition INVALID_FIRST_MB_IN_SLICE :: i32 where "INVALID_FIRST_MB_IN_SLICE = - 1"
definition RECORD_INDEX_PTS_ABSENT :: i64 where "RECORD_INDEX_PTS_ABSENT = - 1"
definition SC_INDEX_MASK_ABSENT :: i32 where "SC_INDEX_MASK_ABSENT = 0"

abbreviation AVC_SC_I_SLICE :: i32 where "AVC_SC_I_SLICE \<equiv> push_bit 0 1"
abbreviation AVC_SC_P_SLICE :: i32 where "AVC_SC_P_SLICE \<equiv> push_bit 1 1"
abbreviation AVC_SC_B_SLICE :: i32 where "AVC_SC_B_SLICE \<equiv> push_bit 2 1"
abbreviation AVC_SC_SI_SLICE :: i32 where "AVC_SC_SI_SLICE \<equiv> push_bit 3 1"
abbreviation AVC_SC_SP_SLICE :: i32 where "AVC_SC_SP_SLICE \<equiv> push_bit 4 1"

abbreviation HEVC_SC_SPS :: i32 where "HEVC_SC_SPS \<equiv> push_bit 0 1"
abbreviation HEVC_SC_AUD :: i32 where "HEVC_SC_AUD \<equiv> push_bit 1 1"
abbreviation HEVC_SC_BLA_W_LP :: i32 where "HEVC_SC_BLA_W_LP \<equiv> push_bit 2 1"
abbreviation HEVC_SC_BLA_W_RADL :: i32 where "HEVC_SC_BLA_W_RADL \<equiv> push_bit 3 1"
abbreviation HEVC_SC_BLA_N_LP :: i32 where "HEVC_SC_BLA_N_LP \<equiv> push_bit 4 1"
abbreviation HEVC_SC_IDR_W_RADL :: i32 where "HEVC_SC_IDR_W_RADL \<equiv> push_bit 5 1"
abbreviation HEVC_SC_IDR_N_LP :: i32 where "HEVC_SC_IDR_N_LP \<equiv> push_bit 6 1"
abbreviation HEVC_SC_TRAIL_CRA :: i32 where "HEVC_SC_TRAIL_CRA \<equiv> push_bit 7 1"

abbreviation VVC_SC_IDR_W_RADL :: i32 where "VVC_SC_IDR_W_RADL \<equiv> push_bit 0 1"
abbreviation VVC_SC_IDR_N_LP :: i32 where "VVC_SC_IDR_N_LP \<equiv> push_bit 1 1"
abbreviation VVC_SC_CRA :: i32 where "VVC_SC_CRA \<equiv> push_bit 2 1"
abbreviation VVC_SC_GDR :: i32 where "VVC_SC_GDR \<equiv> push_bit 3 1"
abbreviation VVC_SC_VPS :: i32 where "VVC_SC_VPS \<equiv> push_bit 4 1"
abbreviation VVC_SC_SPS :: i32 where "VVC_SC_SPS \<equiv> push_bit 5 1"
abbreviation VVC_SC_AUD :: i32 where "VVC_SC_AUD \<equiv> push_bit 6 1"

abbreviation RECORD_SC_TYPE_NONE :: i32 where "RECORD_SC_TYPE_NONE \<equiv> 0"
abbreviation RECORD_SC_TYPE_SC :: i32 where "RECORD_SC_TYPE_SC \<equiv> 1"
abbreviation RECORD_SC_TYPE_SC_HEVC :: i32 where "RECORD_SC_TYPE_SC_HEVC \<equiv> 2"
abbreviation RECORD_SC_TYPE_SC_AVC :: i32 where "RECORD_SC_TYPE_SC_AVC \<equiv> 3"
abbreviation RECORD_SC_TYPE_SC_VVC :: i32 where "RECORD_SC_TYPE_SC_VVC \<equiv> 4"

abbreviation DEMUX_TS_INDEX_FIRST_PACKET :: i32 where "DEMUX_TS_INDEX_FIRST_PACKET \<equiv> push_bit 0 1"
abbreviation DEMUX_TS_INDEX_PAYLOAD_UNIT_START :: i32 where "DEMUX_TS_INDEX_PAYLOAD_UNIT_START \<equiv> push_bit 1 1"
abbreviation DEMUX_TS_INDEX_CHANGE_TO_NOT_SCRAMBLED :: i32 where "DEMUX_TS_INDEX_CHANGE_TO_NOT_SCRAMBLED \<equiv> push_bit 2 1"
abbreviation DEMUX_TS_INDEX_CHANGE_TO_EVEN_SCRAMBLED :: i32 where "DEMUX_TS_INDEX_CHANGE_TO_EVEN_SCRAMBLED \<equiv> push_bit 3 1"
abbreviation DEMUX_TS_INDEX_CHANGE_TO_ODD_SCRAMBLED :: i32 where "DEMUX_TS_INDEX_CHANGE_TO_ODD_SCRAMBLED \<equiv> push_bit 4 1"
abbreviation DEMUX_TS_INDEX_DISCONTINUITY :: i32 where "DEMUX_TS_INDEX_DISCONTINUITY \<equiv> push_bit 5 1"
abbreviation DEMUX_TS_INDEX_RANDOM_ACCESS :: i32 where "DEMUX_TS_INDEX_RANDOM_ACCESS \<equiv> push_bit 6 1"
abbreviation DEMUX_TS_INDEX_PRIORITY :: i32 where "DEMUX_TS_INDEX_PRIORITY \<equiv> push_bit 7 1"
abbreviation DEMUX_TS_INDEX_PCR :: i32 where "DEMUX_TS_INDEX_PCR \<equiv> push_bit 8 1"
abbreviation DEMUX_TS_INDEX_OPCR :: i32 where "DEMUX_TS_INDEX_OPCR \<equiv> push_bit 9 1"
abbreviation DEMUX_TS_INDEX_SPLICING_POINT :: i32 where "DEMUX_TS_INDEX_SPLICING_POINT \<equiv> push_bit 10 1"
abbreviation DEMUX_TS_INDEX_PRIVATE_DATA :: i32 where "DEMUX_TS_INDEX_PRIVATE_DATA \<equiv> push_bit 11 1"
abbreviation DEMUX_TS_INDEX_ADAPTATION_EXTENSION :: i32 where "DEMUX_TS_INDEX_ADAPTATION_EXTENSION \<equiv> push_bit 12 1"

lemmas sc_consts = INVALID_FIRST_MB_IN_SLICE_def RECORD_INDEX_PTS_ABSENT_def SC_INDEX_MASK_ABSENT_def

definition supported_record_ts_index_mask :: i32 where
  "supported_record_ts_index_mask =
     DEMUX_TS_INDEX_FIRST_PACKET OR DEMUX_TS_INDEX_PAYLOAD_UNIT_START
     OR DEMUX_TS_INDEX_CHANGE_TO_NOT_SCRAMBLED OR DEMUX_TS_INDEX_CHANGE_TO_EVEN_SCRAMBLED
     OR DEMUX_TS_INDEX_CHANGE_TO_ODD_SCRAMBLED OR DEMUX_TS_INDEX_DISCONTINUITY OR DEMUX_TS_INDEX_RANDOM_ACCESS
     OR DEMUX_TS_INDEX_PRIORITY OR DEMUX_TS_INDEX_PCR OR DEMUX_TS_INDEX_OPCR OR DEMUX_TS_INDEX_SPLICING_POINT
     OR DEMUX_TS_INDEX_PRIVATE_DATA OR DEMUX_TS_INDEX_ADAPTATION_EXTENSION"

definition supported_record_sc_index_mask :: "i32 \<Rightarrow> i32" where
  "supported_record_sc_index_mask sc_index_type =
     (if sc_index_type = RECORD_SC_TYPE_NONE then 0
      else if sc_index_type = RECORD_SC_TYPE_SC
        then push_bit 0 1 OR push_bit 1 1 OR push_bit 2 1 OR push_bit 3 1
      else if sc_index_type = RECORD_SC_TYPE_SC_AVC
        then AVC_SC_I_SLICE OR AVC_SC_P_SLICE OR AVC_SC_B_SLICE OR AVC_SC_SI_SLICE OR AVC_SC_SP_SLICE
      else if sc_index_type = RECORD_SC_TYPE_SC_HEVC
        then HEVC_SC_SPS OR HEVC_SC_AUD OR HEVC_SC_BLA_W_LP OR HEVC_SC_BLA_W_RADL OR HEVC_SC_BLA_N_LP
          OR HEVC_SC_IDR_W_RADL OR HEVC_SC_IDR_N_LP OR HEVC_SC_TRAIL_CRA
      else if sc_index_type = RECORD_SC_TYPE_SC_VVC
        then VVC_SC_IDR_W_RADL OR VVC_SC_IDR_N_LP OR VVC_SC_CRA OR VVC_SC_GDR OR VVC_SC_VPS OR VVC_SC_SPS
          OR VVC_SC_AUD
      else 0)"

subsection \<open>Bits and NAL units\<close>

fun nal_to_rbsp_loop :: "nat \<Rightarrow> bytes \<Rightarrow> bytes" where
  "nal_to_rbsp_loop zero_run [] = []"
| "nal_to_rbsp_loop zero_run (byte # rest) =
     (if 2 \<le> zero_run \<and> byte = 0x03 then nal_to_rbsp_loop 0 rest
      else byte # nal_to_rbsp_loop (if byte = 0 then zero_run + 1 else 0) rest)"

definition nal_to_rbsp :: "bytes \<Rightarrow> bytes" where
  "nal_to_rbsp bs = nal_to_rbsp_loop 0 bs"

record bit_reader =
  br_bytes :: bytes
  br_bit_offset :: nat

definition bit_reader_new :: "bytes \<Rightarrow> bit_reader" where
  "bit_reader_new bs = \<lparr>br_bytes = bs, br_bit_offset = 0\<rparr>"

definition read_bit :: "bit_reader \<Rightarrow> (u8 \<times> bit_reader) option" where
  "read_bit r =
     do { byte \<leftarrow> get_opt (br_bytes r) (br_bit_offset r div 8);
          let bit = 7 - br_bit_offset r mod 8;
          Some (drop_bit bit byte AND 1, r\<lparr>br_bit_offset := br_bit_offset r + 1\<rparr>) }"

fun read_bits_loop :: "nat \<Rightarrow> u32 \<Rightarrow> bit_reader \<Rightarrow> (u32 \<times> bit_reader) option" where
  "read_bits_loop 0 val r = Some (val, r)"
| "read_bits_loop (Suc count) val r =
     do { (b, r') \<leftarrow> read_bit r; read_bits_loop count (push_bit 1 val OR ucast b) r' }"

definition read_bits :: "nat \<Rightarrow> bit_reader \<Rightarrow> (u32 \<times> bit_reader) option" where
  "read_bits count r = read_bits_loop count 0 r"

function read_ue_zeros :: "nat \<Rightarrow> bit_reader \<Rightarrow> (nat \<times> bit_reader) option" where
  "read_ue_zeros leading_zero_bits r =
     (case read_bit r of
        None \<Rightarrow> None
      | Some (b, r') \<Rightarrow>
          if b = 0 then
            if 31 < leading_zero_bits + 1 then None else read_ue_zeros (leading_zero_bits + 1) r'
          else Some (leading_zero_bits, r'))"
  by pat_completeness auto
termination read_ue_zeros
  by (relation "measure (\<lambda>(n, _). 32 - n)") auto

declare read_ue_zeros.simps [simp del]

definition read_ue :: "bit_reader \<Rightarrow> (u32 \<times> bit_reader) option" where
  "read_ue r =
     do { (leading_zero_bits, r) \<leftarrow> read_ue_zeros 0 r;
          (suffix, r) \<leftarrow> (if leading_zero_bits = 0 then Some (0, r) else read_bits leading_zero_bits r);
          Some ((push_bit leading_zero_bits 1 - 1) + suffix, r) }"

subsection \<open>Start codes\<close>

record record_start_code_info =
  sc_mask :: i32
  sc_first_mb_in_slice :: i32

text \<open>The position of the first start code prefix that is followed by at least one byte, and its length.\<close>

fun find_sc_prefix :: "bytes \<Rightarrow> (nat \<times> nat) option" where
  "find_sc_prefix (b0 # b1 # b2 # b3 # rest) =
     (if b0 = 0 \<and> b1 = 0 \<and> b2 = 1 then Some (0, 3)
      else if b0 = 0 \<and> b1 = 0 \<and> rest \<noteq> [] \<and> b2 = 0 \<and> b3 = 1 then Some (0, 4)
      else map_option (\<lambda>(i, n). (Suc i, n)) (find_sc_prefix (b1 # b2 # b3 # rest)))"
| "find_sc_prefix bs = None"

definition sc_info_of_mask :: "i32 \<Rightarrow> i32 \<Rightarrow> record_start_code_info option" where
  "sc_info_of_mask index_mask first_mb =
     (if index_mask \<noteq> 0 then Some \<lparr>sc_mask = index_mask, sc_first_mb_in_slice = first_mb\<rparr> else None)"

definition parse_generic_sc_index :: "bytes \<Rightarrow> record_start_code_info option" where
  "parse_generic_sc_index nal =
     do { code \<leftarrow> get_opt nal 0;
          let index_mask =
            (if code = 0x00 \<and> 3 \<le> length nal then
               let picture_header = be16 (nal ! 1) (nal ! 2);
                   coding_type = drop_bit 3 picture_header AND 0x07
               in if coding_type = 1 then push_bit 0 1 else if coding_type = 2 then push_bit 1 1
                  else if coding_type = 3 then push_bit 2 1 else 0
             else if code = 0xb3 then push_bit 3 1 else 0);
          sc_info_of_mask index_mask INVALID_FIRST_MB_IN_SLICE }"

definition parse_avc_sc_index :: "bytes \<Rightarrow> record_start_code_info option" where
  "parse_avc_sc_index nal =
     do { header \<leftarrow> get_opt nal 0;
          let nal_type = header AND 0x1f;
          if \<not> (1 \<le> nal_type \<and> nal_type \<le> 5) then None
          else do {
            let reader = bit_reader_new (nal_to_rbsp (drop 1 nal));
            (first_mb, reader) \<leftarrow> read_ue reader;
            (slice, reader) \<leftarrow> read_ue reader;
            let slice_type = slice mod 5;
            let index_mask =
              (if slice_type = 0 then AVC_SC_P_SLICE else if slice_type = 1 then AVC_SC_B_SLICE
               else if slice_type = 2 then AVC_SC_I_SLICE else if slice_type = 3 then AVC_SC_SP_SLICE
               else if slice_type = 4 then AVC_SC_SI_SLICE else 0);
            sc_info_of_mask index_mask first_mb } }"

definition parse_hevc_sc_index :: "bytes \<Rightarrow> record_start_code_info option" where
  "parse_hevc_sc_index nal =
     (if length nal < 2 then None
      else
        let nal_type = drop_bit 1 (nal ! 0) AND 0x3f;
            index_mask =
              (if nal_type = 33 then HEVC_SC_SPS else if nal_type = 35 then HEVC_SC_AUD
               else if nal_type = 16 then HEVC_SC_BLA_W_LP else if nal_type = 17 then HEVC_SC_BLA_W_RADL
               else if nal_type = 18 then HEVC_SC_BLA_N_LP else if nal_type = 19 then HEVC_SC_IDR_W_RADL
               else if nal_type = 20 then HEVC_SC_IDR_N_LP
               else if nal_type \<le> 9 \<or> nal_type = 21 then HEVC_SC_TRAIL_CRA else 0)
        in sc_info_of_mask index_mask INVALID_FIRST_MB_IN_SLICE)"

definition parse_vvc_sc_index :: "bytes \<Rightarrow> record_start_code_info option" where
  "parse_vvc_sc_index nal =
     (if length nal < 2 then None
      else
        let nal_type = drop_bit 3 (nal ! 1) AND 0x1f;
            index_mask =
              (if nal_type = 14 then VVC_SC_VPS else if nal_type = 15 then VVC_SC_SPS
               else if nal_type = 20 then VVC_SC_AUD else if nal_type = 7 then VVC_SC_GDR
               else if nal_type = 8 then VVC_SC_IDR_W_RADL else if nal_type = 9 then VVC_SC_IDR_N_LP
               else if nal_type = 10 then VVC_SC_CRA else 0)
        in sc_info_of_mask index_mask INVALID_FIRST_MB_IN_SLICE)"

definition parse_sc_index :: "i32 \<Rightarrow> bytes \<Rightarrow> record_start_code_info option" where
  "parse_sc_index sc_index_type nal =
     (if sc_index_type = RECORD_SC_TYPE_SC then parse_generic_sc_index nal
      else if sc_index_type = RECORD_SC_TYPE_SC_AVC then parse_avc_sc_index nal
      else if sc_index_type = RECORD_SC_TYPE_SC_HEVC then parse_hevc_sc_index nal
      else if sc_index_type = RECORD_SC_TYPE_SC_VVC then parse_vvc_sc_index nal
      else None)"

datatype pes_payload_kind = NotPes | MalformedPesPayload | ElementaryStream bytes

definition looks_like_record_index_pes_stream :: "u8 \<Rightarrow> bool" where
  "looks_like_record_index_pes_stream sid \<longleftrightarrow>
     sid \<in> {0xbc, 0xbd, 0xbe, 0xbf, 0xf0, 0xf1, 0xf2, 0xf8, 0xff} \<or>
     0xc0 \<le> sid \<and> sid \<le> 0xdf \<or> 0xe0 \<le> sid \<and> sid \<le> 0xef"

definition pes_payload_kind_of :: "bytes \<Rightarrow> pes_payload_kind" where
  "pes_payload_kind_of payload =
     (if \<not> starts_with payload [0, 0, 1] then NotPes
      else
        (case get_opt payload 3 of
           None \<Rightarrow> NotPes
         | Some sid \<Rightarrow>
             if \<not> looks_like_record_index_pes_stream sid then NotPes
             else
               (case parse_pes_header_summary payload of
                  None \<Rightarrow> MalformedPesPayload
                | Some summary \<Rightarrow>
                    (case ph_expected_len summary of
                       Some expected_len \<Rightarrow>
                         if length payload < expected_len then MalformedPesPayload
                         else if ph_payload_offset summary \<le> length payload
                         then ElementaryStream (drop (ph_payload_offset summary) payload)
                         else MalformedPesPayload
                     | None \<Rightarrow>
                         if ph_payload_offset summary \<le> length payload
                         then ElementaryStream (drop (ph_payload_offset summary) payload)
                         else MalformedPesPayload))))"

text \<open>The loop of \<open>record_sc_info\<close>; \<open>rest\<close> is the elementary stream from the offset on.\<close>

lemma find_sc_prefix_bound:
  "find_sc_prefix bs = Some (i, n) \<Longrightarrow> i + n < length bs \<and> (n = 3 \<or> n = 4)"
  by (induction bs arbitrary: i n rule: find_sc_prefix.induct) (auto split: if_splits)

function sc_scan :: "i32 \<Rightarrow> i32 \<Rightarrow> i32 \<times> i32 \<Rightarrow> bytes \<Rightarrow> i32 \<times> i32" where
  "sc_scan sc_index_type configured_mask (observed_mask, first_mb) rest =
     (case find_sc_prefix rest of
        None \<Rightarrow> (observed_mask, first_mb)
      | Some (relative, prefix_len) \<Rightarrow>
          let nal = drop (relative + prefix_len) rest;
              acc = (case parse_sc_index sc_index_type nal of
                       None \<Rightarrow> (observed_mask, first_mb)
                     | Some info \<Rightarrow>
                         (observed_mask OR sc_mask info,
                          if first_mb = INVALID_FIRST_MB_IN_SLICE \<and> sc_mask info AND configured_mask \<noteq> 0
                          then sc_first_mb_in_slice info else first_mb))
          in if length nal \<le> 1 then acc
             else sc_scan sc_index_type configured_mask acc (drop 1 nal))"
  by pat_completeness auto
termination sc_scan
  by (relation "measure (\<lambda>(_, _, _, rest). length rest)") (auto dest: find_sc_prefix_bound)

declare sc_scan.simps [simp del]

definition record_sc_info :: "bytes \<Rightarrow> i32 \<Rightarrow> i32 \<Rightarrow> record_start_code_info option" where
  "record_sc_info payload sc_index_type configured_mask =
     (if sc_index_type = RECORD_SC_TYPE_NONE \<or> configured_mask = 0 then None
      else
        (case (case pes_payload_kind_of payload of
                 ElementaryStream bs \<Rightarrow> Some bs | NotPes \<Rightarrow> Some payload | MalformedPesPayload \<Rightarrow> None) of
           None \<Rightarrow> None
         | Some es_payload \<Rightarrow>
             (case sc_scan sc_index_type configured_mask (0, INVALID_FIRST_MB_IN_SLICE) es_payload of
                (observed_mask, first_mb) \<Rightarrow> sc_info_of_mask observed_mask first_mb)))"

definition pes_time_fields :: "bytes \<Rightarrow> u64 option \<times> u64 option" where
  "pes_time_fields payload =
     (case parse_pes_header_summary payload of
        None \<Rightarrow> (None, None)
      | Some summary \<Rightarrow>
          (case ph_expected_len summary of
             Some expected_len \<Rightarrow>
               if length payload < expected_len then (None, None)
               else (ph_pts_90khz summary, ph_dts_90khz summary)
           | None \<Rightarrow> (ph_pts_90khz summary, ph_dts_90khz summary)))"

definition record_packet_pts :: "bytes \<Rightarrow> i64 option" where
  "record_packet_pts payload =
     (if starts_with payload [0, 0, 1] then fst (pes_time_fields payload) else None)"

subsection \<open>State across packets\<close>

record record_event_state =
  re_last_transport_scrambling_control :: "u8 option"
  re_sc_prefix_carry :: bytes
  re_pes_header_carry :: bytes

definition record_event_state_default :: record_event_state where
  "record_event_state_default =
     \<lparr>re_last_transport_scrambling_control = None, re_sc_prefix_carry = [], re_pes_header_carry = []\<rparr>"

definition reset_payload_state :: "record_event_state \<Rightarrow> record_event_state" where
  "reset_payload_state s = s\<lparr>re_sc_prefix_carry := [], re_pes_header_carry := []\<rparr>"

definition payload_with_sc_carry :: "bytes \<Rightarrow> record_event_state \<Rightarrow> bytes \<times> record_event_state" where
  "payload_with_sc_carry payload s =
     (let merged = re_sc_prefix_carry s @ payload;
          keep = min (length merged) 3
      in (merged, s\<lparr>re_sc_prefix_carry := (if 0 < keep then drop (length merged - keep) merged else [])\<rparr>))"

definition is_pes_start_prefix_fragment :: "bytes \<Rightarrow> bool" where
  "is_pes_start_prefix_fragment payload \<longleftrightarrow> payload = [0] \<or> payload = [0, 0]"

definition starts_with_complete_or_partial_pes_prefix :: "bytes \<Rightarrow> bool" where
  "starts_with_complete_or_partial_pes_prefix bs \<longleftrightarrow>
     starts_with bs [0, 0, 1] \<or> is_pes_start_prefix_fragment bs"

definition observe_pts :: "bytes \<Rightarrow> bool \<Rightarrow> record_event_state \<Rightarrow> i64 option \<times> record_event_state" where
  "observe_pts payload payload_unit_start s =
     (if payload_unit_start \<or> starts_with payload [0, 0, 1] then
        if starts_with payload [0, 0, 1] then
          (case record_packet_pts payload of
             Some pts \<Rightarrow> (Some pts, s\<lparr>re_pes_header_carry := []\<rparr>)
           | None \<Rightarrow> (None, s\<lparr>re_pes_header_carry := take (min (length payload) 19) payload\<rparr>))
        else if is_pes_start_prefix_fragment payload then (None, s\<lparr>re_pes_header_carry := payload\<rparr>)
        else (None, s\<lparr>re_pes_header_carry := []\<rparr>)
      else if re_pes_header_carry s = [] then (None, s)
      else
        let carry = re_pes_header_carry s @ take (min (length payload) 19) payload in
        if \<not> starts_with_complete_or_partial_pes_prefix carry then (None, s\<lparr>re_pes_header_carry := []\<rparr>)
        else
          let carry = (if 32 < length carry then take 32 carry else carry);
              pts = record_packet_pts carry
          in (pts, s\<lparr>re_pes_header_carry := (if pts \<noteq> None \<or> 19 \<le> length carry then [] else carry)\<rparr>))"

record ts_record_event_data =
  ed_pid :: packet_pid
  ed_ts_index_mask :: i32
  ed_sc_index_type :: i32
  ed_sc_index_mask_bits :: i32
  ed_byte_number :: i64
  ed_pts :: i64
  ed_first_mb_in_slice :: i32

text \<open>The index bits of a packet's header, given the scrambling control of the packet before it.\<close>

definition scrambling_change :: "u8 option \<Rightarrow> u8 \<Rightarrow> i32" where
  "scrambling_change previous now =
     (case previous of
        Some prev \<Rightarrow>
          if prev \<noteq> now then
            if now = 0 then DEMUX_TS_INDEX_CHANGE_TO_NOT_SCRAMBLED
            else if now = 2 then DEMUX_TS_INDEX_CHANGE_TO_EVEN_SCRAMBLED
            else if now = 3 then DEMUX_TS_INDEX_CHANGE_TO_ODD_SCRAMBLED else 0
          else 0
      | None \<Rightarrow>
          if now \<noteq> 0 then
            if now = 2 then DEMUX_TS_INDEX_CHANGE_TO_EVEN_SCRAMBLED
            else if now = 3 then DEMUX_TS_INDEX_CHANGE_TO_ODD_SCRAMBLED else 0
          else 0)"

definition index_bit :: "bool \<Rightarrow> i32 \<Rightarrow> i32" where
  "index_bit b m = (if b then m else 0)"

definition observed_ts_index :: "ts_packet_view \<Rightarrow> u64 \<Rightarrow> u8 option \<Rightarrow> i32" where
  "observed_ts_index view cumulative_bytes previous =
     index_bit (cumulative_bytes = 0) DEMUX_TS_INDEX_FIRST_PACKET
     OR index_bit (tv_payload_unit_start view) DEMUX_TS_INDEX_PAYLOAD_UNIT_START
     OR index_bit (tv_priority view) DEMUX_TS_INDEX_PRIORITY
     OR index_bit (tv_discontinuity_indicator view) DEMUX_TS_INDEX_DISCONTINUITY
     OR index_bit (tv_random_access_indicator view) DEMUX_TS_INDEX_RANDOM_ACCESS
     OR index_bit (tv_pcr_flag view) DEMUX_TS_INDEX_PCR
     OR index_bit (tv_opcr_flag view) DEMUX_TS_INDEX_OPCR
     OR index_bit (tv_splicing_point_flag view) DEMUX_TS_INDEX_SPLICING_POINT
     OR index_bit (tv_private_data_flag view) DEMUX_TS_INDEX_PRIVATE_DATA
     OR index_bit (tv_adaptation_extension_flag view) DEMUX_TS_INDEX_ADAPTATION_EXTENSION
     OR scrambling_change previous (tv_scrambling_control view)"

definition build_ts_record_event_data_from_validated ::
  "validated_ts_packet \<Rightarrow> u64 \<Rightarrow> i32 \<Rightarrow> i32 \<Rightarrow> i32 \<Rightarrow> record_event_state \<Rightarrow>
     ts_record_event_data option \<times> record_event_state" where
  "build_ts_record_event_data_from_validated vp cumulative_bytes configured_ts_index_mask sc_index_type
       configured_sc_index_mask_bits s =
     (let view = vp_view vp in
      if tv_transport_error_indicator view then (None, s)
      else
        let packet_payload = (case tv_payload view of Some p \<Rightarrow> p | None \<Rightarrow> []);
            observed = observed_ts_index view cumulative_bytes (re_last_transport_scrambling_control s);
            s1 = (if tv_discontinuity_indicator view then reset_payload_state s else s);
            s2 = s1\<lparr>re_last_transport_scrambling_control := Some (tv_scrambling_control view)\<rparr>;
            (pts, sc_info, s3) =
              (if tv_scrambling_control view = 0 then
                 let (pts, sa) = observe_pts packet_payload (tv_payload_unit_start view) s2;
                     (sc_payload, sb) = payload_with_sc_carry packet_payload sa
                 in (case pts of Some v \<Rightarrow> v | None \<Rightarrow> RECORD_INDEX_PTS_ABSENT,
                     record_sc_info sc_payload sc_index_type configured_sc_index_mask_bits, sb)
               else (RECORD_INDEX_PTS_ABSENT, None, reset_payload_state s2));
            first_mb = (case sc_info of Some info \<Rightarrow> sc_first_mb_in_slice info | None \<Rightarrow> INVALID_FIRST_MB_IN_SLICE);
            ts_index_mask = observed AND configured_ts_index_mask;
            sc_index_mask_bits =
              (case sc_info of Some info \<Rightarrow> sc_mask info AND configured_sc_index_mask_bits
               | None \<Rightarrow> SC_INDEX_MASK_ABSENT)
        in if ts_index_mask = 0 \<and> sc_index_mask_bits = 0 then (None, s3)
           else if 2 ^ 63 \<le> unat cumulative_bytes then (None, s3)
           else (Some \<lparr>ed_pid = tv_pid view, ed_ts_index_mask = ts_index_mask, ed_sc_index_type = sc_index_type,
                       ed_sc_index_mask_bits = sc_index_mask_bits, ed_byte_number = cumulative_bytes,
                       ed_pts = pts, ed_first_mb_in_slice = first_mb\<rparr>, s3))"

record record_index_parser =
  ri_processed_packets :: u64

definition record_index_parser_new :: record_index_parser where
  "record_index_parser_new = \<lparr>ri_processed_packets = 0\<rparr>"

definition push_validated_record_packet ::
  "validated_ts_packet \<Rightarrow> u64 \<Rightarrow> i32 \<Rightarrow> i32 \<Rightarrow> i32 \<Rightarrow> record_index_parser \<Rightarrow> record_event_state \<Rightarrow>
     ts_record_event_data option \<times> record_index_parser \<times> record_event_state" where
  "push_validated_record_packet packet cumulative_bytes configured_ts_index_mask sc_index_type
       configured_sc_index_mask_bits parser s =
     (case build_ts_record_event_data_from_validated packet cumulative_bytes configured_ts_index_mask sc_index_type
             configured_sc_index_mask_bits s of
        (data, s') \<Rightarrow>
          (data, parser\<lparr>ri_processed_packets := saturating_add_u64 (ri_processed_packets parser) 1\<rparr>, s'))"

subsection \<open>NAL units and Exp-Golomb codes\<close>

text \<open>How an encoder writes a NAL unit: a byte 3 before any byte up to 3 that follows two zeros.\<close>

fun rbsp_to_nal :: "nat \<Rightarrow> bytes \<Rightarrow> bytes" where
  "rbsp_to_nal zeros [] = []"
| "rbsp_to_nal zeros (b # bs) =
     (if 2 \<le> zeros \<and> b \<le> 3 then 3 # b # rbsp_to_nal (if b = 0 then 1 else 0) bs
      else b # rbsp_to_nal (if b = 0 then zeros + 1 else 0) bs)"

lemma nal_to_rbsp_loop_inverse: "nal_to_rbsp_loop zeros (rbsp_to_nal zeros bs) = bs"
  by (induction zeros bs rule: rbsp_to_nal.induct) auto

text \<open>
  Emulation prevention is undone exactly: for every raw byte sequence, the reader of a NAL
  unit returns the sequence the unit was written from.
\<close>

lemma nal_roundtrip: "nal_to_rbsp (rbsp_to_nal 0 bs) = bs"
  by (simp add: nal_to_rbsp_def nal_to_rbsp_loop_inverse)

text \<open>The bits of a byte sequence, most significant first.\<close>

definition bits_of :: "bytes \<Rightarrow> bool list" where
  "bits_of bs = concat (map (\<lambda>b. map (\<lambda>i. bit b (7 - i)) [0..<8]) bs)"

lemma bits_of_Nil [simp]: "bits_of [] = []"
  by (simp add: bits_of_def)

lemma length_bits_of [simp]: "length (bits_of bs) = 8 * length bs"
  by (induction bs) (simp_all add: bits_of_def)

lemma nth_bits_of: "i < 8 * length bs \<Longrightarrow> bits_of bs ! i = bit (bs ! (i div 8)) (7 - i mod 8)"
proof (induction bs arbitrary: i)
  case (Cons b bs)
  show ?case
  proof (cases "i < 8")
    case True
    then show ?thesis by (simp add: bits_of_def nth_append)
  next
    case False
    then obtain j where j: "i = 8 + j" using le_Suc_ex not_less by blast
    have "bits_of (b # bs) = map (\<lambda>i. bit b (7 - i)) [0..<8] @ bits_of bs" by (simp add: bits_of_def)
    then have "bits_of (b # bs) ! i = bits_of bs ! j" by (simp add: j nth_append)
    moreover have "(8 + j) div 8 = Suc (j div 8)" by simp
    with j have "(b # bs) ! (i div 8) = bs ! (j div 8)" "i mod 8 = j mod 8" by simp_all
    ultimately show ?thesis using Cons.IH [of j] Cons.prems j by simp
  qed
qed simp

text \<open>The unread bits of a reader.\<close>

definition unread :: "bit_reader \<Rightarrow> bool list" where
  "unread r = drop (br_bit_offset r) (bits_of (br_bytes r))"

definition advance :: "nat \<Rightarrow> bit_reader \<Rightarrow> bit_reader" where
  "advance n r = r\<lparr>br_bit_offset := br_bit_offset r + n\<rparr>"

lemma unread_advance [simp]: "unread (advance n r) = drop n (unread r)"
  by (simp add: unread_def advance_def add.commute)

lemma advance_advance [simp]: "advance m (advance n r) = advance (n + m) r"
  by (simp add: advance_def)

lemma read_bit_bits:
  assumes "br_bit_offset r < length (bits_of (br_bytes r))"
  shows "read_bit r = Some (if bits_of (br_bytes r) ! br_bit_offset r then 1 else 0, advance 1 r)"
proof -
  have "drop_bit k (b :: u8) AND 1 = (if bit b k then 1 else 0)" for b k
    by (simp add: and_one_eq odd_iff_mod_2_eq_one bit_iff_odd_drop_bit) 
  with assms show ?thesis
    by (simp add: read_bit_def advance_def get_opt_def nth_bits_of less_mult_imp_div_less mult.commute)
qed

lemma read_bit_unread:
  assumes "unread r = x # xs"
  shows "read_bit r = Some (if x then 1 else 0, advance 1 r)"
proof -
  have "br_bit_offset r < length (bits_of (br_bytes r))"
    using assms by (metis drop_all list.distinct(1) not_le unread_def)
  moreover from this have "bits_of (br_bytes r) ! br_bit_offset r = x"
    using assms by (simp add: unread_def Cons_nth_drop_Suc [symmetric])
  ultimately show ?thesis using read_bit_bits [of r] by simp
qed

lemma read_ue_zeros_run:
  assumes "unread r = replicate k False @ True # xs" and "lz + k \<le> 31"
  shows "read_ue_zeros lz r = Some (lz + k, advance (k + 1) r)"
  using assms
proof (induction k arbitrary: lz r)
  case 0
  then show ?case by (subst read_ue_zeros.simps) (simp add: read_bit_unread)
next
  case (Suc k)
  then have "read_bit r = Some (0, advance 1 r)" using read_bit_unread [of r False] by simp
  moreover have "read_ue_zeros (lz + 1) (advance 1 r) = Some (lz + 1 + k, advance (k + 1) (advance 1 r))"
    using Suc.prems by (intro Suc.IH) simp_all
  ultimately show ?case using Suc.prems by (subst read_ue_zeros.simps) simp
qed

text \<open>The \<open>n\<close> low bits of a number, most significant first.\<close>

fun low_bits_of :: "nat \<Rightarrow> nat \<Rightarrow> bool list" where
  "low_bits_of 0 s = []"
| "low_bits_of (Suc n) s = odd (s div 2 ^ n) # low_bits_of n s"

lemma length_low_bits_of [simp]: "length (low_bits_of n s) = n"
  by (induction n) simp_all

lemma shift_in_bit: "push_bit 1 (x :: u32) OR ucast (if d then 1 else 0 :: u8) = 2 * x + of_bool d"
proof (cases d)
  case True
  have "push_bit 1 x OR 1 = push_bit 1 x + 1"
    by (rule disjunctive_add [symmetric]) (auto simp: bit_simps simp del: push_bit_Suc)
  with True show ?thesis by (simp add: mult.commute)
qed (simp add: mult.commute)

lemma mod_pow_Suc: "s mod 2 ^ Suc n = of_bool (odd (s div 2 ^ n)) * 2 ^ n + s mod (2 ^ n :: nat)"
proof -
  have "s mod (2 ^ n * 2) = 2 ^ n * (s div 2 ^ n mod 2) + s mod 2 ^ n" by (rule mod_mult2_eq)
  then show ?thesis by (simp add: mod_2_eq_odd mult.commute)
qed

lemma read_bits_loop_run:
  assumes "unread r = low_bits_of n s @ xs"
  shows "read_bits_loop n x r = Some (x * 2 ^ n + of_nat (s mod 2 ^ n), advance n r)"
  using assms
proof (induction n arbitrary: x r)
  case (Suc n)
  let ?d = "odd (s div 2 ^ n)"
  have "read_bit r = Some (if ?d then 1 else 0, advance 1 r)"
    using Suc.prems by (intro read_bit_unread) simp
  moreover have "read_bits_loop n (2 * x + of_bool ?d) (advance 1 r) =
    Some ((2 * x + of_bool ?d) * 2 ^ n + of_nat (s mod 2 ^ n), advance n (advance 1 r))"
    using Suc.prems by (intro Suc.IH) simp
  moreover have "(2 * x + of_bool ?d) * 2 ^ n + of_nat (s mod 2 ^ n) = x * 2 ^ Suc n + of_nat (s mod 2 ^ Suc n)"
    unfolding mod_pow_Suc by (simp add: algebra_simps)
  ultimately show ?case by (simp only: read_bits_loop.simps bind.bind_lunit prod.case shift_in_bit) simp
qed (simp add: advance_def)

text \<open>The Exp-Golomb code of a number (ITU-T H.264, 9.1).\<close>

fun ilog2 :: "nat \<Rightarrow> nat" where
  "ilog2 n = (if n \<le> 1 then 0 else Suc (ilog2 (n div 2)))"

declare ilog2.simps [simp del]

definition ue_bits :: "nat \<Rightarrow> bool list" where
  "ue_bits v = (let n = ilog2 (v + 1) in replicate n False @ True # low_bits_of n (v + 1))"

lemma ilog2_bounds: "0 < n \<Longrightarrow> 2 ^ ilog2 n \<le> n \<and> n < 2 ^ Suc (ilog2 n)"
proof (induction n rule: ilog2.induct)
  case (1 n)
  show ?case
  proof (cases "n \<le> 1")
    case True
    with 1 show ?thesis by (simp add: ilog2.simps [of n])
  next
    case False
    with 1 show ?thesis by (simp add: ilog2.simps [of n]) linarith
  qed
qed

text \<open>
  The Exp-Golomb reader is total on what fits: wherever the code of a number below
  \<open>2 ^ 32 - 1\<close> starts, the reader returns that number without wrapping and stops behind its last
  bit.
\<close>

lemma read_ue_roundtrip:
  assumes "unread r = ue_bits v @ xs" and "v < 2 ^ 32 - 1"
  shows "read_ue r = Some (of_nat v, r\<lparr>br_bit_offset := br_bit_offset r + length (ue_bits v)\<rparr>) \<and>
    unat (of_nat v :: u32) = v"
proof -
  let ?n = "ilog2 (v + 1)"
  have b: "2 ^ ?n \<le> v + 1" "v + 1 < 2 ^ Suc ?n" using ilog2_bounds [of "v + 1"] by auto
  have "(2 :: nat) ^ ?n < 2 ^ 32" using b(1) assms(2) by linarith
  then have "?n < 32" by (rule power_less_imp_less_exp [rotated]) simp
  then have n: "?n \<le> 31" by simp
  have z: "read_ue_zeros 0 r = Some (?n, advance (?n + 1) r)"
    using read_ue_zeros_run [of r ?n "low_bits_of ?n (v + 1) @ xs" 0] assms(1) n by (simp add: ue_bits_def Let_def)
  have s: "read_bits ?n (advance (?n + 1) r) = Some (of_nat ((v + 1) mod 2 ^ ?n), advance ?n (advance (?n + 1) r))"
    using read_bits_loop_run [of "advance (?n + 1) r" ?n "v + 1" xs 0] assms(1)
    by (simp add: read_bits_def ue_bits_def Let_def)
  have "(v + 1) mod 2 ^ ?n = v + 1 - 2 ^ ?n" using b by (simp add: le_mod_geq)
  then have v: "(2 :: u32) ^ ?n - 1 + of_nat ((v + 1) mod 2 ^ ?n) = of_nat v"
    using b(1) by (simp add: of_nat_diff)
  have "(if ?n = 0 then Some (0, advance (?n + 1) r) else read_bits ?n (advance (?n + 1) r)) =
    Some (of_nat ((v + 1) mod 2 ^ ?n), advance ?n (advance (?n + 1) r))"
    using s by simp
  with z v have "read_ue r = Some (of_nat v, advance ?n (advance (?n + 1) r))"
    by (simp only: read_ue_def bind.bind_lunit prod.case push_bit_eq_mult mult_1_left)
  then show ?thesis using assms(2) by (simp add: ue_bits_def Let_def unat_of_nat advance_def)
qed

theorem read_ue_roundtrip_witness:
  "read_ue (bit_reader_new [0x28]) = Some (of_nat 4, (bit_reader_new [0x28])\<lparr>br_bit_offset := 5\<rparr>)"
proof -
  have ue: "ue_bits 4 = [False, False, True, False, True]"
    by code_simp
  have "unread (bit_reader_new [0x28]) = ue_bits 4 @ [False, False, False]"
    unfolding ue by code_simp
  from read_ue_roundtrip [OF this] show ?thesis by (simp add: ue bit_reader_new_def)
qed

subsection \<open>Soundness of events\<close>

definition mask_within :: "i32 \<Rightarrow> i32 \<Rightarrow> bool" where
  "mask_within x m \<longleftrightarrow> x AND m = x"

lemma mask_within_0 [simp]: "mask_within 0 m"
  by (simp add: mask_within_def)

lemma mask_within_or [intro]: "mask_within x m \<Longrightarrow> mask_within y m \<Longrightarrow> mask_within (x OR y) m"
  by (simp add: mask_within_def bit.conj_disj_distrib2)

lemma mask_within_bits: "mask_within x m \<longleftrightarrow> (\<forall>n. bit x n \<longrightarrow> bit m n)"
proof
  assume "mask_within x m"
  then have "bit (x AND m) n = bit x n" for n by (simp add: mask_within_def)
  then show "\<forall>n. bit x n \<longrightarrow> bit m n" by (auto simp: bit_and_iff)
next
  assume "\<forall>n. bit x n \<longrightarrow> bit m n"
  then show "mask_within x m" unfolding mask_within_def by (intro bit_word_eqI) (auto simp: bit_and_iff)
qed

lemma mask_within_and: "mask_within x m \<Longrightarrow> mask_within (x AND c) m \<and> mask_within (x AND c) c"
  by (simp add: mask_within_bits bit_and_iff)

lemma sc_info_of_mask_Some [simp]:
  "sc_info_of_mask m f = Some info \<longleftrightarrow> m \<noteq> 0 \<and> info = \<lparr>sc_mask = m, sc_first_mb_in_slice = f\<rparr>"
  by (auto simp: sc_info_of_mask_def)

abbreviation info_within :: "i32 \<Rightarrow> record_start_code_info option \<Rightarrow> bool" where
  "info_within m \<equiv> pred_option (\<lambda>info. mask_within (sc_mask info) m)"

lemma info_within_of_mask: "mask_within x m \<Longrightarrow> info_within m (sc_info_of_mask x f)"
  by (simp add: sc_info_of_mask_def)

lemma mask_within_if: "mask_within x m \<Longrightarrow> mask_within y m \<Longrightarrow> mask_within (if c then x else y) m"
  by simp

lemma pred_option_bind: "(\<And>x. v = Some x \<Longrightarrow> pred_option P (f x)) \<Longrightarrow> pred_option P (Option.bind v f)"
  by (cases v) simp_all

lemma generic_within: "info_within (supported_record_sc_index_mask RECORD_SC_TYPE_SC) (parse_generic_sc_index nal)"
  unfolding parse_generic_sc_index_def Let_def
  by (intro pred_option_bind info_within_of_mask mask_within_if)
    (simp_all add: mask_within_def supported_record_sc_index_mask_def sc_consts)

lemma avc_within: "info_within (supported_record_sc_index_mask RECORD_SC_TYPE_SC_AVC) (parse_avc_sc_index nal)"
proof -
  have guard: "info_within (supported_record_sc_index_mask RECORD_SC_TYPE_SC_AVC) (if c then None else Option.bind v f)"
    if "\<And>x. info_within (supported_record_sc_index_mask RECORD_SC_TYPE_SC_AVC) (f x)"
    for c and v :: "(u32 \<times> bit_reader) option" and f
    using that by (simp add: pred_option_bind)
  then show ?thesis
    unfolding parse_avc_sc_index_def Let_def case_prod_beta
    by (intro pred_option_bind) (rule guard, intro pred_option_bind info_within_of_mask mask_within_if;
      simp add: mask_within_def supported_record_sc_index_mask_def sc_consts)
qed

lemma hevc_within: "info_within (supported_record_sc_index_mask RECORD_SC_TYPE_SC_HEVC) (parse_hevc_sc_index nal)"
proof (cases "length nal < 2")
  case False
  then show ?thesis
    unfolding parse_hevc_sc_index_def Let_def
    by (simp only: if_False) (intro info_within_of_mask mask_within_if;
      simp add: mask_within_def supported_record_sc_index_mask_def sc_consts)
qed (simp add: parse_hevc_sc_index_def)

lemma vvc_within: "info_within (supported_record_sc_index_mask RECORD_SC_TYPE_SC_VVC) (parse_vvc_sc_index nal)"
proof (cases "length nal < 2")
  case False
  then show ?thesis
    unfolding parse_vvc_sc_index_def Let_def
    by (simp only: if_False) (intro info_within_of_mask mask_within_if;
      simp add: mask_within_def supported_record_sc_index_mask_def sc_consts)
qed (simp add: parse_vvc_sc_index_def)

lemma parse_sc_index_within:
  assumes "parse_sc_index ty nal = Some info"
  shows "mask_within (sc_mask info) (supported_record_sc_index_mask ty)"
  using assms generic_within [of nal] avc_within [of nal] hevc_within [of nal] vvc_within [of nal]
  by (auto simp: parse_sc_index_def split: if_split_asm)

lemma sc_scan_within:
  "mask_within m (supported_record_sc_index_mask ty) \<Longrightarrow>
   mask_within (fst (sc_scan ty c (m, f) bs)) (supported_record_sc_index_mask ty)"
proof (induction "length bs" arbitrary: m f bs rule: less_induct)
  case less
  show ?case
  proof (cases "find_sc_prefix bs")
    case None
    with less show ?thesis by (simp add: sc_scan.simps)
  next
    case (Some p)
    then obtain i n where p: "find_sc_prefix bs = Some (i, n)" by (cases p) simp
    let ?nal = "drop (i + n) bs"
    define acc where "acc = (case parse_sc_index ty ?nal of
                       None \<Rightarrow> (m, f)
                     | Some info \<Rightarrow>
                         (m OR sc_mask info,
                          if f = INVALID_FIRST_MB_IN_SLICE \<and> sc_mask info AND c \<noteq> 0
                          then sc_first_mb_in_slice info else f))"
    have acc: "mask_within (fst acc) (supported_record_sc_index_mask ty)"
      using less.prems parse_sc_index_within [of ty ?nal] by (auto simp: acc_def split: option.split)
    have "sc_scan ty c (m, f) bs = (if length ?nal \<le> 1 then acc else sc_scan ty c acc (drop 1 ?nal))"
      using p by (subst sc_scan.simps) (simp add: Let_def acc_def)
    moreover have "mask_within (fst (sc_scan ty c acc (drop 1 ?nal))) (supported_record_sc_index_mask ty)"
      using less.hyps [of "drop 1 ?nal" "fst acc" "snd acc"] acc find_sc_prefix_bound [OF p] by auto
    ultimately show ?thesis using acc by simp
  qed
qed

lemma record_sc_info_within:
  "record_sc_info bs ty c = Some info \<Longrightarrow> mask_within (sc_mask info) (supported_record_sc_index_mask ty)"
  using sc_scan_within [of 0 ty c INVALID_FIRST_MB_IN_SLICE]
  by (auto simp: record_sc_info_def split: if_split_asm option.split_asm prod.split_asm) (metis fst_conv)

lemma ts_index_within: "mask_within (observed_ts_index view n prev) supported_record_ts_index_mask"
  unfolding observed_ts_index_def
  by (intro mask_within_or)
    (simp_all add: index_bit_def scrambling_change_def mask_within_def
      supported_record_ts_index_mask_def split: option.split)

lemma sint_nonneg_of_unat:
  assumes "unat (n :: u64) < 2 ^ 63"
  shows "0 \<le> sint n"
proof -
  have "bit (take_bit 63 (unat n)) 63 = bit n 63"
    by (simp only: take_bit_nat_eq_self [OF assms]) (simp add: bit_unsigned_iff)
  then have "\<not> bit n 63" by (simp add: bit_take_bit_iff)
  then show ?thesis using bit_last_iff [of n] by (simp add: not_less)
qed

text \<open>
  C35. Events are sound: an event names the packet's PID and the byte position it was given,
  which fits a signed 64-bit number; it has at least one index bit, and only bits that are both
  configured and defined for the configured type; and a scrambled packet contributes neither a
  start code nor a PTS.
\<close>

theorem record_event_sound:
  assumes "build_ts_record_event_data_from_validated vp n ts_cfg ty sc_cfg s = (Some ev, s')"
  shows "ed_pid ev = tv_pid (vp_view vp) \<and> ed_byte_number ev = n \<and> 0 \<le> sint (ed_byte_number ev) \<and>
    (ed_ts_index_mask ev \<noteq> 0 \<or> ed_sc_index_mask_bits ev \<noteq> 0) \<and>
    mask_within (ed_ts_index_mask ev) ts_cfg \<and>
    mask_within (ed_ts_index_mask ev) supported_record_ts_index_mask \<and>
    mask_within (ed_sc_index_mask_bits ev) sc_cfg \<and>
    mask_within (ed_sc_index_mask_bits ev) (supported_record_sc_index_mask ty) \<and>
    (tv_scrambling_control (vp_view vp) \<noteq> 0 \<longrightarrow>
       ed_sc_index_mask_bits ev = 0 \<and> ed_pts ev = RECORD_INDEX_PTS_ABSENT)"
proof -
  let ?view = "vp_view vp" and ?tsc = "tv_scrambling_control (vp_view vp)"
  have n: "0 \<le> sint n" if "unat n < 2 ^ 63"
    using that by (simp add: sint_nonneg_of_unat)
  obtain pts sc_info where tsc: "?tsc \<noteq> 0 \<longrightarrow> sc_info = None \<and> pts = RECORD_INDEX_PTS_ABSENT"
    and sc: "\<And>info. sc_info = Some info \<Longrightarrow> \<exists>x. record_sc_info x ty sc_cfg = Some info"
    and ev: "ed_pid ev = tv_pid ?view" "ed_byte_number ev = n" "unat n < 2 ^ 63" "ed_pts ev = pts"
      "ed_ts_index_mask ev = observed_ts_index ?view n (re_last_transport_scrambling_control s) AND ts_cfg"
      "ed_sc_index_mask_bits ev = (case sc_info of Some info \<Rightarrow> sc_mask info AND sc_cfg | None \<Rightarrow> SC_INDEX_MASK_ABSENT)"
      "ed_ts_index_mask ev \<noteq> 0 \<or> ed_sc_index_mask_bits ev \<noteq> 0"
  proof (cases "?tsc = 0")
    case True
    obtain pts sa where pts: "observe_pts (case tv_payload ?view of Some p \<Rightarrow> p | None \<Rightarrow> []) (tv_payload_unit_start ?view)
      ((if tv_discontinuity_indicator ?view then reset_payload_state s else s)
         \<lparr>re_last_transport_scrambling_control := Some 0\<rparr>) = (pts, sa)" by fastforce
    obtain sc sb where sc: "payload_with_sc_carry (case tv_payload ?view of Some p \<Rightarrow> p | None \<Rightarrow> []) sa = (sc, sb)"
      by fastforce
    from assms True pts sc show ?thesis
      by (intro that [of "record_sc_info sc ty sc_cfg" "case pts of Some v \<Rightarrow> v | None \<Rightarrow> RECORD_INDEX_PTS_ABSENT"])
        (auto simp: build_ts_record_event_data_from_validated_def Let_def split: if_split_asm)
  next
    case False
    with assms show ?thesis
      by (intro that [of None RECORD_INDEX_PTS_ABSENT])
        (auto simp: build_ts_record_event_data_from_validated_def Let_def split: if_split_asm)
  qed
  have "mask_within (ed_ts_index_mask ev) ts_cfg \<and> mask_within (ed_ts_index_mask ev) supported_record_ts_index_mask"
    using mask_within_and [OF ts_index_within] ev(5) by simp
  moreover have "mask_within (ed_sc_index_mask_bits ev) sc_cfg \<and>
    mask_within (ed_sc_index_mask_bits ev) (supported_record_sc_index_mask ty)"
    using sc mask_within_and [OF record_sc_info_within] ev(6)
    by (cases sc_info) (auto simp: SC_INDEX_MASK_ABSENT_def)
  ultimately show ?thesis using n ev tsc by (auto simp: SC_INDEX_MASK_ABSENT_def)
qed

definition sample_record_packet :: validated_ts_packet where
  "sample_record_packet = \<lparr>vp_packet = [],
     vp_view = (ts_view [0x47, 0x41, 0x00, 0x20] no_adaptation None)\<rparr>"

theorem record_event_sound_witness:
  "\<exists>ev s'. build_ts_record_event_data_from_validated sample_record_packet 0 3 RECORD_SC_TYPE_NONE 0
      record_event_state_default = (Some ev, s') \<and> ed_ts_index_mask ev = 3 \<and>
    mask_within (ed_ts_index_mask ev) supported_record_ts_index_mask \<and> 0 \<le> sint (ed_byte_number ev)"
proof -
  have "\<exists>ev s'. build_ts_record_event_data_from_validated sample_record_packet 0 3 RECORD_SC_TYPE_NONE 0
      record_event_state_default = (Some ev, s') \<and> ed_ts_index_mask ev = 3"
    by (simp add: build_ts_record_event_data_from_validated_def sample_record_packet_def ts_view_def no_adaptation_def
        Let_def observed_ts_index_def index_bit_def scrambling_change_def observe_pts_def
        starts_with_def record_event_state_default_def payload_with_sc_carry_def record_sc_info_def
        SC_INDEX_MASK_ABSENT_def)
  with record_event_sound [of sample_record_packet 0 3 RECORD_SC_TYPE_NONE 0 record_event_state_default]
  show ?thesis by blast
qed

subsection \<open>Start codes across packet boundaries\<close>

definition start_code_at :: "bytes \<Rightarrow> nat \<Rightarrow> bool" where
  "start_code_at bs i \<longleftrightarrow> i + 3 < length bs \<and> bs ! i = 0 \<and> bs ! (i + 1) = 0 \<and> bs ! (i + 2) = 1"

lemma start_code_at_Suc: "start_code_at (b # bs) (Suc i) = start_code_at bs i"
  by (simp add: start_code_at_def add.commute)

lemma start_code_at_drop: "start_code_at (drop n bs) i = start_code_at bs (n + i)"
  by (auto simp: start_code_at_def add.assoc)

lemma start_code_at_0: "start_code_at (b0 # b1 # b2 # b3 # rest) 0 \<longleftrightarrow> b0 = 0 \<and> b1 = 0 \<and> b2 = 1"
  by (simp add: start_code_at_def numeral_2_eq_2)

lemma find_sc_prefix_None: "find_sc_prefix bs = None \<longleftrightarrow> (\<forall>i. \<not> start_code_at bs i)"
proof (induction bs rule: find_sc_prefix.induct)
  case (1 b0 b1 b2 b3 rest)
  let ?tl = "b1 # b2 # b3 # rest"
  have split: "(\<forall>i. \<not> start_code_at (b0 # ?tl) i) \<longleftrightarrow> \<not> start_code_at (b0 # ?tl) 0 \<and> (\<forall>i. \<not> start_code_at ?tl i)"
    using start_code_at_Suc [of b0 ?tl] by (metis nat.exhaust)
  show ?case
  proof (cases "b0 = 0 \<and> b1 = 0 \<and> b2 = 1")
    case True
    then show ?thesis unfolding split start_code_at_0 by simp
  next
    case plain: False
    show ?thesis
    proof (cases "b0 = 0 \<and> b1 = 0 \<and> rest \<noteq> [] \<and> b2 = 0 \<and> b3 = 1")
      case True
      then have "start_code_at ?tl 0" by (cases rest) (simp_all add: start_code_at_0)
      with True plain show ?thesis unfolding split by auto
    next
      case False
      with plain have "find_sc_prefix (b0 # ?tl) = map_option (\<lambda>(i, n). (Suc i, n)) (find_sc_prefix ?tl)"
        by (simp only: find_sc_prefix.simps if_False)
      with 1 [OF plain False] plain show ?thesis unfolding split start_code_at_0 by simp
    qed
  qed
qed (auto simp: start_code_at_def)

lemma find_sc_prefix_first:
  "find_sc_prefix bs = Some (i, n) \<Longrightarrow>
     start_code_at bs (i + n - 3) \<and> (\<forall>j < i + n - 3. \<not> start_code_at bs j)"
proof (induction bs arbitrary: i n rule: find_sc_prefix.induct)
  case (1 b0 b1 b2 b3 rest)
  let ?tl = "b1 # b2 # b3 # rest"
  show ?case
  proof (cases "b0 = 0 \<and> b1 = 0 \<and> b2 = 1")
    case True
    with "1.prems" show ?thesis by (auto simp: start_code_at_0)
  next
    case plain: False
    show ?thesis
    proof (cases "b0 = 0 \<and> b1 = 0 \<and> rest \<noteq> [] \<and> b2 = 0 \<and> b3 = 1")
      case True
      then have "start_code_at ?tl 0" by (cases rest) (simp_all add: start_code_at_0)
      moreover from True "1.prems" plain have "i = 0" "n = 4" by auto
      ultimately show ?thesis
        using plain start_code_at_Suc [of b0 ?tl 0] by (simp add: start_code_at_0)
    next
      case False
      with "1.prems" plain obtain k where k: "i = Suc k" "find_sc_prefix ?tl = Some (k, n)" by auto
      from "1.IH" [OF plain False k(2)] find_sc_prefix_bound [OF k(2)] have
        ih: "start_code_at ?tl (k + n - 3)" "\<forall>j < k + n - 3. \<not> start_code_at ?tl j" "3 \<le> n" by auto
      have "\<not> start_code_at (b0 # ?tl) j" if "j < Suc (k + n - 3)" for j
        using that ih(2) plain by (cases j) (simp_all add: start_code_at_0 start_code_at_Suc)
      moreover have "i + n - 3 = Suc (k + n - 3)" using ih(3) k(1) by simp
      ultimately show ?thesis using ih(1) by (simp add: start_code_at_Suc)
    qed
  qed
qed simp_all

text \<open>The state after a sequence of payloads, and what it carries: their last three bytes.\<close>

definition sc_carry_after :: "bytes list \<Rightarrow> record_event_state" where
  "sc_carry_after ps = foldl (\<lambda>s p. snd (payload_with_sc_carry p s)) record_event_state_default ps"

lemma payload_with_sc_carry_eq:
  "payload_with_sc_carry p s =
     (re_sc_prefix_carry s @ p,
      s\<lparr>re_sc_prefix_carry := drop (length (re_sc_prefix_carry s @ p) - 3) (re_sc_prefix_carry s @ p)\<rparr>)"
  by (auto simp: payload_with_sc_carry_def Let_def min_def)

lemma carry_is_last_three:
  "re_sc_prefix_carry (sc_carry_after ps) = drop (length (concat ps) - 3) (concat ps)"
proof (induction ps rule: rev_induct)
  case (snoc p ps)
  let ?c = "concat ps"
  have "drop (length (drop (length ?c - 3) ?c @ p) - 3) (drop (length ?c - 3) ?c @ p) =
    drop (length (?c @ p) - 3) (?c @ p)"
    by (cases "3 \<le> length ?c") (auto simp: drop_append add.commute)
  with snoc show ?case by (simp add: sc_carry_after_def payload_with_sc_carry_eq)
qed (simp add: sc_carry_after_def record_event_state_default_def)

text \<open>
  C34. No start code is missed or seen twice because packets cut the stream: when a payload is
  scanned behind the carried bytes, the scanner stops at the first start code of the whole
  stream whose first NAL byte lies in this payload, and finds none exactly if there is none.
\<close>

theorem start_code_seen_once:
  "let seen = fst (payload_with_sc_carry p (sc_carry_after ps));
       new = (\<lambda>i. start_code_at (concat ps @ p) i \<and> length (concat ps) \<le> i + 3)
   in case find_sc_prefix seen of
      None \<Rightarrow> \<forall>i. \<not> new i
    | Some (i, n) \<Rightarrow> let first = length (concat ps) - 3 + (i + n - 3) in new first \<and> (\<forall>j < first. \<not> new j)"
proof -
  let ?k = "length (concat ps) - 3" and ?seen = "fst (payload_with_sc_carry p (sc_carry_after ps))"
  have "?seen = drop ?k (concat ps @ p)"
    by (simp add: payload_with_sc_carry_eq carry_is_last_three drop_append)
  then have at: "start_code_at ?seen i = start_code_at (concat ps @ p) (?k + i)" for i
    by (simp only: start_code_at_drop)
  have new: "start_code_at (concat ps @ p) i \<and> length (concat ps) \<le> i + 3 \<longleftrightarrow>
    ?k \<le> i \<and> start_code_at ?seen (i - ?k)" for i
    unfolding at by auto
  show ?thesis
    unfolding Let_def new using find_sc_prefix_None [of ?seen] find_sc_prefix_first [of ?seen]
    by (auto split: option.split)
qed

theorem start_code_seen_once_witness:
  "find_sc_prefix (fst (payload_with_sc_carry [1, 0xe0] (sc_carry_after [[0x55, 0, 0]]))) = Some (1, 3) \<and>
    start_code_at [0x55, 0, 0, 1, 0xe0] 1"
  proof -
  have "find_sc_prefix (fst (payload_with_sc_carry [1, 0xe0] (sc_carry_after [[0x55, 0, 0]]))) = Some (1, 3)"
    by code_simp
  then show ?thesis using start_code_seen_once [of "[1, 0xe0]" "[[0x55, 0, 0]]"] by (simp add: Let_def)
qed

definition re_bounded :: "record_event_state \<Rightarrow> bool" where
  "re_bounded s \<longleftrightarrow> length (re_sc_prefix_carry s) \<le> 3 \<and> length (re_pes_header_carry s) \<le> 32"

lemma re_bounded_carry: "re_bounded s \<Longrightarrow> re_bounded (snd (payload_with_sc_carry p s))"
  by (auto simp: re_bounded_def payload_with_sc_carry_def Let_def)

lemma re_bounded_observe:
  assumes "re_bounded s"
  shows "re_bounded (snd (observe_pts p pusi s))"
proof -
  have "is_pes_start_prefix_fragment p \<Longrightarrow> length p \<le> 32" by (auto simp: is_pes_start_prefix_fragment_def)
  with assms show ?thesis
    unfolding observe_pts_def Let_def re_bounded_def by (simp add: min.coboundedI2 split: option.split)
qed

lemma re_bounded_upd [simp]:
  "re_bounded (reset_payload_state s)" "re_bounded (s\<lparr>re_last_transport_scrambling_control := x\<rparr>) = re_bounded s"
  by (simp_all add: re_bounded_def reset_payload_state_def)

lemma re_bounded_build:
  "re_bounded s \<Longrightarrow> re_bounded (snd (build_ts_record_event_data_from_validated vp n m t c s))"
  by (simp add: build_ts_record_event_data_from_validated_def Let_def case_prod_unfold re_bounded_carry re_bounded_observe)

text \<open>
  The memory of the record index is bounded: after any sequence of packets, of any PIDs and
  contents, it carries at most three bytes for start codes and 32 bytes of a PES header.
\<close>

lemma record_state_bounded:
  "re_bounded (fold (\<lambda>(vp, n) s. snd (build_ts_record_event_data_from_validated vp n m t c s)) packets
     record_event_state_default)"
proof -
  have "re_bounded (fold (\<lambda>(vp, n) s. snd (build_ts_record_event_data_from_validated vp n m t c s)) packets s)"
    if "re_bounded s" for s
    using that by (induction packets arbitrary: s) (auto intro: re_bounded_build)
  then show ?thesis by (simp add: re_bounded_def record_event_state_default_def)
qed

subsection \<open>Two limits of the scanner\<close>

lemmas sc_eval = record_sc_info_def pes_payload_kind_of_def starts_with_def sc_scan.simps parse_sc_index_def
  parse_hevc_sc_index_def parse_pes_header_summary_def parse_pes_header_status_def
  pes_stream_has_optional_header_def looks_like_record_index_pes_stream_def sc_info_of_mask_def sc_consts
  get_opt_def payload_with_sc_carry_def record_event_state_default_def numeral_3_eq_3

text \<open>
  A HEVC start code is read only with two bytes of its NAL header. When the first of them ends a
  payload, the carried bytes no longer hold the whole prefix: the SPS of the stream below is
  found in one payload and in none of the two it is cut into.
\<close>

theorem hevc_start_code_cut_after_first_byte:
  "let p1 = [0xaa, 0, 0, 1, 0x42]; p2 = [0x01, 0x02, 0x03];
       (m1, s1) = payload_with_sc_carry p1 record_event_state_default;
       (m2, s2) = payload_with_sc_carry p2 s1
   in record_sc_info (p1 @ p2) RECORD_SC_TYPE_SC_HEVC 1 \<noteq> None \<and>
      record_sc_info m1 RECORD_SC_TYPE_SC_HEVC 1 = None \<and> record_sc_info m2 RECORD_SC_TYPE_SC_HEVC 1 = None"
  by (simp add: sc_eval)

text \<open>
  A payload that starts with a malformed PES header is not scanned on its own, but it is scanned
  as a raw elementary stream as soon as bytes of an earlier payload are carried before it.
\<close>

theorem malformed_pes_scanned_behind_carry:
  "let p = [0, 0, 1, 0xe0, 0, 0, 0, 0, 0, 0, 0, 1, 0x42, 0x01];
       (m, s) = payload_with_sc_carry p (record_event_state_default\<lparr>re_sc_prefix_carry := [0xaa, 0xbb, 0xcc]\<rparr>)
   in record_sc_info p RECORD_SC_TYPE_SC_HEVC 1 = None \<and> record_sc_info m RECORD_SC_TYPE_SC_HEVC 1 \<noteq> None"
  by (simp add: sc_eval)

text \<open>
  The PTS of a packet of declared length is reported only if the whole packet is at hand.
\<close>

lemma pts_needs_whole_packet:
  assumes "parse_pes_header_summary p = Some h" and "ph_expected_len h = Some e" and "length p < e"
  shows "record_packet_pts p = None"
  using assms by (simp add: record_packet_pts_def pes_time_fields_def)

end
