(* ===== verification/Demux_Config.thy ===== *)
theory Demux_Config
  imports Ts_Packet
begin

section \<open>Filter configuration and the types the demux layers share\<close>

text \<open>
  \<open>tuner_hal2/demux/src/config.rs\<close>, the origin of a TS packet (\<open>demux/src/lib.rs\<close>), the AV event
  types (\<open>demux/src/av/event.rs\<close>, \<open>slot.rs\<close>) and the small enumerations of the demux runtime that
  pipeline reports carry. A file handle is its descriptor number.
\<close>

subsection \<open>Where a packet comes from\<close>

datatype ts_input_origin =
    OriginFrontend (frontend_generation: u64)
  | OriginPlaybackDvr (origin_dvr_id: i32) (queue_identity: u64) (queue_epoch: u64)
  | OriginSourceFilter (source_filter_id: i32) (source_filter_generation: u64)

subsection \<open>Filters\<close>

datatype pipeline_open_kind = KindRaw | KindPcr | KindRecord | KindSection | KindPes | KindAv | KindOther

datatype filter_open_type =
    OpenTsUndefined | OpenTsRaw | OpenTsPcr | OpenTsAudio | OpenTsVideo | OpenTsSection | OpenTsPes | OpenTsRecord

definition is_media_filter :: "filter_open_type \<Rightarrow> bool" where
  "is_media_filter t \<longleftrightarrow> t \<in> {OpenTsAudio, OpenTsVideo}"

definition has_filter_fmq :: "filter_open_type \<Rightarrow> bool" where
  "has_filter_fmq t \<longleftrightarrow> t \<in> {OpenTsRaw, OpenTsSection, OpenTsPes, OpenTsRecord}"

definition uses_filter_fmq_for_payload :: "filter_open_type \<Rightarrow> bool" where
  "uses_filter_fmq_for_payload t \<longleftrightarrow> t \<in> {OpenTsRaw, OpenTsSection, OpenTsPes}"

fun pipeline_open_kind_of :: "filter_open_type \<Rightarrow> pipeline_open_kind" where
  "pipeline_open_kind_of OpenTsUndefined = KindRaw"
| "pipeline_open_kind_of OpenTsRaw = KindRaw"
| "pipeline_open_kind_of OpenTsPcr = KindPcr"
| "pipeline_open_kind_of OpenTsAudio = KindAv"
| "pipeline_open_kind_of OpenTsVideo = KindAv"
| "pipeline_open_kind_of OpenTsSection = KindSection"
| "pipeline_open_kind_of OpenTsPes = KindPes"
| "pipeline_open_kind_of OpenTsRecord = KindRecord"

fun from_pipeline_open_kind :: "pipeline_open_kind \<Rightarrow> filter_open_type option" where
  "from_pipeline_open_kind KindRaw = Some OpenTsRaw"
| "from_pipeline_open_kind KindPcr = Some OpenTsPcr"
| "from_pipeline_open_kind KindAv = None"
| "from_pipeline_open_kind KindSection = Some OpenTsSection"
| "from_pipeline_open_kind KindPes = Some OpenTsPes"
| "from_pipeline_open_kind KindRecord = Some OpenTsRecord"
| "from_pipeline_open_kind KindOther = Some OpenTsUndefined"

datatype section_condition_kind = SectionBits | TableInfo

record section_condition =
  cond_kind :: section_condition_kind
  cond_filter :: bytes
  cond_mask :: bytes
  cond_mode :: bytes
  cond_table_id :: "i32 option"
  cond_version :: "i32 option"

record section_runtime_config =
  src_check_crc :: bool
  src_repeat :: bool
  src_length_field_bits :: i32
  src_condition :: section_condition

record record_index_settings =
  ris_ts_index_mask :: i32
  ris_sc_index_type :: i32
  ris_sc_index_mask :: i32

record pes_settings =
  pes_set_stream_id :: i32
  pes_set_raw :: bool

definition PES_STREAM_ID_WILDCARD :: i32 where "PES_STREAM_ID_WILDCARD = 0xffff"

record av_settings =
  av_is_passthrough :: bool
  av_is_secure_memory :: bool

datatype filter_config_kind =
    ConfigTsRaw
  | ConfigTsSection bool bool bool i32 section_condition
  | ConfigTsAv av_settings
  | ConfigTsPes pes_settings
  | ConfigTsRecord record_index_settings

record filter_config =
  fc_open_type :: filter_open_type
  fc_tpid :: i32
  fc_kind :: filter_config_kind

datatype config_input_pid = ConfigInputPid (config_ts_pid: transport_stream_pid)

definition validate_tpid :: "i32 \<Rightarrow> config_input_pid option" where
  "validate_tpid pid = (case validate_i32 pid of Ok p \<Rightarrow> Some (ConfigInputPid p) | Err _ \<Rightarrow> None)"

definition config_pid_raw :: "config_input_pid \<Rightarrow> i32" where
  "config_pid_raw p = to_i32_for_aidl_boundary (config_ts_pid p)"

definition from_config_pid :: "config_input_pid \<Rightarrow> packet_pid" where
  "from_config_pid p = PacketPid (config_ts_pid p)"

definition validated_tpid :: "filter_config \<Rightarrow> config_input_pid option" where
  "validated_tpid c = validate_tpid (fc_tpid c)"

record filter_pipeline_config =
  fpc_tpid :: "i32 option"
  fpc_raw :: bool
  fpc_record_index :: "record_index_settings option"

definition filter_pipeline_config_default :: filter_pipeline_config where
  "filter_pipeline_config_default = \<lparr>fpc_tpid = None, fpc_raw = False, fpc_record_index = None\<rparr>"

definition pipeline_config :: "filter_config \<Rightarrow> filter_pipeline_config" where
  "pipeline_config c =
     \<lparr>fpc_tpid = map_option config_pid_raw (validated_tpid c),
      fpc_raw = (case fc_kind c of ConfigTsSection _ _ raw _ _ \<Rightarrow> raw | ConfigTsPes s \<Rightarrow> pes_set_raw s | _ \<Rightarrow> False),
      fpc_record_index = (case fc_kind c of ConfigTsRecord s \<Rightarrow> Some s | _ \<Rightarrow> None)\<rparr>"

definition section_runtime_config_of :: "filter_config \<Rightarrow> section_runtime_config option" where
  "section_runtime_config_of c =
     (case fc_kind c of
        ConfigTsSection check_crc rpt _ length_field_bits condition \<Rightarrow>
          Some \<lparr>src_check_crc = check_crc, src_repeat = rpt, src_length_field_bits = length_field_bits,
                src_condition = condition\<rparr>
      | _ \<Rightarrow> None)"

subsection \<open>Delivery delays\<close>

record filter_delay_hints =
  time_delay_ms :: "u64 option"
  data_size_delay_bytes :: "nat option"

datatype filter_delay_readiness = DelayReady | WaitingForTime | WaitingForDataSize

definition delivery_readiness :: "filter_delay_hints \<Rightarrow> u64 \<Rightarrow> nat \<Rightarrow> filter_delay_readiness" where
  "delivery_readiness h elapsed_ms queued_bytes =
     (let t = (case time_delay_ms h of Some t \<Rightarrow> t | None \<Rightarrow> 0);
          d = (case data_size_delay_bytes h of Some d \<Rightarrow> d | None \<Rightarrow> 0)
      in if t = 0 \<and> d = 0 then DelayReady
         else if 0 < t \<and> t \<le> elapsed_ms then DelayReady
         else if 0 < d \<and> d \<le> queued_bytes then DelayReady
         else if 0 < t then WaitingForTime
         else WaitingForDataSize)"

subsection \<open>Events and errors of the demux runtime\<close>

datatype filter_status_event = StatusDataReady | StatusLowWater | StatusHighWater | StatusOverflow

datatype av_slot_id = AvSlotId u32
datatype av_data_id = AvDataId i64

record av_media_event_metadata =
  md_stream_id :: u8
  md_is_pts_present :: bool
  md_pts_90khz :: "u64 option"
  md_is_dts_present :: bool
  md_dts_90khz :: "u64 option"
  md_is_pes_private_data :: bool

definition metadata_from_pes :: "u8 \<Rightarrow> u64 option \<Rightarrow> u64 option \<Rightarrow> bool \<Rightarrow> av_media_event_metadata" where
  "metadata_from_pes stream_id pts dts private_data =
     \<lparr>md_stream_id = stream_id, md_is_pts_present = (pts \<noteq> None), md_pts_90khz = pts,
      md_is_dts_present = (dts \<noteq> None), md_dts_90khz = dts, md_is_pes_private_data = private_data\<rparr>"

definition from_pes_with_authoritative_pts ::
  "u8 \<Rightarrow> u64 option \<Rightarrow> u64 \<Rightarrow> u64 option \<Rightarrow> bool \<Rightarrow> av_media_event_metadata" where
  "from_pes_with_authoritative_pts stream_id pes_pts authoritative_pts dts private_data =
     \<lparr>md_stream_id = stream_id, md_is_pts_present = (pes_pts \<noteq> None), md_pts_90khz = Some authoritative_pts,
      md_is_dts_present = (dts \<noteq> None), md_dts_90khz = dts, md_is_pes_private_data = private_data\<rparr>"

record av_media_event_descriptor =
  md_data_id :: av_data_id
  md_slot_id :: av_slot_id
  md_offset :: nat
  md_data_length :: nat
  md_metadata :: av_media_event_metadata
  md_event_local_file :: "nat option"

datatype av_shared_backing_error =
    AvInvariantViolation | AvAllocationFailed | AvDuplicateFailed | AvIdentityFailed | AvMappingFailed
  | AvUnmappingFailed

datatype demux_runtime_error_kind =
    FilterMissing | DvrMissing | QueueMissing | DemuxInvalidState | InvalidDvrFilter | UnsupportedDvrOperation
  | SourceLifecycle | SinkLifecycle | InvalidSourceSubtype | InvalidSinkSubtype | SelfReference | PidMismatch
  | PipelineFailed | GenerationExhausted | QueueRuntimeFailure | QueueRuntimeFailureRollbackFailed
  | AvBackingFailure | SourceBoundaryRollbackFailed | RelationCommitUnknown

record demux_runtime_error =
  dre_kind :: demux_runtime_error_kind
  dre_id :: "i32 option"

datatype packet_descramble_policy_failure =
    PolicyNoKey | PolicyScrambledPidNotRegistered | PolicyTransportErrorRecord | PolicyInvalidTsc
  | PolicyScrambledNullPid | PolicyScrambledWithoutPayload | PolicyBadToken | PolicyMulti2Fail | PolicyInvalidPacket

subsection \<open>A configured PID selects exactly its packets\<close>

lemma validate_i32_Ok:
  assumes "validate_i32 pid = Ok p"
  shows "to_i32_for_aidl_boundary p = pid" and "valid_pid p"
proof -
  from assms have s: "0 \<le> sint pid" "sint pid \<le> 0x1fff" and p: "p = TransportStreamPid (ucast pid)"
    by (auto simp: validate_i32_def split: if_splits)
  have u: "uint pid = sint pid"
    using s by (simp add: uint_sint take_bit_int_eq_self)
  have le: "unat pid \<le> 0x1fff" using u s by (simp add: unat_eq_nat_uint nat_le_iff)
  have "unat (ucast pid :: u16) = unat pid"
    using le by (simp add: unsigned_ucast_eq take_bit_nat_eq_self)
  then show "valid_pid p" using le by (simp add: p valid_pid_def word_le_nat_alt)
  have "unat (ucast (ucast pid :: u16) :: i32) = unat pid"
    using le by (simp add: unsigned_ucast_eq unsigned_take_bit_eq take_bit_nat_eq_self)
  then show "to_i32_for_aidl_boundary p = pid" by (simp add: p to_i32_for_aidl_boundary_def word_unat_eq_iff)
qed

end
