(* ===== verification/Pipeline_State.thy ===== *)
theory Pipeline_State
  imports Demux_Config Record_Index Sections Ts_Framing
begin

section \<open>State and reports of the packet pipeline\<close>

text \<open>
  The types of \<open>tuner_hal2/demux/src/parser/packet_pipeline.rs\<close>: reports, diagnostics and their
  counters, the filter views the runtime passes in, the pipeline's own state, and the operations
  that only remove state. \<open>Packet_Pipeline\<close> has the packet path.

  The newtypes \<open>PipelineSectionState\<close>, \<open>PipelinePesState\<close>, \<open>PipelineContinuityState\<close> and
  \<open>PipelineResyncState\<close> are the assembler, tracker and buffer they wrap; a \<open>BTreeMap\<close> is a map.
\<close>

subsection \<open>Reports\<close>

definition PIPELINE_GENERATION_INITIAL :: u64 where "PIPELINE_GENERATION_INITIAL = 0"

datatype pipeline_input_kind =
    InputFrontend u64
  | InputPlaybackDvr i32 u64 u64
  | InputSourceFilter i32 u64

datatype pipeline_drop_reason =
    MalformedPacket | AssemblyDrop | ResidualBytes | PesAssemblerOverflow
  | DropSectionGenerationOverflow | DropPesGenerationOverflow

datatype pipeline_assembly_suppression_reason =
    TransportErrorIndicator | DuplicatePacket | ContinuityCounterCollision | NoPayload
  | KeylessScrambledWithoutDescrambler

datatype pipeline_delivery_action =
    RawPacket i32 | RecordPacket i32 | DvrMirror i32 | SectionPayload i32 | PesPayload i32 | AvPayload i32

datatype pipeline_generated_event =
    EvFilterStatus i32 filter_status_event
  | EvAvMedia i32 av_media_event_descriptor
  | EvDataReady i32
  | EvSection i32 bool
  | EvPes i32 bool
  | EvRecord i32
  | EvRecordIndex i32 ts_record_event_data
  | SectionPayloadReady i32 packet_pid u64 bool bytes
  | PesPacketReady i32 packet_pid u64 bool pes_packet

datatype pipeline_diagnostic =
    MalformedTsPacket ts_packet_validation_error
  | TeiAssemblySuppressed packet_pid
  | DuplicatePacketAssemblySuppressed packet_pid
  | ContinuityCounterCollisionAssemblySuppressed packet_pid ts_input_origin
  | ContinuityDiscontinuityAssemblyReset packet_pid ts_input_origin
  | NoPayloadAssemblySuppressed packet_pid
  | KeylessScrambledAssemblySuppressed packet_pid
  | SectionAssemblyDrop packet_pid
  | SectionGenerationOverflow packet_pid "i32 list"
  | PesGenerationOverflow packet_pid "i32 list"
  | PesAssemblerDrop packet_pid pes_drop_reason
  | ResidualBytesDrop
  | SourceFilterValidationFailure packet_pid i32 hal_error
  | SourceFilterDescramblePolicyFailure packet_pid i32 packet_descramble_policy_failure
  | RecordDvrMirrorFailure packet_pid i32 i32 demux_runtime_error
  | RecordDvrMirrorOverflow packet_pid i32 i32
  | FilterQueuePayloadDeliveryFailure packet_pid i32 demux_runtime_error
  | AvSharedBackingFailure packet_pid i32 av_shared_backing_error
  | AvSharedBackingMissing packet_pid i32
  | AvAuthoritativeTimestampUnavailable packet_pid i32
  | AvSharedHandleNotExported packet_pid i32
  | AvClientHandleReleased packet_pid i32
  | AvPayloadEmpty packet_pid i32
  | AvPayloadOversized packet_pid i32
  | AvNoFreeSlot packet_pid i32
  | AvDataIdExhausted packet_pid i32

datatype pipeline_diagnostic_pid_context = PidPresent packet_pid | PidNotApplicable

fun pid_context :: "pipeline_diagnostic \<Rightarrow> pipeline_diagnostic_pid_context" where
  "pid_context (MalformedTsPacket _) = PidNotApplicable"
| "pid_context ResidualBytesDrop = PidNotApplicable"
| "pid_context (TeiAssemblySuppressed pid) = PidPresent pid"
| "pid_context (DuplicatePacketAssemblySuppressed pid) = PidPresent pid"
| "pid_context (ContinuityCounterCollisionAssemblySuppressed pid _) = PidPresent pid"
| "pid_context (ContinuityDiscontinuityAssemblyReset pid _) = PidPresent pid"
| "pid_context (NoPayloadAssemblySuppressed pid) = PidPresent pid"
| "pid_context (KeylessScrambledAssemblySuppressed pid) = PidPresent pid"
| "pid_context (SectionAssemblyDrop pid) = PidPresent pid"
| "pid_context (SectionGenerationOverflow pid _) = PidPresent pid"
| "pid_context (PesGenerationOverflow pid _) = PidPresent pid"
| "pid_context (PesAssemblerDrop pid _) = PidPresent pid"
| "pid_context (SourceFilterValidationFailure pid _ _) = PidPresent pid"
| "pid_context (SourceFilterDescramblePolicyFailure pid _ _) = PidPresent pid"
| "pid_context (RecordDvrMirrorFailure pid _ _ _) = PidPresent pid"
| "pid_context (RecordDvrMirrorOverflow pid _ _) = PidPresent pid"
| "pid_context (FilterQueuePayloadDeliveryFailure pid _ _) = PidPresent pid"
| "pid_context (AvSharedBackingFailure pid _ _) = PidPresent pid"
| "pid_context (AvSharedBackingMissing pid _) = PidPresent pid"
| "pid_context (AvAuthoritativeTimestampUnavailable pid _) = PidPresent pid"
| "pid_context (AvSharedHandleNotExported pid _) = PidPresent pid"
| "pid_context (AvClientHandleReleased pid _) = PidPresent pid"
| "pid_context (AvPayloadEmpty pid _) = PidPresent pid"
| "pid_context (AvPayloadOversized pid _) = PidPresent pid"
| "pid_context (AvNoFreeSlot pid _) = PidPresent pid"
| "pid_context (AvDataIdExhausted pid _) = PidPresent pid"

definition pid_context_to_i32 :: "pipeline_diagnostic_pid_context \<Rightarrow> i32 option" where
  "pid_context_to_i32 c =
     (case c of PidPresent pid \<Rightarrow> Some (to_i32_for_aidl_boundary (packet_pid_ts pid)) | PidNotApplicable \<Rightarrow> None)"

record pipeline_report =
  rp_accepted_packets :: nat
  rp_dropped_packets :: nat
  rp_malformed_packets :: nat
  rp_drop_reasons :: "pipeline_drop_reason list"
  rp_assembly_suppression_reasons :: "pipeline_assembly_suppression_reason list"
  rp_delivery_actions :: "pipeline_delivery_action list"
  rp_generated_events :: "pipeline_generated_event list"
  rp_diagnostics :: "pipeline_diagnostic list"

definition report_default :: pipeline_report where
  "report_default = \<lparr>rp_accepted_packets = 0, rp_dropped_packets = 0, rp_malformed_packets = 0, rp_drop_reasons = [],
     rp_assembly_suppression_reasons = [], rp_delivery_actions = [], rp_generated_events = [], rp_diagnostics = []\<rparr>"

text \<open>The three ways in which the pipeline appends to a report.\<close>

definition rp_diagnose :: "pipeline_diagnostic \<Rightarrow> pipeline_report \<Rightarrow> pipeline_report" where
  "rp_diagnose d r = r\<lparr>rp_diagnostics := rp_diagnostics r @ [d]\<rparr>"

definition rp_suppress ::
  "pipeline_assembly_suppression_reason \<Rightarrow> pipeline_diagnostic \<Rightarrow> pipeline_report \<Rightarrow> pipeline_report" where
  "rp_suppress reason d r =
     rp_diagnose d (r\<lparr>rp_assembly_suppression_reasons := rp_assembly_suppression_reasons r @ [reason]\<rparr>)"

definition rp_drop :: "pipeline_drop_reason \<Rightarrow> pipeline_diagnostic \<Rightarrow> pipeline_report \<Rightarrow> pipeline_report" where
  "rp_drop reason d r =
     rp_diagnose d (r\<lparr>rp_dropped_packets := rp_dropped_packets r + 1,
                      rp_drop_reasons := rp_drop_reasons r @ [reason]\<rparr>)"

subsection \<open>State\<close>

record pipeline_diagnostic_counters =
  dc_malformed_ts_packets :: u64
  dc_tei_packets_observed :: u64
  dc_duplicate_packets_observed :: u64
  dc_continuity_discontinuities_observed :: u64
  dc_counter_saturated :: bool

definition counters_default :: pipeline_diagnostic_counters where
  "counters_default = \<lparr>dc_malformed_ts_packets = 0, dc_tei_packets_observed = 0, dc_duplicate_packets_observed = 0,
     dc_continuity_discontinuities_observed = 0, dc_counter_saturated = False\<rparr>"

definition dc_increment :: "u64 \<Rightarrow> bool \<Rightarrow> u64 \<times> bool" where
  "dc_increment val saturated =
     (case checked_add_u64 val 1 of
        Some next \<Rightarrow> (next, if next = U64_MAX then True else saturated)
      | None \<Rightarrow> (U64_MAX, True))"

definition note_malformed_ts :: "pipeline_diagnostic_counters \<Rightarrow> pipeline_diagnostic_counters" where
  "note_malformed_ts c =
     (let (v, sat) = dc_increment (dc_malformed_ts_packets c) (dc_counter_saturated c)
      in c\<lparr>dc_malformed_ts_packets := v, dc_counter_saturated := sat\<rparr>)"

definition note_tei :: "pipeline_diagnostic_counters \<Rightarrow> pipeline_diagnostic_counters" where
  "note_tei c =
     (let (v, sat) = dc_increment (dc_tei_packets_observed c) (dc_counter_saturated c)
      in c\<lparr>dc_tei_packets_observed := v, dc_counter_saturated := sat\<rparr>)"

definition note_duplicate :: "pipeline_diagnostic_counters \<Rightarrow> pipeline_diagnostic_counters" where
  "note_duplicate c =
     (let (v, sat) = dc_increment (dc_duplicate_packets_observed c) (dc_counter_saturated c)
      in c\<lparr>dc_duplicate_packets_observed := v, dc_counter_saturated := sat\<rparr>)"

definition note_continuity_discontinuity :: "pipeline_diagnostic_counters \<Rightarrow> pipeline_diagnostic_counters" where
  "note_continuity_discontinuity c =
     (let (v, sat) = dc_increment (dc_continuity_discontinuities_observed c) (dc_counter_saturated c)
      in c\<lparr>dc_continuity_discontinuities_observed := v, dc_counter_saturated := sat\<rparr>)"

record packet_pipeline =
  pl_section_assemblers :: "ts_input_origin \<times> packet_pid \<times> i32 \<rightharpoonup> section_assembler"
  pl_pes_assemblers :: "ts_input_origin \<times> packet_pid \<times> i32 \<rightharpoonup> pes_assembler"
  pl_section_assembler_generations :: "ts_input_origin \<times> packet_pid \<rightharpoonup> u64"
  pl_pes_assembler_generations :: "ts_input_origin \<times> packet_pid \<rightharpoonup> u64"
  pl_filter_section_flush_generations :: "ts_input_origin \<times> i32 \<times> packet_pid \<rightharpoonup> u64"
  pl_filter_pes_flush_generations :: "ts_input_origin \<times> i32 \<times> packet_pid \<rightharpoonup> u64"
  pl_continuity_trackers :: "ts_input_origin \<rightharpoonup> continuity_tracker"
  pl_record_index_parsers :: "i32 \<rightharpoonup> record_index_parser"
  pl_record_event_states :: "i32 \<rightharpoonup> record_event_state"
  pl_record_index_settings :: "i32 \<rightharpoonup> record_index_settings"
  pl_resync :: ts_packet_completion_buffer
  pl_diagnostic_counters :: pipeline_diagnostic_counters

definition pipeline_default :: packet_pipeline where
  "pipeline_default =
     \<lparr>pl_section_assemblers = Map.empty, pl_pes_assemblers = Map.empty,
      pl_section_assembler_generations = Map.empty, pl_pes_assembler_generations = Map.empty,
      pl_filter_section_flush_generations = Map.empty, pl_filter_pes_flush_generations = Map.empty,
      pl_continuity_trackers = Map.empty, pl_record_index_parsers = Map.empty, pl_record_event_states = Map.empty,
      pl_record_index_settings = Map.empty, pl_resync = ts_buffer_default, pl_diagnostic_counters = counters_default\<rparr>"

definition pl_note ::
  "(pipeline_diagnostic_counters \<Rightarrow> pipeline_diagnostic_counters) \<Rightarrow> packet_pipeline \<Rightarrow> packet_pipeline" where
  "pl_note f s = s\<lparr>pl_diagnostic_counters := f (pl_diagnostic_counters s)\<rparr>"

record pipeline_filter_view =
  fv_filter_id :: i32
  fv_tpid :: "i32 option"
  fv_started :: bool
  fv_source_filter :: "(i32 \<times> u64) option"
  fv_open_kind :: pipeline_open_kind
  fv_section_raw :: bool
  fv_pes_raw :: bool
  fv_wants_record_index :: bool

definition accepts_packet_pid_from_origin :: "pipeline_filter_view \<Rightarrow> packet_pid \<Rightarrow> ts_input_origin \<Rightarrow> bool" where
  "accepts_packet_pid_from_origin f pid origin =
     (if \<not> fv_started f \<or> \<not> matches_config_tpid pid (fv_tpid f) then False
      else
        (case origin of
           OriginFrontend _ \<Rightarrow> fv_source_filter f = None
         | OriginPlaybackDvr _ _ _ \<Rightarrow> fv_source_filter f = None
         | OriginSourceFilter i g \<Rightarrow> fv_source_filter f = Some (i, g)))"

subsection \<open>Resets\<close>

definition reset_continuity_pid :: "ts_input_origin \<Rightarrow> packet_pid \<Rightarrow> packet_pipeline \<Rightarrow> packet_pipeline" where
  "reset_continuity_pid origin pid s =
     s\<lparr>pl_continuity_trackers := (pl_continuity_trackers s)
         (origin \<mapsto> continuity_reset_pid pid (entry_or Map.empty (pl_continuity_trackers s) origin))\<rparr>"

definition reset_assembly_for_origin_pid :: "ts_input_origin \<Rightarrow> packet_pid \<Rightarrow> packet_pipeline \<Rightarrow> packet_pipeline" where
  "reset_assembly_for_origin_pid origin pid s =
     s\<lparr>pl_section_assemblers := retain (\<lambda>(o', p, _). o' \<noteq> origin \<or> p \<noteq> pid) (pl_section_assemblers s),
       pl_pes_assemblers := retain (\<lambda>(o', p, _). o' \<noteq> origin \<or> p \<noteq> pid) (pl_pes_assemblers s),
       pl_section_assembler_generations :=
         retain (\<lambda>(o', p). o' \<noteq> origin \<or> p \<noteq> pid) (pl_section_assembler_generations s),
       pl_pes_assembler_generations :=
         retain (\<lambda>(o', p). o' \<noteq> origin \<or> p \<noteq> pid) (pl_pes_assembler_generations s),
       pl_filter_section_flush_generations :=
         retain (\<lambda>(o', _, p). o' \<noteq> origin \<or> p \<noteq> pid) (pl_filter_section_flush_generations s),
       pl_filter_pes_flush_generations :=
         retain (\<lambda>(o', _, p). o' \<noteq> origin \<or> p \<noteq> pid) (pl_filter_pes_flush_generations s)\<rparr>"

definition reset_origin :: "ts_input_origin \<Rightarrow> packet_pipeline \<Rightarrow> packet_pipeline" where
  "reset_origin origin s =
     s\<lparr>pl_section_assemblers := retain (\<lambda>(o', _, _). o' \<noteq> origin) (pl_section_assemblers s),
       pl_pes_assemblers := retain (\<lambda>(o', _, _). o' \<noteq> origin) (pl_pes_assemblers s),
       pl_section_assembler_generations := retain (\<lambda>(o', _). o' \<noteq> origin) (pl_section_assembler_generations s),
       pl_pes_assembler_generations := retain (\<lambda>(o', _). o' \<noteq> origin) (pl_pes_assembler_generations s),
       pl_filter_section_flush_generations :=
         retain (\<lambda>(o', _, _). o' \<noteq> origin) (pl_filter_section_flush_generations s),
       pl_filter_pes_flush_generations :=
         retain (\<lambda>(o', _, _). o' \<noteq> origin) (pl_filter_pes_flush_generations s),
       pl_continuity_trackers := (pl_continuity_trackers s)(origin := None)\<rparr>"

definition clear_filter_state :: "i32 \<Rightarrow> packet_pipeline \<Rightarrow> packet_pipeline" where
  "clear_filter_state filter_id s =
     s\<lparr>pl_section_assemblers := retain (\<lambda>(_, _, i). i \<noteq> filter_id) (pl_section_assemblers s),
       pl_pes_assemblers := retain (\<lambda>(_, _, i). i \<noteq> filter_id) (pl_pes_assemblers s),
       pl_filter_section_flush_generations :=
         retain (\<lambda>(_, i, _). i \<noteq> filter_id) (pl_filter_section_flush_generations s),
       pl_filter_pes_flush_generations :=
         retain (\<lambda>(_, i, _). i \<noteq> filter_id) (pl_filter_pes_flush_generations s)\<rparr>"

definition drop_generations_for_pid_origin ::
  "ts_input_origin \<Rightarrow> packet_pid \<Rightarrow> bool \<Rightarrow> bool \<Rightarrow> packet_pipeline \<Rightarrow> packet_pipeline" where
  "drop_generations_for_pid_origin origin pid section pes s =
     (let s1 =
        (if section then
           s\<lparr>pl_section_assembler_generations :=
               retain (\<lambda>(o', p). \<not> (o' = origin \<and> p = pid)) (pl_section_assembler_generations s),
             pl_filter_section_flush_generations :=
               retain (\<lambda>(o', _, p). \<not> (o' = origin \<and> p = pid)) (pl_filter_section_flush_generations s)\<rparr>
         else s)
      in if pes then
           s1\<lparr>pl_pes_assembler_generations :=
                retain (\<lambda>(o', p). \<not> (o' = origin \<and> p = pid)) (pl_pes_assembler_generations s1),
              pl_filter_pes_flush_generations :=
                retain (\<lambda>(o', _, p). \<not> (o' = origin \<and> p = pid)) (pl_filter_pes_flush_generations s1)\<rparr>
         else s1)"

end
