(* ===== verification/Packet_Pipeline.thy ===== *)
theory Packet_Pipeline
  imports Pipeline_State
begin

section \<open>The packet pipeline\<close>

text \<open>
  \<open>tuner_hal2/demux/src/parser/packet_pipeline.rs\<close>: the single owner of continuity, assembly and
  record index state. A validated packet first passes the preflight (\<open>accept_validated_ts_packet\<close>),
  which updates continuity and says what must not be assembled; then the plan selects the filters
  and the payload goes to one section or PES assembler per origin, PID and filter.
\<close>

subsection \<open>Preflight\<close>

definition malformed_ts_packet_report :: "ts_packet_validation_error \<Rightarrow> pipeline_report" where
  "malformed_ts_packet_report reason =
     rp_drop MalformedPacket (MalformedTsPacket reason)
       (report_default\<lparr>rp_malformed_packets := rp_malformed_packets report_default + 1\<rparr>)"

definition note_malformed_ts_packet :: "packet_pipeline \<Rightarrow> packet_pipeline" where
  "note_malformed_ts_packet s = pl_note note_malformed_ts s"

fun origin_of_kind :: "pipeline_input_kind \<Rightarrow> ts_input_origin" where
  "origin_of_kind (InputFrontend g) = OriginFrontend g"
| "origin_of_kind (InputPlaybackDvr d i e) = OriginPlaybackDvr d i e"
| "origin_of_kind (InputSourceFilter i g) = OriginSourceFilter i g"

definition check_continuity ::
  "ts_input_origin \<Rightarrow> packet_pid \<Rightarrow> u8 \<Rightarrow> bool \<Rightarrow> bytes \<Rightarrow> packet_pipeline \<Rightarrow> continuity_outcome \<times> packet_pipeline" where
  "check_continuity origin pid cc has_payload packet s =
     (let (outcome, t) =
        continuity_observe pid cc has_payload packet (entry_or Map.empty (pl_continuity_trackers s) origin)
      in (outcome, s\<lparr>pl_continuity_trackers := (pl_continuity_trackers s)(origin \<mapsto> t)\<rparr>))"

text \<open>The blocks of \<open>accept_validated_ts_packet\<close>, each on the report and the state.\<close>

definition preflight_tei ::
  "ts_packet_view \<Rightarrow> pipeline_report \<times> packet_pipeline \<Rightarrow> pipeline_report \<times> packet_pipeline" where
  "preflight_tei view rs =
     (if tv_transport_error_indicator view then
        (rp_suppress TransportErrorIndicator (TeiAssemblySuppressed (tv_pid view)) (fst rs), pl_note note_tei (snd rs))
      else rs)"

definition preflight_discontinuity ::
  "ts_input_origin \<Rightarrow> ts_packet_view \<Rightarrow> pipeline_report \<times> packet_pipeline \<Rightarrow> pipeline_report \<times> packet_pipeline" where
  "preflight_discontinuity origin view rs =
     (if tv_discontinuity_indicator view then
        (rp_diagnose (ContinuityDiscontinuityAssemblyReset (tv_pid view) origin) (fst rs),
         reset_assembly_for_origin_pid origin (tv_pid view)
           (reset_continuity_pid origin (tv_pid view) (pl_note note_continuity_discontinuity (snd rs))))
      else rs)"

definition preflight_continuity ::
  "continuity_outcome \<Rightarrow> ts_input_origin \<Rightarrow> packet_pid \<Rightarrow> pipeline_report \<times> packet_pipeline \<Rightarrow>
   pipeline_report \<times> packet_pipeline" where
  "preflight_continuity continuity origin pid rs =
     (let (r, s) = rs;
          (r, s) =
            (if continuity = Duplicate then
               (rp_suppress DuplicatePacket (DuplicatePacketAssemblySuppressed pid) r, pl_note note_duplicate s)
             else (r, s));
          (r, s) =
            (if continuity = CounterCollision then
               (rp_suppress ContinuityCounterCollision (ContinuityCounterCollisionAssemblySuppressed pid origin) r,
                pl_note note_continuity_discontinuity s)
             else (r, s));
          (r, s) =
            (if continuity = Discontinuity then
               (rp_diagnose (ContinuityDiscontinuityAssemblyReset pid origin) r,
                pl_note note_continuity_discontinuity s)
             else (r, s))
      in (r, if continuity = CounterCollision \<or> continuity = Discontinuity
             then reset_assembly_for_origin_pid origin pid s else s))"

definition preflight_payload :: "ts_packet_view \<Rightarrow> pipeline_report \<Rightarrow> pipeline_report" where
  "preflight_payload view r =
     (if tv_payload view = None then rp_suppress NoPayload (NoPayloadAssemblySuppressed (tv_pid view)) r else r)"

definition accept_validated_ts_packet ::
  "validated_ts_packet \<Rightarrow> pipeline_input_kind \<Rightarrow> packet_pipeline \<Rightarrow> pipeline_report \<times> packet_pipeline" where
  "accept_validated_ts_packet validated kind s =
     (let origin = origin_of_kind kind;
          view = vp_view validated;
          pid = tv_pid view;
          (r, s) = preflight_discontinuity origin view (preflight_tei view (report_default, s));
          (continuity, s) =
            check_continuity origin pid (tv_continuity_counter view) (tv_payload view \<noteq> None)
              (vp_packet validated) s;
          (r, s) = preflight_continuity continuity origin pid (r, s);
          r = preflight_payload view r
      in (r\<lparr>rp_accepted_packets := rp_accepted_packets r + 1\<rparr>, s))"

definition push_validated_ts_packet ::
  "validated_ts_packet \<Rightarrow> pipeline_input_kind \<Rightarrow> packet_pipeline \<Rightarrow> pipeline_report \<times> packet_pipeline" where
  "push_validated_ts_packet validated kind s = accept_validated_ts_packet validated kind s"

subsection \<open>The delivery plan\<close>

definition delivery_of_filter :: "pipeline_filter_view \<Rightarrow> pipeline_delivery_action list" where
  "delivery_of_filter f =
     (case fv_open_kind f of
        KindRaw \<Rightarrow> [RawPacket (fv_filter_id f)]
      | KindRecord \<Rightarrow>
          DvrMirror (fv_filter_id f) # (if fv_wants_record_index f then [RecordPacket (fv_filter_id f)] else [])
      | _ \<Rightarrow> [])"

definition plan_packet_delivery ::
  "packet_pid \<Rightarrow> ts_input_origin \<Rightarrow> pipeline_filter_view list \<Rightarrow> pipeline_delivery_action list" where
  "plan_packet_delivery pid origin filters =
     concat (map delivery_of_filter (filter (\<lambda>f. accepts_packet_pid_from_origin f pid origin) filters))"

definition plan_section_filters ::
  "packet_pid \<Rightarrow> ts_input_origin \<Rightarrow> pipeline_filter_view list \<Rightarrow> i32 list" where
  "plan_section_filters pid origin filters =
     map fv_filter_id
       (filter (\<lambda>f. accepts_packet_pid_from_origin f pid origin \<and> fv_open_kind f = KindSection) filters)"

definition plan_pes_actions ::
  "packet_pid \<Rightarrow> ts_input_origin \<Rightarrow> pipeline_filter_view list \<Rightarrow> pipeline_delivery_action list" where
  "plan_pes_actions pid origin filters =
     map (\<lambda>f. case fv_open_kind f of KindAv \<Rightarrow> AvPayload (fv_filter_id f) | _ \<Rightarrow> PesPayload (fv_filter_id f))
       (filter (\<lambda>f. accepts_packet_pid_from_origin f pid origin \<and>
                    (fv_open_kind f = KindPes \<or> fv_open_kind f = KindAv)) filters)"

text \<open>\<open>filters.iter().find(|f| f.filter_id == id).map(flag).unwrap_or(false)\<close>.\<close>

definition filter_flag :: "(pipeline_filter_view \<Rightarrow> bool) \<Rightarrow> pipeline_filter_view list \<Rightarrow> i32 \<Rightarrow> bool" where
  "filter_flag flag filters filter_id =
     (case find (\<lambda>f. fv_filter_id f = filter_id) filters of Some f \<Rightarrow> flag f | None \<Rightarrow> False)"

fun planned_event :: "pipeline_filter_view list \<Rightarrow> pipeline_delivery_action \<Rightarrow> pipeline_generated_event list" where
  "planned_event filters (RawPacket i) = [EvDataReady i]"
| "planned_event filters (RecordPacket i) = [EvRecord i]"
| "planned_event filters (SectionPayload i) = [EvSection i (filter_flag fv_section_raw filters i)]"
| "planned_event filters (PesPayload i) = [EvPes i (filter_flag fv_pes_raw filters i)]"
| "planned_event filters (AvPayload i) = [EvPes i (filter_flag fv_pes_raw filters i)]"
| "planned_event filters (DvrMirror _) = []"

definition plan_ts_packet_report ::
  "validated_ts_packet \<Rightarrow> ts_input_origin \<Rightarrow> pipeline_filter_view list \<Rightarrow> pipeline_report" where
  "plan_ts_packet_report packet origin filters =
     (let view = vp_view packet;
          pid = tv_pid view;
          r = report_default\<lparr>rp_accepted_packets := 1,
                rp_delivery_actions := plan_packet_delivery pid origin filters\<rparr>;
          r =
            (if tv_payload view \<noteq> None then
               let section_filter_ids = plan_section_filters pid origin filters;
                   pes_actions = plan_pes_actions pid origin filters
               in if tv_transport_error_indicator view then r
                  else if tv_scrambling_control view \<noteq> 0 then
                    if section_filter_ids \<noteq> [] \<or> pes_actions \<noteq> [] then
                      rp_suppress KeylessScrambledWithoutDescrambler (KeylessScrambledAssemblySuppressed pid) r
                    else r
                  else r\<lparr>rp_delivery_actions :=
                           rp_delivery_actions r @ map SectionPayload section_filter_ids @ pes_actions\<rparr>
             else r)
      in r\<lparr>rp_generated_events := concat (map (planned_event filters) (rp_delivery_actions r))\<rparr>)"

subsection \<open>Generations and assemblers\<close>

definition current_section_generation :: "ts_input_origin \<Rightarrow> packet_pid \<Rightarrow> packet_pipeline \<Rightarrow> u64" where
  "current_section_generation origin pid s =
     entry_or PIPELINE_GENERATION_INITIAL (pl_section_assembler_generations s) (origin, pid)"

definition current_pes_generation :: "ts_input_origin \<Rightarrow> packet_pid \<Rightarrow> packet_pipeline \<Rightarrow> u64" where
  "current_pes_generation origin pid s =
     entry_or PIPELINE_GENERATION_INITIAL (pl_pes_assembler_generations s) (origin, pid)"

definition bump_section_generation ::
  "ts_input_origin \<Rightarrow> packet_pid \<Rightarrow> packet_pipeline \<Rightarrow> u64 option \<times> packet_pipeline" where
  "bump_section_generation origin pid s =
     (let generation = entry_or 0 (pl_section_assembler_generations s) (origin, pid);
          put = (\<lambda>g. s\<lparr>pl_section_assembler_generations := (pl_section_assembler_generations s)((origin, pid) \<mapsto> g)\<rparr>)
      in case checked_add_u64 generation 1 of
           None \<Rightarrow> (None, put generation)
         | Some next \<Rightarrow> (Some next, put next))"

definition bump_pes_generation ::
  "ts_input_origin \<Rightarrow> packet_pid \<Rightarrow> packet_pipeline \<Rightarrow> u64 option \<times> packet_pipeline" where
  "bump_pes_generation origin pid s =
     (let generation = entry_or 0 (pl_pes_assembler_generations s) (origin, pid);
          put = (\<lambda>g. s\<lparr>pl_pes_assembler_generations := (pl_pes_assembler_generations s)((origin, pid) \<mapsto> g)\<rparr>)
      in case checked_add_u64 generation 1 of
           None \<Rightarrow> (None, put generation)
         | Some next \<Rightarrow> (Some next, put next))"

definition section_state_push ::
  "bool \<Rightarrow> bytes \<Rightarrow> bool \<Rightarrow> section_assembler \<Rightarrow> section_push_outcome \<times> section_assembler" where
  "section_state_push payload_unit_start payload require_reserved_bits a =
     (if require_reserved_bits then push_payload_with_outcome payload_unit_start payload a
      else push_payload_with_outcome_policy payload_unit_start payload False a)"

definition assemble_section_for_filter ::
  "ts_input_origin \<Rightarrow> packet_pid \<Rightarrow> i32 \<Rightarrow> bool \<Rightarrow> bool \<Rightarrow> bytes \<Rightarrow> packet_pipeline \<Rightarrow>
   section_push_outcome \<times> packet_pipeline" where
  "assemble_section_for_filter origin pid filter_id raw payload_unit_start payload s =
     (let key = (origin, pid, filter_id);
          (outcome, a) = section_state_push payload_unit_start payload (\<not> raw)
            (entry_or section_assembler_default (pl_section_assemblers s) key)
      in (outcome, s\<lparr>pl_section_assemblers := (pl_section_assemblers s)(key \<mapsto> a)\<rparr>))"

definition assemble_pes_for_filter ::
  "ts_input_origin \<Rightarrow> i32 \<Rightarrow> packet_pid \<Rightarrow> bool \<Rightarrow> bytes \<Rightarrow> packet_pipeline \<Rightarrow> pes_packet list \<times> packet_pipeline" where
  "assemble_pes_for_filter origin filter_id pid payload_unit_start payload s =
     (let key = (origin, pid, filter_id);
          (packets, a) = pes_push pid payload_unit_start payload
            (entry_or pes_assembler_default (pl_pes_assemblers s) key)
      in (packets, s\<lparr>pl_pes_assemblers := (pl_pes_assemblers s)(key \<mapsto> a)\<rparr>))"

text \<open>\<open>self.pes_assemblers.get_mut(&key).and_then(|state| state.take_drop_diagnostic())\<close>.\<close>

definition take_pes_drop ::
  "ts_input_origin \<times> packet_pid \<times> i32 \<Rightarrow> packet_pipeline \<Rightarrow> (pes_drop_reason \<times> u64) option \<times> packet_pipeline" where
  "take_pes_drop key s =
     (case pl_pes_assemblers s key of
        None \<Rightarrow> (None, s)
      | Some a \<Rightarrow>
          (let (dropped, a') = pes_take_drop_diagnostic a
           in (dropped, s\<lparr>pl_pes_assemblers := (pl_pes_assemblers s)(key \<mapsto> a')\<rparr>)))"

subsection \<open>Planning and assembly\<close>

fun assemble_sections ::
  "ts_input_origin \<Rightarrow> packet_pid \<Rightarrow> bool \<Rightarrow> bytes \<Rightarrow> u64 \<Rightarrow> (i32 \<times> bool) list \<Rightarrow>
   pipeline_report \<Rightarrow> packet_pipeline \<Rightarrow> pipeline_report \<times> packet_pipeline" where
  "assemble_sections origin pid pusi payload generation [] r s = (r, s)"
| "assemble_sections origin pid pusi payload generation ((filter_id, raw) # rest) r s =
     (let (outcome, s') = assemble_section_for_filter origin pid filter_id raw pusi payload s;
          r = (if has_drop_or_discard outcome then rp_drop AssemblyDrop (SectionAssemblyDrop pid) r else r);
          r = r\<lparr>rp_generated_events :=
                rp_generated_events r @ map (SectionPayloadReady filter_id pid generation raw) (so_sections outcome)\<rparr>
      in assemble_sections origin pid pusi payload generation rest r s')"

definition section_action_id :: "pipeline_delivery_action \<Rightarrow> i32 option" where
  "section_action_id a = (case a of SectionPayload i \<Rightarrow> Some i | _ \<Rightarrow> None)"

definition pes_action_id :: "pipeline_delivery_action \<Rightarrow> i32 option" where
  "pes_action_id a = (case a of PesPayload i \<Rightarrow> Some i | AvPayload i \<Rightarrow> Some i | _ \<Rightarrow> None)"

definition section_stage ::
  "ts_input_origin \<Rightarrow> packet_pid \<Rightarrow> bool \<Rightarrow> bytes \<Rightarrow> pipeline_filter_view list \<Rightarrow>
   pipeline_report \<Rightarrow> packet_pipeline \<Rightarrow> pipeline_report \<times> packet_pipeline" where
  "section_stage origin pid pusi payload filters r s =
     (let section_filters =
        map (\<lambda>i. (i, filter_flag fv_section_raw filters i)) (List.map_filter section_action_id (rp_delivery_actions r))
      in if section_filters \<noteq> [] then
           let section_filter_ids = map fst section_filters;
               (section_generation, s) =
                 (if pusi then bump_section_generation origin pid s
                  else (Some (current_section_generation origin pid s), s))
           in case section_generation of
                Some generation \<Rightarrow> assemble_sections origin pid pusi payload generation section_filters r s
              | None \<Rightarrow>
                  (let r = rp_drop DropSectionGenerationOverflow (SectionGenerationOverflow pid section_filter_ids) r
                   in (r\<lparr>rp_delivery_actions := filter (\<lambda>a. section_action_id a = None) (rp_delivery_actions r)\<rparr>,
                       reset_assembly_for_origin_pid origin pid s))
         else (r, drop_generations_for_pid_origin origin pid True False s))"

fun assemble_pes ::
  "ts_input_origin \<Rightarrow> packet_pid \<Rightarrow> bool \<Rightarrow> bytes \<Rightarrow> u64 \<Rightarrow> pipeline_filter_view list \<Rightarrow> i32 list \<Rightarrow>
   pipeline_report \<Rightarrow> packet_pipeline \<Rightarrow> pipeline_report \<times> packet_pipeline" where
  "assemble_pes origin pid pusi payload generation filters [] r s = (r, s)"
| "assemble_pes origin pid pusi payload generation filters (filter_id # rest) r s =
     (let (packets, s') = assemble_pes_for_filter origin filter_id pid pusi payload s;
          (dropped, s'') = take_pes_drop (origin, pid, filter_id) s';
          r = (case dropped of
                 Some (reason, _) \<Rightarrow> rp_drop PesAssemblerOverflow (PesAssemblerDrop pid reason) r
               | None \<Rightarrow> r);
          r = r\<lparr>rp_generated_events := rp_generated_events r @
                map (PesPacketReady filter_id pid generation (filter_flag fv_pes_raw filters filter_id)) packets\<rparr>
      in assemble_pes origin pid pusi payload generation filters rest r s'')"

definition pes_stage ::
  "ts_input_origin \<Rightarrow> packet_pid \<Rightarrow> bool \<Rightarrow> bytes \<Rightarrow> pipeline_filter_view list \<Rightarrow>
   pipeline_report \<Rightarrow> packet_pipeline \<Rightarrow> pipeline_report \<times> packet_pipeline" where
  "pes_stage origin pid pusi payload filters r s =
     (let pes_filter_ids = List.map_filter pes_action_id (rp_delivery_actions r)
      in if pes_filter_ids \<noteq> [] then
           let (pes_generation, s) =
                 (if pusi then bump_pes_generation origin pid s else (Some (current_pes_generation origin pid s), s))
           in case pes_generation of
                Some generation \<Rightarrow> assemble_pes origin pid pusi payload generation filters pes_filter_ids r s
              | None \<Rightarrow>
                  (let r = rp_drop DropPesGenerationOverflow (PesGenerationOverflow pid pes_filter_ids) r
                   in (r\<lparr>rp_delivery_actions := filter (\<lambda>a. pes_action_id a = None) (rp_delivery_actions r)\<rparr>,
                       reset_assembly_for_origin_pid origin pid s))
         else (r, drop_generations_for_pid_origin origin pid False True s))"

definition is_packet_action :: "pipeline_delivery_action \<Rightarrow> bool" where
  "is_packet_action a = (case a of RawPacket _ \<Rightarrow> True | RecordPacket _ \<Rightarrow> True | DvrMirror _ \<Rightarrow> True | _ \<Rightarrow> False)"

definition is_packet_event :: "pipeline_generated_event \<Rightarrow> bool" where
  "is_packet_event e = (case e of EvDataReady _ \<Rightarrow> True | EvRecord _ \<Rightarrow> True | _ \<Rightarrow> False)"

definition plan_and_assemble_ts_packet_report_after_preflight ::
  "validated_ts_packet \<Rightarrow> ts_input_origin \<Rightarrow> pipeline_filter_view list \<Rightarrow>
   pipeline_assembly_suppression_reason list \<Rightarrow> packet_pipeline \<Rightarrow> pipeline_report \<times> packet_pipeline" where
  "plan_and_assemble_ts_packet_report_after_preflight packet origin filters preflight s =
     (let view = vp_view packet;
          pid = tv_pid view;
          r = plan_ts_packet_report packet origin filters
      in if tv_transport_error_indicator view \<or> TransportErrorIndicator \<in> set preflight then
           (r, reset_assembly_for_origin_pid origin pid s)
         else if DuplicatePacket \<in> set preflight \<or> ContinuityCounterCollision \<in> set preflight then
           (r\<lparr>rp_delivery_actions := filter is_packet_action (rp_delivery_actions r),
              rp_generated_events := filter is_packet_event (rp_generated_events r)\<rparr>, s)
         else
           (case tv_payload view of
              None \<Rightarrow> (r, s)
            | Some payload \<Rightarrow>
                if tv_scrambling_control view \<noteq> 0 then
                  (r, if KeylessScrambledWithoutDescrambler \<in> set (rp_assembly_suppression_reasons r)
                      then reset_assembly_for_origin_pid origin pid s else s)
                else
                  (let (r, s) = section_stage origin pid (tv_payload_unit_start view) payload filters r s
                   in pes_stage origin pid (tv_payload_unit_start view) payload filters r s)))"

subsection \<open>Filters, record index and boundaries\<close>

definition configure_filter :: "i32 \<Rightarrow> filter_pipeline_config \<Rightarrow> packet_pipeline \<Rightarrow> packet_pipeline" where
  "configure_filter filter_id config s =
     (let s = clear_filter_state filter_id s
      in case fpc_record_index config of
           Some settings \<Rightarrow>
             s\<lparr>pl_record_index_settings := (pl_record_index_settings s)(filter_id \<mapsto> settings),
               pl_record_index_parsers := (pl_record_index_parsers s)(filter_id \<mapsto> record_index_parser_new),
               pl_record_event_states := (pl_record_event_states s)(filter_id \<mapsto> record_event_state_default)\<rparr>
         | None \<Rightarrow>
             s\<lparr>pl_record_index_settings := (pl_record_index_settings s)(filter_id := None),
               pl_record_index_parsers := (pl_record_index_parsers s)(filter_id := None),
               pl_record_event_states := (pl_record_event_states s)(filter_id := None)\<rparr>)"

definition start_filter :: "i32 \<Rightarrow> packet_pipeline \<Rightarrow> packet_pipeline" where
  "start_filter filter_id s = s"

definition stop_filter :: "i32 \<Rightarrow> packet_pipeline \<Rightarrow> packet_pipeline" where
  "stop_filter filter_id s = s"

definition remove_filter :: "i32 \<Rightarrow> packet_pipeline \<Rightarrow> packet_pipeline" where
  "remove_filter filter_id s =
     (let s = clear_filter_state filter_id s
      in s\<lparr>pl_record_index_parsers := (pl_record_index_parsers s)(filter_id := None),
           pl_record_event_states := (pl_record_event_states s)(filter_id := None),
           pl_record_index_settings := (pl_record_index_settings s)(filter_id := None)\<rparr>)"

definition record_index_event_after_record_commit ::
  "i32 \<Rightarrow> validated_ts_packet \<Rightarrow> u64 \<Rightarrow> packet_pipeline \<Rightarrow> pipeline_generated_event option \<times> packet_pipeline" where
  "record_index_event_after_record_commit filter_id packet byte_number s =
     (case pl_record_index_settings s filter_id of
        None \<Rightarrow> (None, s)
      | Some settings \<Rightarrow>
          (let (data, parser, state) =
             push_validated_record_packet packet byte_number (ris_ts_index_mask settings) (ris_sc_index_type settings)
               (ris_sc_index_mask settings)
               (entry_or record_index_parser_new (pl_record_index_parsers s) filter_id)
               (entry_or record_event_state_default (pl_record_event_states s) filter_id)
           in (map_option (EvRecordIndex filter_id) data,
               s\<lparr>pl_record_index_parsers := (pl_record_index_parsers s)(filter_id \<mapsto> parser),
                 pl_record_event_states := (pl_record_event_states s)(filter_id \<mapsto> state)\<rparr>)))"

definition reset_record_index_partial_state :: "i32 \<Rightarrow> packet_pipeline \<Rightarrow> packet_pipeline" where
  "reset_record_index_partial_state filter_id s =
     (if pl_record_index_settings s filter_id \<noteq> None then
        s\<lparr>pl_record_index_parsers := (pl_record_index_parsers s)(filter_id \<mapsto> record_index_parser_new),
          pl_record_event_states := (pl_record_event_states s)(filter_id \<mapsto> record_event_state_default)\<rparr>
      else s)"

definition reset_record_index_without_parsing :: "i32 \<Rightarrow> bool \<Rightarrow> packet_pipeline \<Rightarrow> packet_pipeline" where
  "reset_record_index_without_parsing filter_id reset_partial_state s =
     (if pl_record_index_settings s filter_id = None then s
      else if reset_partial_state then reset_record_index_partial_state filter_id s
      else s)"

definition reset_record_index_state :: "i32 \<Rightarrow> packet_pipeline \<Rightarrow> packet_pipeline" where
  "reset_record_index_state filter_id s =
     (if pl_record_index_settings s filter_id \<noteq> None then reset_record_index_partial_state filter_id s else s)"

definition clear_filter_state_after_flush :: "i32 \<Rightarrow> packet_pipeline \<Rightarrow> packet_pipeline" where
  "clear_filter_state_after_flush filter_id s = reset_record_index_state filter_id (clear_filter_state filter_id s)"

definition current_section_generation_for_config_pid ::
  "ts_input_origin \<Rightarrow> config_input_pid \<Rightarrow> packet_pipeline \<Rightarrow> u64" where
  "current_section_generation_for_config_pid origin pid s =
     entry_or PIPELINE_GENERATION_INITIAL (pl_section_assembler_generations s) (origin, from_config_pid pid)"

definition current_pes_generation_for_config_pid ::
  "ts_input_origin \<Rightarrow> config_input_pid \<Rightarrow> packet_pipeline \<Rightarrow> u64" where
  "current_pes_generation_for_config_pid origin pid s =
     entry_or PIPELINE_GENERATION_INITIAL (pl_pes_assembler_generations s) (origin, from_config_pid pid)"

definition mark_filter_flush_generation_for_origin ::
  "i32 \<Rightarrow> config_input_pid \<Rightarrow> ts_input_origin \<Rightarrow> packet_pipeline \<Rightarrow> packet_pipeline" where
  "mark_filter_flush_generation_for_origin filter_id pid origin s =
     (let key = (origin, filter_id, from_config_pid pid);
          s = s\<lparr>pl_filter_section_flush_generations :=
                (pl_filter_section_flush_generations s)(key \<mapsto> current_section_generation_for_config_pid origin pid s)\<rparr>
      in s\<lparr>pl_filter_pes_flush_generations :=
           (pl_filter_pes_flush_generations s)(key \<mapsto> current_pes_generation_for_config_pid origin pid s)\<rparr>)"

definition flush_filter ::
  "i32 \<Rightarrow> (ts_input_origin \<times> config_input_pid) list \<Rightarrow> packet_pipeline \<Rightarrow> packet_pipeline" where
  "flush_filter filter_id origins s =
     clear_filter_state_after_flush filter_id
       (fold (\<lambda>(origin, pid). mark_filter_flush_generation_for_origin filter_id pid origin) origins s)"

record pipeline_reset_report =
  rr_cleared :: bool
  rr_residual_packets :: nat
  rr_residual_malformed_bytes :: nat

text \<open>
  \<open>reset_boundary\<close> resets the record index of every key of the settings map. The resets touch
  different keys, so their effect is given per key; \<open>reset_record_index_all_keys\<close> below shows that
  it is what the loop does in any order.
\<close>

definition reset_record_index_all :: "packet_pipeline \<Rightarrow> packet_pipeline" where
  "reset_record_index_all s =
     s\<lparr>pl_record_index_parsers :=
         (\<lambda>i. if pl_record_index_settings s i \<noteq> None then Some record_index_parser_new else pl_record_index_parsers s i),
       pl_record_event_states :=
         (\<lambda>i. if pl_record_index_settings s i \<noteq> None then Some record_event_state_default
              else pl_record_event_states s i)\<rparr>"

definition reset_boundary :: "packet_pipeline \<Rightarrow> pipeline_reset_report \<times> packet_pipeline" where
  "reset_boundary s =
     (let (residual, resync) = drain_for_boundary (pl_resync s);
          s = s\<lparr>pl_resync := resync, pl_section_assemblers := Map.empty, pl_pes_assemblers := Map.empty,
                pl_section_assembler_generations := Map.empty, pl_pes_assembler_generations := Map.empty,
                pl_filter_section_flush_generations := Map.empty, pl_filter_pes_flush_generations := Map.empty,
                pl_continuity_trackers := Map.empty\<rparr>;
          s = (reset_record_index_all s)\<lparr>pl_resync := ts_buffer_default\<rparr>
      in (\<lparr>rr_cleared = True, rr_residual_packets = length (dr_packets residual),
           rr_residual_malformed_bytes = dr_malformed_bytes residual\<rparr>, s))"

lemma reset_record_index_all_keys:
  assumes "set ids = dom (pl_record_index_settings s)"
  shows "fold reset_record_index_partial_state ids s = reset_record_index_all s"
proof -
  have "fold reset_record_index_partial_state ids s =
    s\<lparr>pl_record_index_parsers := (\<lambda>i. if i \<in> set ids then Some record_index_parser_new else pl_record_index_parsers s i),
      pl_record_event_states :=
        (\<lambda>i. if i \<in> set ids then Some record_event_state_default else pl_record_event_states s i)\<rparr>"
    if "set ids \<subseteq> dom (pl_record_index_settings s)" for ids and s :: packet_pipeline
    using that
  proof (induction ids arbitrary: s)
    case (Cons i ids)
    then have "pl_record_index_settings s i \<noteq> None" by auto
    with Cons show ?case
      by (auto simp: reset_record_index_partial_state_def fun_eq_iff intro!: packet_pipeline.equality)
  qed simp
  from this [of ids s] assms show ?thesis
    by (auto simp: reset_record_index_all_def dom_def intro!: packet_pipeline.equality)
qed

subsection \<open>One packet through the pipeline\<close>

text \<open>
  The demux runtime's use of the pipeline for one packet: the preflight's report is extended by
  the report of planning and assembly, which sees the preflight's suppression reasons. The runtime
  also drops the PES packets whose stream number a filter does not want, between merging the events
  and merging the diagnostics; this selection, and what the runtime does with the report afterwards
  (AV and record delivery), are outside the pipeline.
\<close>

fun kind_of_origin :: "ts_input_origin \<Rightarrow> pipeline_input_kind" where
  "kind_of_origin (OriginFrontend g) = InputFrontend g"
| "kind_of_origin (OriginPlaybackDvr d i e) = InputPlaybackDvr d i e"
| "kind_of_origin (OriginSourceFilter i g) = InputSourceFilter i g"

definition saturating_add_usize :: "nat \<Rightarrow> nat \<Rightarrow> nat" where
  "saturating_add_usize x y = min (x + y) USIZE_MAX"

definition pipeline_packet ::
  "validated_ts_packet \<Rightarrow> ts_input_origin \<Rightarrow> pipeline_filter_view list \<Rightarrow> packet_pipeline \<Rightarrow>
   pipeline_report \<times> packet_pipeline" where
  "pipeline_packet validated origin filters s =
     (let (r, s) = push_validated_ts_packet validated (kind_of_origin origin) s
      in if rp_accepted_packets r = 0 then (r, s)
         else
           let (d, s) = plan_and_assemble_ts_packet_report_after_preflight validated origin filters
                 (rp_assembly_suppression_reasons r) s
           in (r\<lparr>rp_dropped_packets := saturating_add_usize (rp_dropped_packets r) (rp_dropped_packets d),
                 rp_malformed_packets := saturating_add_usize (rp_malformed_packets r) (rp_malformed_packets d),
                 rp_drop_reasons := rp_drop_reasons r @ rp_drop_reasons d,
                 rp_assembly_suppression_reasons :=
                   rp_assembly_suppression_reasons r @ rp_assembly_suppression_reasons d,
                 rp_delivery_actions := rp_delivery_actions r @ rp_delivery_actions d,
                 rp_generated_events := rp_generated_events r @ rp_generated_events d,
                 rp_diagnostics := rp_diagnostics r @ rp_diagnostics d\<rparr>, s))"

subsection \<open>What the preflight does\<close>

lemma rp_simps [simp]:
  "rp_generated_events (rp_diagnose d r) = rp_generated_events r"
  "rp_delivery_actions (rp_diagnose d r) = rp_delivery_actions r"
  "rp_assembly_suppression_reasons (rp_diagnose d r) = rp_assembly_suppression_reasons r"
  "rp_accepted_packets (rp_diagnose d r) = rp_accepted_packets r"
  "rp_diagnostics (rp_diagnose d r) = rp_diagnostics r @ [d]"
  "rp_generated_events (rp_suppress x d r) = rp_generated_events r"
  "rp_delivery_actions (rp_suppress x d r) = rp_delivery_actions r"
  "rp_assembly_suppression_reasons (rp_suppress x d r) = rp_assembly_suppression_reasons r @ [x]"
  "rp_accepted_packets (rp_suppress x d r) = rp_accepted_packets r"
  "rp_generated_events (rp_drop y d r) = rp_generated_events r"
  "rp_delivery_actions (rp_drop y d r) = rp_delivery_actions r"
  "rp_assembly_suppression_reasons (rp_drop y d r) = rp_assembly_suppression_reasons r"
  "rp_accepted_packets (rp_drop y d r) = rp_accepted_packets r"
  "rp_diagnostics (rp_drop y d r) = rp_diagnostics r @ [d]"
  by (simp_all add: rp_diagnose_def rp_suppress_def rp_drop_def)

lemma report_default_simps [simp]:
  "rp_generated_events report_default = []" "rp_delivery_actions report_default = []"
  "rp_assembly_suppression_reasons report_default = []" "rp_accepted_packets report_default = 0"
  "rp_dropped_packets report_default = 0" "rp_drop_reasons report_default = []" "rp_diagnostics report_default = []"
  by (simp_all add: report_default_def)

lemma origin_kind [simp]: "origin_of_kind (kind_of_origin origin) = origin"
  by (cases origin) simp_all

text \<open>The tracker of an origin as the preflight sees it, and what it says of a packet.\<close>

definition preflight_tracker :: "validated_ts_packet \<Rightarrow> ts_input_origin \<Rightarrow> packet_pipeline \<Rightarrow> continuity_tracker" where
  "preflight_tracker v origin s =
     (let t = entry_or Map.empty (pl_continuity_trackers s) origin
      in if tv_discontinuity_indicator (vp_view v) then continuity_reset_pid (tv_pid (vp_view v)) t else t)"

definition preflight_observe ::
  "validated_ts_packet \<Rightarrow> ts_input_origin \<Rightarrow> packet_pipeline \<Rightarrow> continuity_outcome \<times> continuity_tracker" where
  "preflight_observe v origin s =
     continuity_observe (tv_pid (vp_view v)) (tv_continuity_counter (vp_view v)) (tv_payload (vp_view v) \<noteq> None)
       (vp_packet v) (preflight_tracker v origin s)"

definition preflight_resets :: "validated_ts_packet \<Rightarrow> ts_input_origin \<Rightarrow> packet_pipeline \<Rightarrow> bool" where
  "preflight_resets v origin s \<longleftrightarrow>
     tv_discontinuity_indicator (vp_view v) \<or>
     fst (preflight_observe v origin s) \<in> {CounterCollision, Discontinuity}"

lemma pl_note_simps [simp]:
  "pl_section_assemblers (pl_note f s) = pl_section_assemblers s"
  "pl_pes_assemblers (pl_note f s) = pl_pes_assemblers s"
  "pl_section_assembler_generations (pl_note f s) = pl_section_assembler_generations s"
  "pl_pes_assembler_generations (pl_note f s) = pl_pes_assembler_generations s"
  "pl_filter_section_flush_generations (pl_note f s) = pl_filter_section_flush_generations s"
  "pl_filter_pes_flush_generations (pl_note f s) = pl_filter_pes_flush_generations s"
  "pl_continuity_trackers (pl_note f s) = pl_continuity_trackers s"
  "pl_record_index_parsers (pl_note f s) = pl_record_index_parsers s"
  "pl_record_event_states (pl_note f s) = pl_record_event_states s"
  "pl_record_index_settings (pl_note f s) = pl_record_index_settings s"
  "pl_resync (pl_note f s) = pl_resync s"
  by (simp_all add: pl_note_def)

text \<open>
  Outcome and effect of the preflight: it creates no delivery, it records the reasons that hold
  back assembly, it stores the tracker's new state, and it resets the PID exactly on a
  discontinuity. Only the diagnostic counters are left unspecified.
\<close>

lemma reset_assembly_simps [simp]:
  "pl_continuity_trackers (reset_assembly_for_origin_pid origin pid s) = pl_continuity_trackers s"
  "pl_record_index_parsers (reset_assembly_for_origin_pid origin pid s) = pl_record_index_parsers s"
  "pl_record_event_states (reset_assembly_for_origin_pid origin pid s) = pl_record_event_states s"
  "pl_record_index_settings (reset_assembly_for_origin_pid origin pid s) = pl_record_index_settings s"
  "pl_resync (reset_assembly_for_origin_pid origin pid s) = pl_resync s"
  by (simp_all add: reset_assembly_for_origin_pid_def)

lemma preflight_continuity_report:
  "rp_generated_events (fst (preflight_continuity c origin pid rs)) = rp_generated_events (fst rs)"
  "rp_delivery_actions (fst (preflight_continuity c origin pid rs)) = rp_delivery_actions (fst rs)"
  "rp_accepted_packets (fst (preflight_continuity c origin pid rs)) = rp_accepted_packets (fst rs)"
  "rp_assembly_suppression_reasons (fst (preflight_continuity c origin pid rs)) =
     rp_assembly_suppression_reasons (fst rs) @
     (case c of Duplicate \<Rightarrow> [DuplicatePacket] | CounterCollision \<Rightarrow> [ContinuityCounterCollision] | _ \<Rightarrow> [])"
  by (cases rs; cases c; simp add: preflight_continuity_def Let_def)+

lemma check_continuity_preflight:
  "check_continuity origin (tv_pid (vp_view v)) (tv_continuity_counter (vp_view v)) (tv_payload (vp_view v) \<noteq> None)
     (vp_packet v) (snd (preflight_discontinuity origin (vp_view v) (preflight_tei (vp_view v) (r, s)))) =
   (fst (preflight_observe v origin s),
    (snd (preflight_discontinuity origin (vp_view v) (preflight_tei (vp_view v) (r, s))))
      \<lparr>pl_continuity_trackers := (pl_continuity_trackers s)(origin \<mapsto> snd (preflight_observe v origin s))\<rparr>)"
  by (cases "tv_discontinuity_indicator (vp_view v)")
    (simp_all add: check_continuity_def preflight_observe_def preflight_tracker_def preflight_discontinuity_def
      preflight_tei_def reset_continuity_pid_def Let_def split: prod.split)

lemma accept_conv:
  "accept_validated_ts_packet v kind s =
     (let origin = origin_of_kind kind;
          rs = preflight_discontinuity origin (vp_view v) (preflight_tei (vp_view v) (report_default, s));
          (r, s') = preflight_continuity (fst (preflight_observe v origin s)) origin (tv_pid (vp_view v))
            (fst rs, (snd rs)\<lparr>pl_continuity_trackers :=
               (pl_continuity_trackers s)(origin \<mapsto> snd (preflight_observe v origin s))\<rparr>);
          r = preflight_payload (vp_view v) r
      in (r\<lparr>rp_accepted_packets := rp_accepted_packets r + 1\<rparr>, s'))"
  using check_continuity_preflight [of "origin_of_kind kind" v report_default s]
  by (simp add: accept_validated_ts_packet_def Let_def case_prod_unfold)

lemma accept_report:
  "rp_generated_events (fst (accept_validated_ts_packet v kind s)) = []"
  "rp_delivery_actions (fst (accept_validated_ts_packet v kind s)) = []"
  "rp_accepted_packets (fst (accept_validated_ts_packet v kind s)) = 1"
  "set (rp_assembly_suppression_reasons (fst (accept_validated_ts_packet v kind s))) =
     (if tv_transport_error_indicator (vp_view v) then {TransportErrorIndicator} else {}) \<union>
     (case fst (preflight_observe v (origin_of_kind kind) s) of
        Duplicate \<Rightarrow> {DuplicatePacket} | CounterCollision \<Rightarrow> {ContinuityCounterCollision} | _ \<Rightarrow> {}) \<union>
     (if tv_payload (vp_view v) = None then {NoPayload} else {})"
  by (simp_all add: accept_conv Let_def case_prod_unfold preflight_continuity_report preflight_payload_def
      preflight_discontinuity_def preflight_tei_def split: continuity_outcome.split)

lemma accept_effect:
  "\<exists>c. snd (accept_validated_ts_packet v kind s) =
     (let origin = origin_of_kind kind;
          s' = s\<lparr>pl_continuity_trackers :=
                  (pl_continuity_trackers s)(origin \<mapsto> snd (preflight_observe v origin s)),
                pl_diagnostic_counters := c\<rparr>
      in if preflight_resets v origin s then reset_assembly_for_origin_pid origin (tv_pid (vp_view v)) s' else s')"
  by (rule exI [where x = "pl_diagnostic_counters (snd (accept_validated_ts_packet v kind s))"],
      cases "fst (preflight_observe v (origin_of_kind kind) s)"; cases "tv_discontinuity_indicator (vp_view v)";
      cases "tv_transport_error_indicator (vp_view v)")
    (simp_all add: accept_conv Let_def case_prod_unfold preflight_discontinuity_def preflight_tei_def
      preflight_continuity_def preflight_resets_def pl_note_def reset_continuity_pid_def
      reset_assembly_for_origin_pid_def)

lemma pipeline_packet_events:
  "rp_generated_events (fst (pipeline_packet v origin filters s)) =
     rp_generated_events (fst (plan_and_assemble_ts_packet_report_after_preflight v origin filters
       (rp_assembly_suppression_reasons (fst (accept_validated_ts_packet v (kind_of_origin origin) s)))
       (snd (accept_validated_ts_packet v (kind_of_origin origin) s))))"
  by (simp add: pipeline_packet_def push_validated_ts_packet_def case_prod_unfold Let_def accept_report)

lemma pipeline_packet_actions:
  "rp_delivery_actions (fst (pipeline_packet v origin filters s)) =
     rp_delivery_actions (fst (plan_and_assemble_ts_packet_report_after_preflight v origin filters
       (rp_assembly_suppression_reasons (fst (accept_validated_ts_packet v (kind_of_origin origin) s)))
       (snd (accept_validated_ts_packet v (kind_of_origin origin) s))))"
  by (simp add: pipeline_packet_def push_validated_ts_packet_def case_prod_unfold Let_def accept_report)

lemma pipeline_packet_state:
  "snd (pipeline_packet v origin filters s) =
     snd (plan_and_assemble_ts_packet_report_after_preflight v origin filters
       (rp_assembly_suppression_reasons (fst (accept_validated_ts_packet v (kind_of_origin origin) s)))
       (snd (accept_validated_ts_packet v (kind_of_origin origin) s)))"
  by (simp add: pipeline_packet_def push_validated_ts_packet_def case_prod_unfold Let_def accept_report)

subsection \<open>Packets do not touch other origins and PIDs\<close>

text \<open>Everything the pipeline keeps for one PID of one origin.\<close>

record pid_slice =
  sl_sections :: "i32 \<rightharpoonup> section_assembler"
  sl_pes :: "i32 \<rightharpoonup> pes_assembler"
  sl_section_generation :: "u64 option"
  sl_pes_generation :: "u64 option"
  sl_section_flush :: "i32 \<rightharpoonup> u64"
  sl_pes_flush :: "i32 \<rightharpoonup> u64"
  sl_continuity :: "continuity_state option"

definition stream_slice :: "ts_input_origin \<Rightarrow> packet_pid \<Rightarrow> packet_pipeline \<Rightarrow> pid_slice" where
  "stream_slice origin pid s =
     \<lparr>sl_sections = (\<lambda>f. pl_section_assemblers s (origin, pid, f)),
      sl_pes = (\<lambda>f. pl_pes_assemblers s (origin, pid, f)),
      sl_section_generation = pl_section_assembler_generations s (origin, pid),
      sl_pes_generation = pl_pes_assembler_generations s (origin, pid),
      sl_section_flush = (\<lambda>f. pl_filter_section_flush_generations s (origin, f, pid)),
      sl_pes_flush = (\<lambda>f. pl_filter_pes_flush_generations s (origin, f, pid)),
      sl_continuity = entry_or Map.empty (pl_continuity_trackers s) origin pid\<rparr>"

definition fresh_slice :: pid_slice where
  "fresh_slice = \<lparr>sl_sections = Map.empty, sl_pes = Map.empty, sl_section_generation = None, sl_pes_generation = None,
     sl_section_flush = Map.empty, sl_pes_flush = Map.empty, sl_continuity = None\<rparr>"

lemma slice_reset_other:
  "(o', p') \<noteq> (origin, pid) \<Longrightarrow> stream_slice o' p' (reset_assembly_for_origin_pid origin pid s) = stream_slice o' p' s"
  by (auto simp: stream_slice_def reset_assembly_for_origin_pid_def)

lemma slice_drop_other:
  "(o', p') \<noteq> (origin, pid) \<Longrightarrow> stream_slice o' p' (drop_generations_for_pid_origin origin pid b c s) = stream_slice o' p' s"
  by (auto simp: stream_slice_def drop_generations_for_pid_origin_def Let_def)

lemma slice_bump_other:
  "(o', p') \<noteq> (origin, pid) \<Longrightarrow> stream_slice o' p' (snd (bump_section_generation origin pid s)) = stream_slice o' p' s"
  "(o', p') \<noteq> (origin, pid) \<Longrightarrow> stream_slice o' p' (snd (bump_pes_generation origin pid s)) = stream_slice o' p' s"
  by (auto simp: stream_slice_def bump_section_generation_def bump_pes_generation_def Let_def split: option.split)

lemma slice_assemble_other:
  assumes "(o', p') \<noteq> (origin, pid)"
  shows "stream_slice o' p' (snd (assemble_section_for_filter origin pid f raw pusi x s)) = stream_slice o' p' s"
    and "stream_slice o' p' (snd (assemble_pes_for_filter origin f pid pusi x s)) = stream_slice o' p' s"
    and "stream_slice o' p' (snd (take_pes_drop (origin, pid, f) s)) = stream_slice o' p' s"
  using assms
  by (auto simp: stream_slice_def assemble_section_for_filter_def assemble_pes_for_filter_def take_pes_drop_def Let_def
      split: prod.split option.split)

lemma slice_assemble_sections_other:
  "(o', p') \<noteq> (origin, pid) \<Longrightarrow> stream_slice o' p' (snd (assemble_sections origin pid pusi x g fs r s)) = stream_slice o' p' s"
proof (induction fs arbitrary: r s)
  case (Cons f fs)
  then show ?case
    by (cases f) (auto simp: Let_def case_prod_unfold slice_assemble_other)
qed simp

lemma slice_assemble_pes_other:
  "(o', p') \<noteq> (origin, pid) \<Longrightarrow> stream_slice o' p' (snd (assemble_pes origin pid pusi x g filters fs r s)) = stream_slice o' p' s"
proof (induction fs arbitrary: r s)
  case (Cons f fs)
  then show ?case
    by (auto simp: Let_def case_prod_unfold slice_assemble_other)
qed simp

lemmas slice_other = slice_reset_other slice_drop_other slice_bump_other slice_assemble_sections_other
  slice_assemble_pes_other

lemma slice_section_stage_other:
  "(o', p') \<noteq> (origin, pid) \<Longrightarrow> stream_slice o' p' (snd (section_stage origin pid pusi x filters r s)) = stream_slice o' p' s"
  by (auto simp: section_stage_def Let_def case_prod_unfold slice_other split: option.split)

lemma slice_pes_stage_other:
  "(o', p') \<noteq> (origin, pid) \<Longrightarrow> stream_slice o' p' (snd (pes_stage origin pid pusi x filters r s)) = stream_slice o' p' s"
  by (auto simp: pes_stage_def Let_def case_prod_unfold slice_other split: option.split)

lemma slice_plan_other:
  "(o', p') \<noteq> (origin, tv_pid (vp_view v)) \<Longrightarrow>
   stream_slice o' p' (snd (plan_and_assemble_ts_packet_report_after_preflight v origin filters pre s)) = stream_slice o' p' s"
  by (auto simp: plan_and_assemble_ts_packet_report_after_preflight_def Let_def case_prod_unfold
      slice_section_stage_other slice_pes_stage_other slice_reset_other split: option.split)

lemma preflight_observe_other:
  "p' \<noteq> tv_pid (vp_view v) \<Longrightarrow>
   snd (preflight_observe v origin s) p' = entry_or Map.empty (pl_continuity_trackers s) origin p'"
  by (auto simp: preflight_observe_def preflight_tracker_def continuity_observe_def continuity_reset_pid_def Let_def
      split: option.split)

lemma slice_accept_other:
  assumes "(o', p') \<noteq> (origin, tv_pid (vp_view v))"
  shows "stream_slice o' p' (snd (accept_validated_ts_packet v (kind_of_origin origin) s)) = stream_slice o' p' s"
proof -
  obtain c where "snd (accept_validated_ts_packet v (kind_of_origin origin) s) =
     (let s' = s\<lparr>pl_continuity_trackers := (pl_continuity_trackers s)(origin \<mapsto> snd (preflight_observe v origin s)),
                pl_diagnostic_counters := c\<rparr>
      in if preflight_resets v origin s then reset_assembly_for_origin_pid origin (tv_pid (vp_view v)) s' else s')"
    using accept_effect [of v "kind_of_origin origin" s] by (auto simp: Let_def)
  then show ?thesis
    using assms by (auto simp: Let_def slice_reset_other) (auto simp: stream_slice_def preflight_observe_other entry_or_def)
qed

text \<open>
  C2. Streams do not disturb each other: a packet changes nothing that the pipeline keeps for any
  other PID or any other origin, neither partial sections and PES packets nor generations nor
  continuity, whatever the packet carries.
\<close>

theorem packet_isolation:
  "(o', p') \<noteq> (origin, tv_pid (vp_view v)) \<Longrightarrow>
   stream_slice o' p' (snd (pipeline_packet v origin filters s)) = stream_slice o' p' s"
  by (simp add: pipeline_packet_state slice_plan_other slice_accept_other)

subsection \<open>A PID's packets reach their assembler\<close>

definition section_of_event :: "i32 \<Rightarrow> pipeline_generated_event \<Rightarrow> bytes option" where
  "section_of_event f e = (case e of SectionPayloadReady i _ _ _ b \<Rightarrow> if i = f then Some b else None | _ \<Rightarrow> None)"

definition ready_sections :: "i32 \<Rightarrow> pipeline_report \<Rightarrow> bytes list" where
  "ready_sections f r = List.map_filter (section_of_event f) (rp_generated_events r)"

lemma map_filter_append: "List.map_filter g (xs @ ys) = List.map_filter g xs @ List.map_filter g ys"
  by (simp add: List.map_filter_def)

lemma map_filter_simps:
  "List.map_filter g [] = []"
  "List.map_filter g (x # xs) = (case g x of None \<Rightarrow> List.map_filter g xs | Some y \<Rightarrow> y # List.map_filter g xs)"
  by (simp_all add: List.map_filter_def split: option.split)

lemma ready_sections_map:
  "List.map_filter (section_of_event f) (map (SectionPayloadReady i pid g raw) bs) = (if i = f then bs else [])"
  by (induction bs) (auto simp: map_filter_simps section_of_event_def)

lemma section_state_push_conv:
  "so_sections (fst (section_state_push pusi x req a)) = fst (push_payload_with_reserved_bit_policy req pusi x a)"
  "snd (section_state_push pusi x req a) = snd (push_payload_with_reserved_bit_policy req pusi x a)"
  by (simp_all add: section_state_push_def push_payload_with_outcome_def push_payload_with_outcome_policy_def Let_def
      split: prod.split)

lemma assemble_section_simps [simp]:
  "pl_section_assemblers (snd (assemble_section_for_filter origin pid f raw pusi x s)) =
     (pl_section_assemblers s)((origin, pid, f) \<mapsto> snd (push_payload_with_reserved_bit_policy (\<not> raw) pusi x
        (entry_or section_assembler_default (pl_section_assemblers s) (origin, pid, f))))"
  "so_sections (fst (assemble_section_for_filter origin pid f raw pusi x s)) =
     fst (push_payload_with_reserved_bit_policy (\<not> raw) pusi x
        (entry_or section_assembler_default (pl_section_assemblers s) (origin, pid, f)))"
  "pl_pes_assemblers (snd (assemble_section_for_filter origin pid f raw pusi x s)) = pl_pes_assemblers s"
  "pl_section_assembler_generations (snd (assemble_section_for_filter origin pid f raw pusi x s)) =
     pl_section_assembler_generations s"
  "pl_pes_assembler_generations (snd (assemble_section_for_filter origin pid f raw pusi x s)) =
     pl_pes_assembler_generations s"
  "pl_continuity_trackers (snd (assemble_section_for_filter origin pid f raw pusi x s)) = pl_continuity_trackers s"
  by (simp_all add: assemble_section_for_filter_def Let_def section_state_push_conv [symmetric] case_prod_unfold)

lemma assemble_sections_not_in:
  assumes "f \<notin> fst ` set fs"
  shows "pl_section_assemblers (snd (assemble_sections origin pid pusi x g fs r s)) (origin, pid, f) =
      pl_section_assemblers s (origin, pid, f)"
    and "ready_sections f (fst (assemble_sections origin pid pusi x g fs r s)) = ready_sections f r"
  using assms
proof (induction fs arbitrary: r s)
  case (Cons a fs)
  obtain i raw where a: "a = (i, raw)" by (cases a)
  { case 1 with Cons.IH(1) show ?case by (simp add: a Let_def case_prod_unfold) }
  { case 2 with Cons.IH(2) show ?case
      by (auto simp: a Let_def case_prod_unfold ready_sections_def map_filter_append ready_sections_map) }
qed simp_all

lemma assemble_sections_in:
  assumes "distinct (map fst fs)" and "(f, raw) \<in> set fs"
  shows "pl_section_assemblers (snd (assemble_sections origin pid pusi x g fs r s)) (origin, pid, f) =
      Some (snd (push_payload_with_reserved_bit_policy (\<not> raw) pusi x
        (entry_or section_assembler_default (pl_section_assemblers s) (origin, pid, f))))"
    and "ready_sections f (fst (assemble_sections origin pid pusi x g fs r s)) = ready_sections f r @
      fst (push_payload_with_reserved_bit_policy (\<not> raw) pusi x
        (entry_or section_assembler_default (pl_section_assemblers s) (origin, pid, f)))"
  using assms
proof (induction fs arbitrary: r s)
  case (Cons a fs)
  obtain i b where a: "a = (i, b)" by (cases a)
  { case 1
    show ?case
    proof (cases "i = f")
      case True
      with 1 a have "f \<notin> fst ` set fs" and "b = raw" by (auto simp: image_iff)
      with True show ?thesis by (simp add: a Let_def case_prod_unfold assemble_sections_not_in)
    next
      case False
      with 1 Cons.IH(1) show ?thesis by (simp add: a Let_def case_prod_unfold entry_or_def)
    qed }
  { case 2
    show ?case
    proof (cases "i = f")
      case True
      with 2 a have "f \<notin> fst ` set fs" and "b = raw" by (auto simp: image_iff)
      with True show ?thesis
        by (simp add: a Let_def case_prod_unfold assemble_sections_not_in)
          (simp add: ready_sections_def map_filter_append ready_sections_map)
    next
      case False
      with 2 Cons.IH(2) show ?thesis
        by (simp add: a Let_def case_prod_unfold entry_or_def)
          (simp add: ready_sections_def map_filter_append ready_sections_map)
    qed }
qed simp_all

lemma assemble_sections_rest:
  "pl_section_assembler_generations (snd (assemble_sections origin pid pusi x g fs r s)) = pl_section_assembler_generations s"
  "pl_pes_assembler_generations (snd (assemble_sections origin pid pusi x g fs r s)) = pl_pes_assembler_generations s"
  "pl_continuity_trackers (snd (assemble_sections origin pid pusi x g fs r s)) = pl_continuity_trackers s"
  "rp_delivery_actions (fst (assemble_sections origin pid pusi x g fs r s)) = rp_delivery_actions r"
  by (induction fs arbitrary: r s) (auto simp: Let_def case_prod_unfold)

lemma pes_ops_rest [simp]:
  "pl_section_assemblers (snd (assemble_pes_for_filter origin f pid pusi x s)) = pl_section_assemblers s"
  "pl_section_assembler_generations (snd (assemble_pes_for_filter origin f pid pusi x s)) = pl_section_assembler_generations s"
  "pl_pes_assembler_generations (snd (assemble_pes_for_filter origin f pid pusi x s)) = pl_pes_assembler_generations s"
  "pl_continuity_trackers (snd (assemble_pes_for_filter origin f pid pusi x s)) = pl_continuity_trackers s"
  "pl_section_assemblers (snd (take_pes_drop k s)) = pl_section_assemblers s"
  "pl_section_assembler_generations (snd (take_pes_drop k s)) = pl_section_assembler_generations s"
  "pl_pes_assembler_generations (snd (take_pes_drop k s)) = pl_pes_assembler_generations s"
  "pl_continuity_trackers (snd (take_pes_drop k s)) = pl_continuity_trackers s"
  by (simp_all add: assemble_pes_for_filter_def take_pes_drop_def Let_def case_prod_unfold split: option.split)

lemma section_of_pes_events [simp]:
  "List.map_filter (section_of_event f) (map (PesPacketReady i pid g raw) ps) = []"
  by (induction ps) (auto simp: map_filter_simps section_of_event_def)

lemma assemble_pes_rest:
  "pl_section_assemblers (snd (assemble_pes origin pid pusi x g filters fs r s)) = pl_section_assemblers s"
  "pl_section_assembler_generations (snd (assemble_pes origin pid pusi x g filters fs r s)) =
     pl_section_assembler_generations s"
  "pl_pes_assembler_generations (snd (assemble_pes origin pid pusi x g filters fs r s)) = pl_pes_assembler_generations s"
  "pl_continuity_trackers (snd (assemble_pes origin pid pusi x g filters fs r s)) = pl_continuity_trackers s"
  "ready_sections f (fst (assemble_pes origin pid pusi x g filters fs r s)) = ready_sections f r"
  by (induction fs arbitrary: r s)
    (auto simp: Let_def case_prod_unfold ready_sections_def map_filter_append split: option.split)

text \<open>A generation can be bumped unless it is the last one.\<close>

lemma bump_section_Some:
  assumes "unat (current_section_generation origin pid s) + 1 < 2 ^ 64"
  shows "\<exists>g. bump_section_generation origin pid s =
      (Some g, s\<lparr>pl_section_assembler_generations := (pl_section_assembler_generations s)((origin, pid) \<mapsto> g)\<rparr>) \<and>
    unat g = unat (current_section_generation origin pid s) + 1"
  using assms
  by (auto simp: bump_section_generation_def current_section_generation_def PIPELINE_GENERATION_INITIAL_def Let_def
      checked_add_u64_def unat_word_ariths)

lemma bump_pes_Some:
  assumes "unat (current_pes_generation origin pid s) + 1 < 2 ^ 64"
  shows "\<exists>g. bump_pes_generation origin pid s =
      (Some g, s\<lparr>pl_pes_assembler_generations := (pl_pes_assembler_generations s)((origin, pid) \<mapsto> g)\<rparr>) \<and>
    unat g = unat (current_pes_generation origin pid s) + 1"
  using assms
  by (auto simp: bump_pes_generation_def current_pes_generation_def PIPELINE_GENERATION_INITIAL_def Let_def
      checked_add_u64_def unat_word_ariths)

lemma pes_stage_rest:
  assumes "unat (current_pes_generation origin pid s) + 1 < 2 ^ 64"
  shows "pl_section_assemblers (snd (pes_stage origin pid pusi x filters r s)) = pl_section_assemblers s"
    and "pl_section_assembler_generations (snd (pes_stage origin pid pusi x filters r s)) = pl_section_assembler_generations s"
    and "pl_continuity_trackers (snd (pes_stage origin pid pusi x filters r s)) = pl_continuity_trackers s"
    and "ready_sections f (fst (pes_stage origin pid pusi x filters r s)) = ready_sections f r"
    and "unat (current_pes_generation origin pid (snd (pes_stage origin pid pusi x filters r s))) \<le>
      unat (current_pes_generation origin pid s) + 1"
proof -
  obtain g where g: "bump_pes_generation origin pid s =
      (Some g, s\<lparr>pl_pes_assembler_generations := (pl_pes_assembler_generations s)((origin, pid) \<mapsto> g)\<rparr>)"
    and u: "unat g = unat (current_pes_generation origin pid s) + 1"
    using bump_pes_Some [OF assms] by auto
  show "pl_section_assemblers (snd (pes_stage origin pid pusi x filters r s)) = pl_section_assemblers s"
    and "pl_section_assembler_generations (snd (pes_stage origin pid pusi x filters r s)) = pl_section_assembler_generations s"
    and "pl_continuity_trackers (snd (pes_stage origin pid pusi x filters r s)) = pl_continuity_trackers s"
    and "ready_sections f (fst (pes_stage origin pid pusi x filters r s)) = ready_sections f r"
    by (simp_all add: pes_stage_def Let_def g assemble_pes_rest drop_generations_for_pid_origin_def)
  show "unat (current_pes_generation origin pid (snd (pes_stage origin pid pusi x filters r s))) \<le>
      unat (current_pes_generation origin pid s) + 1"
    using u by (simp add: pes_stage_def Let_def g current_pes_generation_def assemble_pes_rest
        drop_generations_for_pid_origin_def) (simp add: entry_or_def PIPELINE_GENERATION_INITIAL_def)
qed

lemma plan_sections:
  "List.map_filter section_action_id (plan_packet_delivery pid origin filters @
     map SectionPayload ids @ plan_pes_actions pid origin filters) = ids"
proof -
  have "List.map_filter section_action_id (plan_packet_delivery pid origin filters) = []"
    unfolding plan_packet_delivery_def
    by (induction filters)
      (auto simp: map_filter_simps map_filter_append delivery_of_filter_def section_action_id_def
        split: pipeline_open_kind.split)
  moreover have "List.map_filter section_action_id (plan_pes_actions pid origin filters) = []"
    unfolding plan_pes_actions_def
    by (induction filters)
      (auto simp: map_filter_simps section_action_id_def split: pipeline_open_kind.split)
  moreover have "List.map_filter section_action_id (map SectionPayload ids) = ids"
    by (induction ids) (simp_all add: map_filter_simps section_action_id_def)
  ultimately show ?thesis by (simp add: map_filter_append)
qed

lemma planned_event_sections: "List.map_filter (section_of_event f) (concat (map (planned_event filters) as)) = []"
proof (induction as)
  case (Cons a as)
  then show ?case by (cases a) (simp_all add: map_filter_simps section_of_event_def)
qed (simp add: map_filter_simps)

lemma section_stage_own:
  fixes x pusi filters
  assumes f: "f \<in> set (List.map_filter section_action_id (rp_delivery_actions r))"
    and d: "distinct (List.map_filter section_action_id (rp_delivery_actions r))"
    and gen: "unat (current_section_generation origin pid s) + 1 < 2 ^ 64"
  defines "out \<equiv> push_payload_with_reserved_bit_policy (\<not> filter_flag fv_section_raw filters f) pusi x
      (entry_or section_assembler_default (pl_section_assemblers s) (origin, pid, f))"
  shows "pl_section_assemblers (snd (section_stage origin pid pusi x filters r s)) (origin, pid, f) = Some (snd out)"
    and "ready_sections f (fst (section_stage origin pid pusi x filters r s)) = ready_sections f r @ fst out"
    and "pl_pes_assembler_generations (snd (section_stage origin pid pusi x filters r s)) = pl_pes_assembler_generations s"
    and "pl_continuity_trackers (snd (section_stage origin pid pusi x filters r s)) = pl_continuity_trackers s"
    and "unat (current_section_generation origin pid (snd (section_stage origin pid pusi x filters r s))) \<le>
      unat (current_section_generation origin pid s) + 1"
proof -
  let ?ids = "List.map_filter section_action_id (rp_delivery_actions r)"
  define fs where "fs = map (\<lambda>i. (i, filter_flag fv_section_raw filters i)) ?ids"
  have fs: "fs \<noteq> []" "(f, filter_flag fv_section_raw filters f) \<in> set fs" "distinct (map fst fs)"
    using f d by (auto simp: fs_def comp_def)
  obtain g where g: "bump_section_generation origin pid s =
      (Some g, s\<lparr>pl_section_assembler_generations := (pl_section_assembler_generations s)((origin, pid) \<mapsto> g)\<rparr>)"
    and u: "unat g = unat (current_section_generation origin pid s) + 1"
    using bump_section_Some [OF gen] by auto
  have st: "section_stage origin pid pusi x filters r s =
    (if pusi then assemble_sections origin pid pusi x g fs r
       (s\<lparr>pl_section_assembler_generations := (pl_section_assembler_generations s)((origin, pid) \<mapsto> g)\<rparr>)
     else assemble_sections origin pid pusi x (current_section_generation origin pid s) fs r s)"
    using fs(1) by (simp add: section_stage_def fs_def [symmetric] Let_def g)
  show "pl_section_assemblers (snd (section_stage origin pid pusi x filters r s)) (origin, pid, f) = Some (snd out)"
    and "ready_sections f (fst (section_stage origin pid pusi x filters r s)) = ready_sections f r @ fst out"
    by (simp_all add: st assemble_sections_in [OF fs(3,2)] out_def)
  show "pl_pes_assembler_generations (snd (section_stage origin pid pusi x filters r s)) = pl_pes_assembler_generations s"
    and "pl_continuity_trackers (snd (section_stage origin pid pusi x filters r s)) = pl_continuity_trackers s"
    by (simp_all add: st assemble_sections_rest)
  show "unat (current_section_generation origin pid (snd (section_stage origin pid pusi x filters r s))) \<le>
      unat (current_section_generation origin pid s) + 1"
    using u by (simp add: st current_section_generation_def assemble_sections_rest)
qed

lemma filter_flag_member:
  assumes "distinct (map fv_filter_id filters)" and "fv \<in> set filters"
  shows "filter_flag flag filters (fv_filter_id fv) = flag fv"
  using assms
proof (induction filters)
  case (Cons a filters)
  show ?case
  proof (cases "a = fv")
    case False
    with Cons.prems have "fv_filter_id a \<noteq> fv_filter_id fv" and "fv \<in> set filters"
      by (auto simp: image_iff)
    with Cons show ?thesis by (simp add: filter_flag_def)
  qed (simp add: filter_flag_def)
qed simp

text \<open>
  A packet whose payload may be assembled: no transport error, not scrambled, no discontinuity
  flag, and with a payload.
\<close>

definition clean_packet :: "validated_ts_packet \<Rightarrow> bool" where
  "clean_packet v \<longleftrightarrow> \<not> tv_transport_error_indicator (vp_view v) \<and> \<not> tv_discontinuity_indicator (vp_view v) \<and>
     tv_scrambling_control (vp_view v) = 0 \<and> tv_payload (vp_view v) \<noteq> None"

definition follows :: "continuity_state option \<Rightarrow> u8 \<Rightarrow> bool" where
  "follows c cc \<longleftrightarrow> (case c of None \<Rightarrow> True | Some t \<Rightarrow>
     (case last_counter t of None \<Rightarrow> True | Some l \<Rightarrow> cc = (l + 1) AND 0x0f))"

lemma next_counter_neq: "((l :: u8) + 1) AND 0x0f \<noteq> l"
proof
  assume "(l + 1) AND 0x0f = l"
  then have "take_bit 4 (l + 1) = l" by (simp add: and_mask_lits)
  then have "even l \<longleftrightarrow> even (take_bit 4 (l + 1))" by simp
  then show False by (simp add: even_take_bit_eq)
qed

lemma clean_preflight:
  assumes "clean_packet v"
    and "follows (sl_continuity (stream_slice origin (tv_pid (vp_view v)) s)) (tv_continuity_counter (vp_view v))"
  shows "fst (preflight_observe v origin s) \<in> {FirstPacket, InOrder}"
    and "snd (preflight_observe v origin s) (tv_pid (vp_view v)) =
      Some \<lparr>last_counter = Some (tv_continuity_counter (vp_view v)), last_packet = Some (vp_packet v)\<rparr>"
  using assms next_counter_neq
  by (auto simp: clean_packet_def follows_def stream_slice_def preflight_observe_def preflight_tracker_def
      continuity_observe_def Let_def entry_or_def continuity_state_default_def split: option.splits)

definition section_view :: "pipeline_filter_view list \<Rightarrow> pipeline_filter_view \<Rightarrow> ts_input_origin \<Rightarrow> packet_pid \<Rightarrow> bool" where
  "section_view filters fv origin pid \<longleftrightarrow> fv \<in> set filters \<and> distinct (map fv_filter_id filters) \<and>
     accepts_packet_pid_from_origin fv pid origin \<and> fv_open_kind fv = KindSection"

definition section_push :: "pipeline_filter_view \<Rightarrow> bool \<Rightarrow> bytes \<Rightarrow> section_assembler \<Rightarrow> bytes list \<times> section_assembler" where
  "section_push fv = push_payload_with_reserved_bit_policy (\<not> fv_section_raw fv)"

definition section_state :: "ts_input_origin \<Rightarrow> packet_pid \<Rightarrow> i32 \<Rightarrow> packet_pipeline \<Rightarrow> section_assembler" where
  "section_state origin pid f s = entry_or section_assembler_default (pl_section_assemblers s) (origin, pid, f)"

lemma plan_events:
  "rp_generated_events (plan_ts_packet_report v origin filters) =
     concat (map (planned_event filters) (rp_delivery_actions (plan_ts_packet_report v origin filters)))"
  by (simp add: plan_ts_packet_report_def Let_def)

lemma clean_plan:
  assumes "clean_packet v" and "section_view filters fv origin (tv_pid (vp_view v))"
  defines "ids \<equiv> List.map_filter section_action_id (rp_delivery_actions (plan_ts_packet_report v origin filters))"
  shows "fv_filter_id fv \<in> set ids" and "distinct ids"
    and "ready_sections f (plan_ts_packet_report v origin filters) = []"
proof -
  have "ids = plan_section_filters (tv_pid (vp_view v)) origin filters"
    using assms(1) plan_sections
    by (simp add: ids_def plan_ts_packet_report_def Let_def clean_packet_def)
  with assms(2) show "fv_filter_id fv \<in> set ids" and "distinct ids"
    by (auto simp: section_view_def plan_section_filters_def distinct_map inj_on_def)
qed (simp add: ready_sections_def plan_events planned_event_sections)

text \<open>For a clean packet in order, the pipeline is its two stages on the state after the preflight.\<close>

lemma clean_packet_stages:
  assumes clean: "clean_packet v"
    and cc: "follows (sl_continuity (stream_slice origin (tv_pid (vp_view v)) s)) (tv_continuity_counter (vp_view v))"
  obtains c where
    "let s1 = s\<lparr>pl_continuity_trackers :=
           (pl_continuity_trackers s)(origin \<mapsto> snd (preflight_observe v origin s)), pl_diagnostic_counters := c\<rparr>;
         st = section_stage origin (tv_pid (vp_view v)) (tv_payload_unit_start (vp_view v))
           (the (tv_payload (vp_view v))) filters (plan_ts_packet_report v origin filters) s1;
         out = pes_stage origin (tv_pid (vp_view v)) (tv_payload_unit_start (vp_view v))
           (the (tv_payload (vp_view v))) filters (fst st) (snd st)
     in snd (pipeline_packet v origin filters s) = snd out \<and>
        rp_generated_events (fst (pipeline_packet v origin filters s)) = rp_generated_events (fst out)"
proof -
  note ob = clean_preflight [OF clean cc]
  have "\<not> preflight_resets v origin s" using ob(1) clean by (auto simp: preflight_resets_def clean_packet_def)
  then obtain c where s1: "snd (accept_validated_ts_packet v (kind_of_origin origin) s) = s\<lparr>pl_continuity_trackers :=
      (pl_continuity_trackers s)(origin \<mapsto> snd (preflight_observe v origin s)), pl_diagnostic_counters := c\<rparr>"
    using accept_effect [of v "kind_of_origin origin" s] by (auto simp: Let_def)
  have pre: "rp_assembly_suppression_reasons (fst (accept_validated_ts_packet v (kind_of_origin origin) s)) = []"
    using ob(1) clean accept_report(4) [of v "kind_of_origin origin" s] by (auto simp: clean_packet_def)
  from clean pre show thesis
    by (intro that [of c])
      (auto simp: pipeline_packet_state pipeline_packet_events plan_and_assemble_ts_packet_report_after_preflight_def
        Let_def clean_packet_def case_prod_unfold s1)
qed

lemma clean_step:
  fixes v filters s origin
  defines "pid \<equiv> tv_pid (vp_view v)"
  defines "s' \<equiv> snd (pipeline_packet v origin filters s)" and "r \<equiv> fst (pipeline_packet v origin filters s)"
  assumes clean: "clean_packet v" and cc: "follows (sl_continuity (stream_slice origin pid s)) (tv_continuity_counter (vp_view v))"
    and view: "section_view filters fv origin pid"
    and sgen: "unat (current_section_generation origin pid s) + 1 < 2 ^ 64"
    and pgen: "unat (current_pes_generation origin pid s) + 1 < 2 ^ 64"
  shows "(ready_sections (fv_filter_id fv) r, section_state origin pid (fv_filter_id fv) s') =
      section_push fv (tv_payload_unit_start (vp_view v)) (the (tv_payload (vp_view v)))
        (section_state origin pid (fv_filter_id fv) s)"
    and "sl_continuity (stream_slice origin pid s') =
      Some \<lparr>last_counter = Some (tv_continuity_counter (vp_view v)), last_packet = Some (vp_packet v)\<rparr>"
    and "unat (current_section_generation origin pid s') \<le> unat (current_section_generation origin pid s) + 1"
    and "unat (current_pes_generation origin pid s') \<le> unat (current_pes_generation origin pid s) + 1"
proof -
  let ?f = "fv_filter_id fv" and ?pusi = "tv_payload_unit_start (vp_view v)" and ?x = "the (tv_payload (vp_view v))"
  obtain c where c: "let s1 = s\<lparr>pl_continuity_trackers :=
           (pl_continuity_trackers s)(origin \<mapsto> snd (preflight_observe v origin s)), pl_diagnostic_counters := c\<rparr>;
         st = section_stage origin pid ?pusi ?x filters (plan_ts_packet_report v origin filters) s1;
         out = pes_stage origin pid ?pusi ?x filters (fst st) (snd st)
     in s' = snd out \<and> rp_generated_events r = rp_generated_events (fst out)"
    using clean_packet_stages [OF clean cc [unfolded pid_def]] unfolding s'_def r_def pid_def .
  define s1 where "s1 = s\<lparr>pl_continuity_trackers :=
      (pl_continuity_trackers s)(origin \<mapsto> snd (preflight_observe v origin s)), pl_diagnostic_counters := c\<rparr>"
  define st where "st = section_stage origin pid ?pusi ?x filters (plan_ts_packet_report v origin filters) s1"
  have fin: "s' = snd (pes_stage origin pid ?pusi ?x filters (fst st) (snd st))"
    and rev: "ready_sections ?f r = ready_sections ?f (fst (pes_stage origin pid ?pusi ?x filters (fst st) (snd st)))"
    using c by (simp_all add: Let_def s1_def st_def ready_sections_def)
  have gens: "current_section_generation origin pid s1 = current_section_generation origin pid s"
    "current_pes_generation origin pid s1 = current_pes_generation origin pid s"
    by (simp_all add: s1_def current_section_generation_def current_pes_generation_def)
  note plan = clean_plan [OF clean view [unfolded pid_def]]
  note own = section_stage_own [where s = s1 and origin = origin and pid = pid and filters = filters
      and pusi = ?pusi and x = ?x, OF plan(1,2), unfolded gens, OF sgen, folded st_def]
  have pg: "current_pes_generation origin pid (snd st) = current_pes_generation origin pid s"
    using own(3) by (simp add: current_pes_generation_def s1_def)
  note rest = pes_stage_rest [OF pgen [folded pg], where pusi = ?pusi and x = ?x and filters = filters and r = "fst st"]
  have "filter_flag fv_section_raw filters ?f = fv_section_raw fv"
    using view by (simp add: section_view_def filter_flag_member)
  then show "(ready_sections ?f r, section_state origin pid ?f s') =
      section_push fv ?pusi ?x (section_state origin pid ?f s)"
    by (simp add: rev rest(4) own(2) plan(3) section_state_def fin rest(1) own(1) entry_or_def section_push_def)
      (simp add: s1_def)
  show "sl_continuity (stream_slice origin pid s') =
      Some \<lparr>last_counter = Some (tv_continuity_counter (vp_view v)), last_packet = Some (vp_packet v)\<rparr>"
    using clean_preflight(2) [OF clean cc [unfolded pid_def], folded pid_def]
    by (simp add: stream_slice_def fin rest(3) own(4) s1_def entry_or_def)
  show "unat (current_section_generation origin pid s') \<le> unat (current_section_generation origin pid s) + 1"
    using own(5) rest(2) by (simp add: fin current_section_generation_def)
  show "unat (current_pes_generation origin pid s') \<le> unat (current_pes_generation origin pid s) + 1"
    using rest(5) by (simp add: fin pg)
qed

subsection \<open>A run over interleaved packets\<close>

fun pipeline_run ::
  "pipeline_filter_view list \<Rightarrow> (validated_ts_packet \<times> ts_input_origin) list \<Rightarrow> packet_pipeline \<Rightarrow>
   ((validated_ts_packet \<times> ts_input_origin) \<times> pipeline_report) list \<times> packet_pipeline" where
  "pipeline_run filters [] s = ([], s)"
| "pipeline_run filters (x # xs) s =
     (let (r, s') = pipeline_packet (fst x) (snd x) filters s; (rs, s'') = pipeline_run filters xs s'
      in ((x, r) # rs, s''))"

definition of_stream :: "ts_input_origin \<Rightarrow> packet_pid \<Rightarrow> validated_ts_packet \<times> ts_input_origin \<Rightarrow> bool" where
  "of_stream origin pid x \<longleftrightarrow> (snd x, tv_pid (vp_view (fst x))) = (origin, pid)"

definition stream_packets ::
  "ts_input_origin \<Rightarrow> packet_pid \<Rightarrow> (validated_ts_packet \<times> ts_input_origin) list \<Rightarrow> validated_ts_packet list" where
  "stream_packets origin pid xs = map fst (filter (of_stream origin pid) xs)"

definition stream_payload :: "validated_ts_packet \<Rightarrow> bool \<times> bytes" where
  "stream_payload v = (tv_payload_unit_start (vp_view v), the (tv_payload (vp_view v)))"

definition delivered_sections ::
  "ts_input_origin \<Rightarrow> packet_pid \<Rightarrow> i32 \<Rightarrow> ((validated_ts_packet \<times> ts_input_origin) \<times> pipeline_report) list \<Rightarrow> bytes list" where
  "delivered_sections origin pid f rs =
     concat (map (\<lambda>(x, r). if of_stream origin pid x then ready_sections f r else []) rs)"

text \<open>The packets of a stream follow each other without loss.\<close>

fun in_order :: "continuity_state option \<Rightarrow> validated_ts_packet list \<Rightarrow> bool" where
  "in_order c [] = True"
| "in_order c (v # vs) \<longleftrightarrow> clean_packet v \<and> follows c (tv_continuity_counter (vp_view v)) \<and>
     in_order (Some \<lparr>last_counter = Some (tv_continuity_counter (vp_view v)), last_packet = Some (vp_packet v)\<rparr>) vs"

lemma run_refines_assembler:
  assumes "section_view filters fv origin pid"
    and "in_order (sl_continuity (stream_slice origin pid s)) (stream_packets origin pid xs)"
    and "unat (current_section_generation origin pid s) + length xs < 2 ^ 64"
    and "unat (current_pes_generation origin pid s) + length xs < 2 ^ 64"
  shows "(delivered_sections origin pid (fv_filter_id fv) (fst (pipeline_run filters xs s)),
          section_state origin pid (fv_filter_id fv) (snd (pipeline_run filters xs s))) =
    run_payloads (section_push fv) (map stream_payload (stream_packets origin pid xs))
      (section_state origin pid (fv_filter_id fv) s)"
  using assms
proof (induction xs arbitrary: s)
  case Nil
  then show ?case by (simp add: delivered_sections_def stream_packets_def)
next
  case (Cons x xs)
  obtain v o' where x: "x = (v, o')" by (cases x)
  let ?s' = "snd (pipeline_packet v o' filters s)"
  show ?case
  proof (cases "of_stream origin pid x")
    case True
    then have o': "o' = origin" and pid: "tv_pid (vp_view v) = pid" by (auto simp: of_stream_def x)
    have clean: "clean_packet v" and cc: "follows (sl_continuity (stream_slice origin pid s)) (tv_continuity_counter (vp_view v))"
      and rest: "in_order (Some \<lparr>last_counter = Some (tv_continuity_counter (vp_view v)), last_packet = Some (vp_packet v)\<rparr>)
        (stream_packets origin pid xs)"
      using Cons.prems(2) True by (simp_all add: stream_packets_def x)
    note step = clean_step [where v = v and origin = origin and s = s and filters = filters, unfolded pid,
        OF clean cc Cons.prems(1)]
    have g: "unat (current_section_generation origin pid s) + 1 < 2 ^ 64"
      "unat (current_pes_generation origin pid s) + 1 < 2 ^ 64"
      using Cons.prems(3,4) by simp_all
    have "(delivered_sections origin pid (fv_filter_id fv) (fst (pipeline_run filters xs ?s')),
          section_state origin pid (fv_filter_id fv) (snd (pipeline_run filters xs ?s'))) =
      run_payloads (section_push fv) (map stream_payload (stream_packets origin pid xs))
        (section_state origin pid (fv_filter_id fv) ?s')"
      using Cons.prems(3,4) step(3,4) [OF g] step(2) [OF g] rest
      by (intro Cons.IH Cons.prems(1)) (simp_all add: o')
    moreover have "run_payloads (section_push fv) (stream_payload v # ys) t =
        (let u = section_push fv (tv_payload_unit_start (vp_view v)) (the (tv_payload (vp_view v))) t;
             w = run_payloads (section_push fv) ys (snd u) in (fst u @ fst w, snd w))" for ys t
      by (simp add: stream_payload_def case_prod_unfold Let_def)
    ultimately show ?thesis
      using step(1) [OF g] True
      by (simp add: x o' Let_def case_prod_unfold delivered_sections_def stream_packets_def prod_eq_iff)
  next
    case False
    then have "(origin, pid) \<noteq> (o', tv_pid (vp_view v))" by (auto simp: of_stream_def x)
    then have sl: "stream_slice origin pid ?s' = stream_slice origin pid s"
      by (simp add: pipeline_packet_state slice_plan_other slice_accept_other)
    have "section_state origin pid (fv_filter_id fv) ?s' = section_state origin pid (fv_filter_id fv) s"
      and "current_section_generation origin pid ?s' = current_section_generation origin pid s"
      and "current_pes_generation origin pid ?s' = current_pes_generation origin pid s"
      using sl by (simp_all add: stream_slice_def section_state_def current_section_generation_def
          current_pes_generation_def entry_or_def fun_eq_iff)
    moreover have "stream_packets origin pid (x # xs) = stream_packets origin pid xs"
      using False by (simp add: stream_packets_def)
    ultimately show ?thesis
      using Cons.IH [of ?s'] Cons.prems sl False
      by (simp add: x Let_def case_prod_unfold delivered_sections_def)
  qed
qed

lemma fresh_stream:
  assumes "stream_slice origin pid s = fresh_slice"
  shows "section_state origin pid f s = section_assembler_default"
    and "current_section_generation origin pid s = 0" and "current_pes_generation origin pid s = 0"
    and "sl_continuity (stream_slice origin pid s) = None"
  using assms by (auto simp: stream_slice_def fresh_slice_def section_state_def current_section_generation_def
      current_pes_generation_def entry_or_def PIPELINE_GENERATION_INITIAL_def fun_eq_iff)

lemma run_from_fresh:
  assumes "section_view filters fv origin pid" and "stream_slice origin pid s = fresh_slice"
    and "in_order None (stream_packets origin pid xs)" and "length xs < 2 ^ 64"
  shows "delivered_sections origin pid (fv_filter_id fv) (fst (pipeline_run filters xs s)) =
    fst (run_payloads (push_payload_with_reserved_bit_policy (\<not> fv_section_raw fv))
      (map stream_payload (stream_packets origin pid xs)) section_assembler_default)"
  using run_refines_assembler [OF assms(1), of s xs] assms(3,4)
  by (simp add: section_push_def prod_eq_iff fresh_stream [OF assms(2)])

text \<open>
  C14. What a section filter receives from a stream, the packets of one PID from one origin, depends on
  that stream alone. Let the filter be a started section filter for this stream, with no two filters of one number, let
  the pipeline hold nothing of the stream yet, and let fewer than \<open>2 ^ 64\<close> packets arrive of which those of the
  stream are unscrambled, free of errors, carry payload and are in order. Then, however packets of any kind of other PIDs
  and origins come between them, the sections delivered to this filter from this stream are those that one
  section assembler alone returns for the stream's payloads, one after the other.
\<close>

theorem pipeline_refines_assembler:
  assumes "section_view filters fv origin pid" and "stream_slice origin pid s = fresh_slice"
    and "in_order None (stream_packets origin pid xs)" and "length xs < 2 ^ 64"
  shows "delivered_sections origin pid (fv_filter_id fv) (fst (pipeline_run filters xs s)) =
    fst (run_payloads (push_payload_with_reserved_bit_policy (\<not> fv_section_raw fv))
      (map stream_payload (stream_packets origin pid xs)) section_assembler_default)"
  using assms by (rule run_from_fresh)

text \<open>
  C1. Sections reach their filter: a multiplexer's sections, cut into the packets of one PID in
  any of the allowed ways and mixed with any other traffic, are delivered to the section filter
  of that PID complete, unchanged and in order.
\<close>

theorem pipeline_delivers_sections:
  assumes "section_view filters fv origin pid" and "stream_slice origin pid s = fresh_slice"
    and "in_order None (stream_packets origin pid xs)" and "length xs < 2 ^ 64"
    and "section_mux (\<not> fv_section_raw fv) None (map stream_payload (stream_packets origin pid xs)) sections"
  shows "delivered_sections origin pid (fv_filter_id fv) (fst (pipeline_run filters xs s)) = sections"
proof -
  have "mux_state (\<not> fv_section_raw fv) None section_assembler_default"
    by (simp add: mux_state_def section_pending_def section_assembler_default_def)
  from section_mux_run [OF assms(5) this] run_from_fresh [OF assms(1-4)] show ?thesis by simp
qed

text \<open>A packet with one short section for a given PID, and the filter that takes it.\<close>

definition sample_section_bytes :: "u8 \<Rightarrow> bytes" where
  "sample_section_bytes p = [0x47, 0x40, p, 0x10] @ 0 # [0x42, 0x30, 0x01, 7] @ replicate 179 0xff"

definition sample_section_packet :: "u8 \<Rightarrow> validated_ts_packet" where
  "sample_section_packet p =
     \<lparr>vp_packet = sample_section_bytes p,
      vp_view = ts_view (sample_section_bytes p) no_adaptation (Some (drop 4 (sample_section_bytes p)))\<rparr>"

definition sample_section_view :: pipeline_filter_view where
  "sample_section_view =
     \<lparr>fv_filter_id = 7, fv_tpid = Some 0x12, fv_started = True, fv_source_filter = None, fv_open_kind = KindSection,
      fv_section_raw = False, fv_pes_raw = False, fv_wants_record_index = False\<rparr>"

definition sample_traffic :: "(validated_ts_packet \<times> ts_input_origin) list" where
  "sample_traffic = [(sample_section_packet 0x11, OriginFrontend 1), (sample_section_packet 0x12, OriginFrontend 1),
     (sample_section_packet 0x12, OriginFrontend 2)]"

definition sample_pid :: packet_pid where
  "sample_pid = PacketPid (TransportStreamPid 0x12)"

lemma sample_section_valid: "validate_ts_packet (sample_section_bytes p) = Ok (sample_section_packet p)"
  by (simp add: validate_ts_packet_def ts_view_validate_def sample_section_packet_def sample_section_bytes_def
      TS_PACKET_SIZE_def Let_def)

lemma sample_section_fields [simp]:
  "tv_pid (vp_view (sample_section_packet p)) = PacketPid (TransportStreamPid (ucast p))"
  "clean_packet (sample_section_packet p)" "tv_continuity_counter (vp_view (sample_section_packet p)) = 0"
  "stream_payload (sample_section_packet p) =
     (True, of_nat (length ([] :: bytes)) # [] @ concat [[0x42, 0x30, 0x01, 7]] @ replicate 179 0xff)"
  by (simp_all add: sample_section_packet_def ts_view_def sample_section_bytes_def from_mpeg_ts_header_bytes_def
      clean_packet_def no_adaptation_def stream_payload_def)

lemma sample_traffic_facts:
  "section_view [sample_section_view] sample_section_view (OriginFrontend 1) sample_pid"
  "stream_slice (OriginFrontend 1) sample_pid pipeline_default = fresh_slice"
  "stream_packets (OriginFrontend 1) sample_pid sample_traffic = [sample_section_packet 0x12]"
  "in_order None [sample_section_packet 0x12]" "length sample_traffic < 2 ^ 64"
  "section_mux True None [stream_payload (sample_section_packet 0x12)] ([] @ [[0x42, 0x30, 0x01, 7]] @ [])"
proof -
  show "section_view [sample_section_view] sample_section_view (OriginFrontend 1) sample_pid"
    by (simp add: section_view_def sample_section_view_def sample_pid_def accepts_packet_pid_from_origin_def
        matches_config_tpid_def matches_i32_config_def)
  show "section_mux True None [stream_payload (sample_section_packet 0x12)] ([] @ [[0x42, 0x30, 0x01, 7]] @ [])"
    unfolding sample_section_fields(4)
    by (rule mux_start [where nxt = None and pend = None and n = 179]) (auto simp: sample_sections intro: mux_end)
qed (simp_all add: stream_slice_def fresh_slice_def pipeline_default_def entry_or_def stream_packets_def sample_traffic_def
    of_stream_def sample_pid_def follows_def)

theorem packet_isolation_witness:
  "stream_slice (OriginFrontend 2) sample_pid
     (snd (pipeline_packet (sample_section_packet 0x12) (OriginFrontend 1) [sample_section_view] pipeline_default)) =
   stream_slice (OriginFrontend 2) sample_pid pipeline_default"
  by (rule packet_isolation) simp

theorem pipeline_refines_assembler_witness:
  "delivered_sections (OriginFrontend 1) sample_pid 7 (fst (pipeline_run [sample_section_view] sample_traffic pipeline_default)) =
   fst (run_payloads (push_payload_with_reserved_bit_policy True) [stream_payload (sample_section_packet 0x12)]
     section_assembler_default)"
  using pipeline_refines_assembler [OF sample_traffic_facts(1,2), of sample_traffic] sample_traffic_facts(3-5)
  by (simp add: sample_section_view_def)

theorem pipeline_delivers_sections_witness:
  "delivered_sections (OriginFrontend 1) sample_pid 7 (fst (pipeline_run [sample_section_view] sample_traffic pipeline_default)) =
   [[0x42, 0x30, 0x01, 7]]"
  using pipeline_delivers_sections [OF sample_traffic_facts(1,2), of sample_traffic "[[0x42, 0x30, 0x01, 7]]"]
    sample_traffic_facts(3-6) by (simp add: sample_section_view_def)

end
