(* ===== verification/Pipeline_Invariant.thy ===== *)
theory Pipeline_Invariant
  imports Packet_Pipeline
begin

section \<open>Invariants and safety of the packet pipeline\<close>

text \<open>
  What holds in every state the pipeline can reach by any sequence of its operations, which
  packets are never assembled, what is delivered regardless, and what the resets leave behind.
\<close>

subsection \<open>Packets that are not assembled\<close>

definition assembled_event :: "pipeline_generated_event \<Rightarrow> bool" where
  "assembled_event e = (case e of SectionPayloadReady _ _ _ _ _ \<Rightarrow> True | PesPacketReady _ _ _ _ _ \<Rightarrow> True | _ \<Rightarrow> False)"

definition suppressed :: "validated_ts_packet \<Rightarrow> ts_input_origin \<Rightarrow> packet_pipeline \<Rightarrow> bool" where
  "suppressed v origin s \<longleftrightarrow>
     tv_transport_error_indicator (vp_view v) \<or> tv_scrambling_control (vp_view v) \<noteq> 0 \<or> tv_payload (vp_view v) = None \<or>
     fst (preflight_observe v origin s) \<in> {Duplicate, CounterCollision}"

lemma planned_not_assembled: "\<not> list_ex assembled_event (concat (map (planned_event filters) as))"
proof (induction as)
  case (Cons a as)
  then show ?case by (cases a) (simp_all add: assembled_event_def)
qed simp

definition kept_or_dropped :: "pid_slice \<Rightarrow> pid_slice \<Rightarrow> bool" where
  "kept_or_dropped a b \<longleftrightarrow>
     (sl_sections b = sl_sections a \<or> sl_sections b = Map.empty) \<and> (sl_pes b = sl_pes a \<or> sl_pes b = Map.empty)"

lemma kept_reset: "kept_or_dropped (stream_slice origin pid s) (stream_slice origin pid (reset_assembly_for_origin_pid origin pid s'))"
  by (simp add: kept_or_dropped_def stream_slice_def reset_assembly_for_origin_pid_def)

lemma kept_accept:
  "kept_or_dropped (stream_slice origin (tv_pid (vp_view v)) s)
     (stream_slice origin (tv_pid (vp_view v)) (snd (accept_validated_ts_packet v (kind_of_origin origin) s)))"
proof -
  obtain c where "snd (accept_validated_ts_packet v (kind_of_origin origin) s) =
     (let s' = s\<lparr>pl_continuity_trackers := (pl_continuity_trackers s)(origin \<mapsto> snd (preflight_observe v origin s)),
                pl_diagnostic_counters := c\<rparr>
      in if preflight_resets v origin s then reset_assembly_for_origin_pid origin (tv_pid (vp_view v)) s' else s')"
    using accept_effect [of v "kind_of_origin origin" s] by (auto simp: Let_def)
  then show ?thesis by (simp add: Let_def kept_reset) (simp add: kept_or_dropped_def stream_slice_def)
qed

lemma suppressed_plan:
  assumes "suppressed v origin s"
  defines "pre \<equiv> rp_assembly_suppression_reasons (fst (accept_validated_ts_packet v (kind_of_origin origin) s))"
  shows "snd (plan_and_assemble_ts_packet_report_after_preflight v origin filters pre t) \<in>
      {t, reset_assembly_for_origin_pid origin (tv_pid (vp_view v)) t}"
    and "\<not> list_ex assembled_event (rp_generated_events
      (fst (plan_and_assemble_ts_packet_report_after_preflight v origin filters pre t)))"
proof -
  have pre: "TransportErrorIndicator \<in> set pre \<longleftrightarrow> tv_transport_error_indicator (vp_view v)"
    "DuplicatePacket \<in> set pre \<longleftrightarrow> fst (preflight_observe v origin s) = Duplicate"
    "ContinuityCounterCollision \<in> set pre \<longleftrightarrow> fst (preflight_observe v origin s) = CounterCollision"
    unfolding pre_def accept_report by (auto split: continuity_outcome.split)
  show "snd (plan_and_assemble_ts_packet_report_after_preflight v origin filters pre t) \<in>
      {t, reset_assembly_for_origin_pid origin (tv_pid (vp_view v)) t}"
    using assms(1)
    by (auto simp: plan_and_assemble_ts_packet_report_after_preflight_def Let_def suppressed_def pre split: option.split)
  have "\<not> list_ex assembled_event (rp_generated_events (plan_ts_packet_report v origin filters))"
    unfolding plan_events by (rule planned_not_assembled)
  then show "\<not> list_ex assembled_event (rp_generated_events
      (fst (plan_and_assemble_ts_packet_report_after_preflight v origin filters pre t)))"
    using assms(1)
    by (auto simp: plan_and_assemble_ts_packet_report_after_preflight_def Let_def suppressed_def pre list_ex_iff
        split: option.split)
qed

text \<open>
  C24. Damaged, scrambled, repeated and payload-free packets are never assembled: no section or
  PES packet is completed by them, and the partial units of their PID are kept as they were or
  dropped, never extended.
\<close>

theorem suppressed_not_assembled:
  assumes "suppressed v origin s"
  shows "\<not> list_ex assembled_event (rp_generated_events (fst (pipeline_packet v origin filters s))) \<and>
    kept_or_dropped (stream_slice origin (tv_pid (vp_view v)) s)
      (stream_slice origin (tv_pid (vp_view v)) (snd (pipeline_packet v origin filters s)))"
  using suppressed_plan [OF assms, of filters "snd (accept_validated_ts_packet v (kind_of_origin origin) s)"]
    kept_accept [of origin v s]
  by (auto simp: pipeline_packet_events pipeline_packet_state kept_reset)

definition sample_tei_packet :: validated_ts_packet where
  "sample_tei_packet = (sample_section_packet 0x12)
     \<lparr>vp_view := (vp_view (sample_section_packet 0x12))\<lparr>tv_transport_error_indicator := True\<rparr>\<rparr>"

theorem suppressed_not_assembled_witness:
  "\<not> list_ex assembled_event
     (rp_generated_events (fst (pipeline_packet sample_tei_packet (OriginFrontend 1) [sample_section_view] pipeline_default)))"
  using suppressed_not_assembled [of sample_tei_packet "OriginFrontend 1" pipeline_default "[sample_section_view]"]
  by (simp add: suppressed_def sample_tei_packet_def)

subsection \<open>Raw and record delivery\<close>

lemma packet_actions_plan:
  "filter is_packet_action (plan_packet_delivery pid origin filters) = plan_packet_delivery pid origin filters"
  "filter is_packet_action (map SectionPayload ids) = []"
  "filter is_packet_action (plan_pes_actions pid origin filters) = []"
  by (auto simp: filter_id_conv filter_empty_conv plan_packet_delivery_def delivery_of_filter_def is_packet_action_def
      plan_pes_actions_def split: pipeline_open_kind.splits if_splits)

lemma packet_actions_report:
  "filter is_packet_action (rp_delivery_actions (plan_ts_packet_report v origin filters)) =
     plan_packet_delivery (tv_pid (vp_view v)) origin filters"
  by (simp add: plan_ts_packet_report_def Let_def packet_actions_plan)

lemma assemble_pes_actions:
  "rp_delivery_actions (fst (assemble_pes origin pid pusi x g filters is r s)) = rp_delivery_actions r"
  by (induction "is" arbitrary: r s) (auto simp: Let_def case_prod_unfold split: option.split)

lemma packet_actions_stages:
  "filter is_packet_action (rp_delivery_actions (fst (section_stage origin pid pusi x filters r s))) =
     filter is_packet_action (rp_delivery_actions r)"
  "filter is_packet_action (rp_delivery_actions (fst (pes_stage origin pid pusi x filters r s))) =
     filter is_packet_action (rp_delivery_actions r)"
proof -
  have "filter is_packet_action (filter (\<lambda>a. section_action_id a = None) as) = filter is_packet_action as"
    and "filter is_packet_action (filter (\<lambda>a. pes_action_id a = None) as) = filter is_packet_action as" for as
    by (auto simp: is_packet_action_def section_action_id_def pes_action_id_def intro!: filter_cong
        split: pipeline_delivery_action.split)
  then show
    "filter is_packet_action (rp_delivery_actions (fst (section_stage origin pid pusi x filters r s))) =
       filter is_packet_action (rp_delivery_actions r)"
    "filter is_packet_action (rp_delivery_actions (fst (pes_stage origin pid pusi x filters r s))) =
       filter is_packet_action (rp_delivery_actions r)"
    by (simp_all add: section_stage_def pes_stage_def Let_def case_prod_unfold assemble_sections_rest assemble_pes_actions
        split: option.split)
qed

text \<open>
  What a packet owes to the filters, stated from its header bytes: a filter gets it when it is started, is
  configured with the PID that the thirteen bits in bytes 1 and 2 give, and takes its input from where the
  packet comes from, which is another filter or, when it names none, a frontend or playback.
\<close>

definition owed :: "bytes \<Rightarrow> ts_input_origin \<Rightarrow> pipeline_filter_view \<Rightarrow> bool" where
  "owed packet origin f \<longleftrightarrow>
     fv_started f \<and>
     map_option unat (fv_tpid f) = Some (256 * (unat (packet ! 1) mod 32) + unat (packet ! 2)) \<and>
     (case fv_source_filter f of
        Some (i, g) \<Rightarrow> origin = OriginSourceFilter i g
      | None \<Rightarrow> (\<nexists>i g. origin = OriginSourceFilter i g))"

definition owed_action :: "pipeline_filter_view \<Rightarrow> pipeline_delivery_action \<Rightarrow> bool" where
  "owed_action f a \<longleftrightarrow>
     a = RawPacket (fv_filter_id f) \<and> fv_open_kind f = KindRaw \<or>
     a = DvrMirror (fv_filter_id f) \<and> fv_open_kind f = KindRecord \<or>
     a = RecordPacket (fv_filter_id f) \<and> fv_open_kind f = KindRecord \<and> fv_wants_record_index f"

definition owed_actions :: "bytes \<Rightarrow> ts_input_origin \<Rightarrow> pipeline_filter_view list \<Rightarrow> pipeline_delivery_action list" where
  "owed_actions packet origin filters =
     concat (map (\<lambda>f. filter (owed_action f)
       [RawPacket (fv_filter_id f), DvrMirror (fv_filter_id f), RecordPacket (fv_filter_id f)])
       (filter (owed packet origin) filters))"

lemma header_pid_number:
  "unat (pid_raw (from_mpeg_ts_header_bytes b c)) = 256 * (unat b mod 32) + unat c"
proof -
  have "(push_bit 8 (ucast (b AND 0x1f)) OR ucast c :: u16) = push_bit 8 (ucast (b AND 0x1f)) + ucast c"
    by (rule disjunctive_add_eq_or [symmetric])
      (auto intro!: bit_word_eqI simp: bit_simps dest!: bit_imp_le_length [of c])
  moreover have "unat (b AND 0x1f) = unat b mod 32"
    by (simp add: and_mask_lits unsigned_take_bit_eq take_bit_nat_def)
  moreover have "unat c < 2 ^ LENGTH(8)" by (rule unsigned_less)
  ultimately show ?thesis
    unfolding from_mpeg_ts_header_bytes_def transport_stream_pid.sel
    by (simp add: push_bit_eq_mult unat_word_ariths unsigned_ucast_eq take_bit_nat_def)
qed

lemma owed_iff:
  assumes "validate_ts_packet packet = Ok v"
  shows "accepts_packet_pid_from_origin f (tv_pid (vp_view v)) origin \<longleftrightarrow> owed packet origin f"
proof -
  have view: "ts_view_validate packet = Ok (vp_view v)"
    using assms by (auto simp: validate_ts_packet_def split: if_splits sum.splits)
  obtain ad where "vp_view v = ts_view packet ad (tv_payload (vp_view v))" using ts_view_fields(3) [OF view] by blast
  then have pid: "tv_pid (vp_view v) = PacketPid (from_mpeg_ts_header_bytes (packet ! 1) (packet ! 2))"
    by (metis ts_packet_view.select_convs(1) ts_view_def)
  have "cfg = ucast w \<longleftrightarrow> unat cfg = unat w" for cfg :: i32 and w :: u16
  proof -
    have "unat w < 2 ^ LENGTH(16)" by (rule unsigned_less)
    then have "take_bit 32 (unat w) = unat w" by (simp add: take_bit_nat_eq_self)
    then show ?thesis by (simp add: word_unat_eq_iff unsigned_ucast_eq)
  qed
  then have "matches_config_tpid (tv_pid (vp_view v)) (fv_tpid f) \<longleftrightarrow>
      map_option unat (fv_tpid f) = Some (256 * (unat (packet ! 1) mod 32) + unat (packet ! 2))"
    by (simp add: pid matches_config_tpid_def matches_i32_config_def header_pid_number split: option.split)
  then show ?thesis
    by (auto simp: accepts_packet_pid_from_origin_def owed_def split: ts_input_origin.splits option.splits)
qed

lemma owed_delivery:
  "delivery_of_filter f = filter (owed_action f)
     [RawPacket (fv_filter_id f), DvrMirror (fv_filter_id f), RecordPacket (fv_filter_id f)]"
  by (cases "fv_open_kind f") (simp_all add: delivery_of_filter_def owed_action_def)

text \<open>
  C29. Recording is unconditional: whatever the state of the PID and whatever a valid packet carries, its raw and
  record deliveries are those that it owes to the started filters of its PID and origin, in the order
  of the filters: the packet itself to a raw filter; to a record filter a copy for the recorder, and
  another one for the index when the filter wants an index. No other filter gets the packet.
\<close>

theorem raw_delivery_unconditional:
  assumes "validate_ts_packet packet = Ok v"
  shows "filter is_packet_action (rp_delivery_actions (fst (pipeline_packet v origin filters s))) =
     owed_actions packet origin filters"
  unfolding owed_actions_def owed_iff [OF assms, symmetric] owed_delivery [symmetric]
  by (simp add: pipeline_packet_actions plan_and_assemble_ts_packet_report_after_preflight_def Let_def
      case_prod_unfold packet_actions_report packet_actions_plan packet_actions_stages split: option.split)
    (simp add: plan_packet_delivery_def)

text \<open>Of three filters of one PID, a raw one, a record one that is stopped and a section filter, the raw one gets the packet.\<close>

theorem raw_delivery_unconditional_witness:
  "filter is_packet_action (rp_delivery_actions (fst (pipeline_packet (sample_section_packet 0x12) (OriginFrontend 1)
     [sample_section_view\<lparr>fv_filter_id := 8, fv_open_kind := KindRaw\<rparr>,
      sample_section_view\<lparr>fv_filter_id := 9, fv_open_kind := KindRecord, fv_started := False\<rparr>,
      sample_section_view] pipeline_default))) = [RawPacket 8]"
  unfolding raw_delivery_unconditional [OF sample_section_valid]
  by (simp add: owed_actions_def owed_def owed_action_def sample_section_view_def sample_section_bytes_def)

subsection \<open>Stream boundaries\<close>

text \<open>Two pipelines that agree on everything that packets of any stream read or change.\<close>

definition same_streams :: "packet_pipeline \<Rightarrow> packet_pipeline \<Rightarrow> bool" where
  "same_streams s t \<longleftrightarrow>
     pl_section_assemblers s = pl_section_assemblers t \<and> pl_pes_assemblers s = pl_pes_assemblers t \<and>
     pl_section_assembler_generations s = pl_section_assembler_generations t \<and>
     pl_pes_assembler_generations s = pl_pes_assembler_generations t \<and>
     pl_filter_section_flush_generations s = pl_filter_section_flush_generations t \<and>
     pl_filter_pes_flush_generations s = pl_filter_pes_flush_generations t \<and>
     pl_continuity_trackers s = pl_continuity_trackers t"

definition same_result :: "'a \<times> packet_pipeline \<Rightarrow> 'a \<times> packet_pipeline \<Rightarrow> bool" where
  "same_result x y \<longleftrightarrow> fst x = fst y \<and> same_streams (snd x) (snd y)"

lemma same_reset:
  "same_streams s t \<Longrightarrow>
   same_streams (reset_assembly_for_origin_pid origin pid s) (reset_assembly_for_origin_pid origin pid t)"
  by (simp add: same_streams_def reset_assembly_for_origin_pid_def)

lemma same_drop:
  "same_streams s t \<Longrightarrow>
   same_streams (drop_generations_for_pid_origin origin pid b c s) (drop_generations_for_pid_origin origin pid b c t)"
  by (simp add: same_streams_def drop_generations_for_pid_origin_def Let_def)

lemma same_bump:
  assumes "same_streams s t"
  shows "same_result (bump_section_generation origin pid s) (bump_section_generation origin pid t)"
    and "same_result (bump_pes_generation origin pid s) (bump_pes_generation origin pid t)"
  using assms
  by (auto simp: same_result_def same_streams_def bump_section_generation_def bump_pes_generation_def Let_def
      split: option.split)

lemma same_assemble_ops:
  assumes "same_streams s t"
  shows "same_result (assemble_section_for_filter origin pid f raw pusi x s)
      (assemble_section_for_filter origin pid f raw pusi x t)"
    and "same_result (assemble_pes_for_filter origin f pid pusi x s) (assemble_pes_for_filter origin f pid pusi x t)"
    and "same_result (take_pes_drop k s) (take_pes_drop k t)"
  using assms
  by (auto simp: same_result_def same_streams_def assemble_section_for_filter_def assemble_pes_for_filter_def
      take_pes_drop_def Let_def split: option.split prod.split)

lemma same_assemble_sections:
  "same_streams s t \<Longrightarrow>
   same_result (assemble_sections origin pid pusi x g fs r s) (assemble_sections origin pid pusi x g fs r t)"
proof (induction fs arbitrary: r s t)
  case (Cons f fs)
  obtain i raw where f: "f = (i, raw)" by (cases f)
  from same_assemble_ops(1) [OF Cons.prems, of origin pid i raw pusi x] Cons.IH show ?case
    by (simp add: f Let_def case_prod_unfold same_result_def)
qed (simp add: same_result_def)

lemma same_assemble_pes:
  "same_streams s t \<Longrightarrow>
   same_result (assemble_pes origin pid pusi x g filters is r s) (assemble_pes origin pid pusi x g filters is r t)"
proof (induction "is" arbitrary: r s t)
  case (Cons i "is")
  have a: "same_result (assemble_pes_for_filter origin i pid pusi x s) (assemble_pes_for_filter origin i pid pusi x t)"
    using same_assemble_ops(2) [OF Cons.prems] .
  then have "same_result (take_pes_drop (origin, pid, i) (snd (assemble_pes_for_filter origin i pid pusi x s)))
      (take_pes_drop (origin, pid, i) (snd (assemble_pes_for_filter origin i pid pusi x t)))"
    by (intro same_assemble_ops(3)) (simp add: same_result_def)
  with a Cons.IH show ?case by (simp add: Let_def case_prod_unfold same_result_def)
qed (simp add: same_result_def)

lemma same_stages:
  assumes "same_streams s t"
  shows "same_result (section_stage origin pid pusi x filters r s) (section_stage origin pid pusi x filters r t)"
    and "same_result (pes_stage origin pid pusi x filters r s) (pes_stage origin pid pusi x filters r t)"
proof -
  have g: "current_section_generation origin pid s = current_section_generation origin pid t"
    "current_pes_generation origin pid s = current_pes_generation origin pid t"
    using assms by (simp_all add: same_streams_def current_section_generation_def current_pes_generation_def)
  note b = same_bump [OF assms, of origin pid]
  show "same_result (section_stage origin pid pusi x filters r s) (section_stage origin pid pusi x filters r t)"
    using assms b(1) g
    by (cases pusi; cases "fst (bump_section_generation origin pid t)")
      (simp_all add: section_stage_def Let_def case_prod_unfold same_result_def same_reset same_drop
        same_assemble_sections [unfolded same_result_def])
  show "same_result (pes_stage origin pid pusi x filters r s) (pes_stage origin pid pusi x filters r t)"
    using assms b(2) g
    by (cases pusi; cases "fst (bump_pes_generation origin pid t)")
      (simp_all add: pes_stage_def Let_def case_prod_unfold same_result_def same_reset same_drop
        same_assemble_pes [unfolded same_result_def])
qed

lemma same_observe: "same_streams s t \<Longrightarrow> preflight_observe v origin s = preflight_observe v origin t"
  by (simp add: same_streams_def preflight_observe_def preflight_tracker_def)

lemma preflight_continuity_fst:
  "fst (preflight_continuity c origin pid (r, s)) =
     (case c of
        Duplicate \<Rightarrow> rp_suppress DuplicatePacket (DuplicatePacketAssemblySuppressed pid) r
      | CounterCollision \<Rightarrow>
          rp_suppress ContinuityCounterCollision (ContinuityCounterCollisionAssemblySuppressed pid origin) r
      | Discontinuity \<Rightarrow> rp_diagnose (ContinuityDiscontinuityAssemblyReset pid origin) r
      | _ \<Rightarrow> r)"
  by (cases c) (simp_all add: preflight_continuity_def Let_def)

lemma same_accept:
  assumes "same_streams s t"
  shows "same_result (accept_validated_ts_packet v kind s) (accept_validated_ts_packet v kind t)"
proof -
  let ?o = "origin_of_kind kind"
  have ob: "preflight_observe v ?o s = preflight_observe v ?o t" using assms by (rule same_observe)
  then have rs: "preflight_resets v ?o s \<longleftrightarrow> preflight_resets v ?o t" by (simp add: preflight_resets_def)
  obtain c d where
    "snd (accept_validated_ts_packet v kind s) =
      (let s' = s\<lparr>pl_continuity_trackers := (pl_continuity_trackers s)(?o \<mapsto> snd (preflight_observe v ?o s)),
                 pl_diagnostic_counters := c\<rparr>
       in if preflight_resets v ?o s then reset_assembly_for_origin_pid ?o (tv_pid (vp_view v)) s' else s')"
    "snd (accept_validated_ts_packet v kind t) =
      (let s' = t\<lparr>pl_continuity_trackers := (pl_continuity_trackers t)(?o \<mapsto> snd (preflight_observe v ?o t)),
                 pl_diagnostic_counters := d\<rparr>
       in if preflight_resets v ?o t then reset_assembly_for_origin_pid ?o (tv_pid (vp_view v)) s' else s')"
    using accept_effect [of v kind s] accept_effect [of v kind t] by (auto simp: Let_def)
  moreover have "fst (preflight_discontinuity ?o (vp_view v) (preflight_tei (vp_view v) (report_default, s))) =
      fst (preflight_discontinuity ?o (vp_view v) (preflight_tei (vp_view v) (report_default, t)))"
    by (simp add: preflight_discontinuity_def preflight_tei_def)
  then have "fst (accept_validated_ts_packet v kind s) = fst (accept_validated_ts_packet v kind t)"
    by (cases "fst (preflight_observe v ?o t)")
      (simp_all add: accept_conv Let_def case_prod_unfold ob preflight_continuity_fst)
  ultimately show ?thesis
    using assms by (simp add: same_result_def Let_def rs ob same_streams_def reset_assembly_for_origin_pid_def)
qed

lemma same_packet:
  assumes "same_streams s t"
  shows "same_result (pipeline_packet v origin filters s) (pipeline_packet v origin filters t)"
proof -
  have plan: "same_result (plan_and_assemble_ts_packet_report_after_preflight v origin filters pre s)
      (plan_and_assemble_ts_packet_report_after_preflight v origin filters pre t)" if "same_streams s t" for pre s t
  proof (cases "tv_payload (vp_view v)")
    case (Some x)
    let ?st = "section_stage origin (tv_pid (vp_view v)) (tv_payload_unit_start (vp_view v)) x filters
        (plan_ts_packet_report v origin filters)"
    have "same_result (?st s) (?st t)" by (rule same_stages(1) [OF that])
    then show ?thesis
      using that same_stages(2) [of "snd (?st s)" "snd (?st t)"]
      by (simp add: plan_and_assemble_ts_packet_report_after_preflight_def Let_def Some case_prod_unfold same_reset
          same_result_def)
  qed (use that in \<open>simp add: plan_and_assemble_ts_packet_report_after_preflight_def Let_def same_reset same_result_def\<close>)
  let ?s = "accept_validated_ts_packet v (kind_of_origin origin) s"
    and ?t = "accept_validated_ts_packet v (kind_of_origin origin) t"
  have acc: "same_result ?s ?t" using assms by (rule same_accept)
  then have "same_result
      (plan_and_assemble_ts_packet_report_after_preflight v origin filters (rp_assembly_suppression_reasons (fst ?t)) (snd ?s))
      (plan_and_assemble_ts_packet_report_after_preflight v origin filters (rp_assembly_suppression_reasons (fst ?t)) (snd ?t))"
    by (intro plan) (simp add: same_result_def)
  with acc show ?thesis
    by (simp add: pipeline_packet_def push_validated_ts_packet_def Let_def case_prod_unfold same_result_def accept_report)
qed

lemma same_run:
  "same_streams s t \<Longrightarrow> fst (pipeline_run filters xs s) = fst (pipeline_run filters xs t)"
proof (induction xs arbitrary: s t)
  case (Cons x xs)
  from same_packet [OF Cons.prems, of "fst x" "snd x" filters] Cons.IH show ?case
    by (simp add: Let_def case_prod_unfold same_result_def)
qed simp

text \<open>
  C28. A stream boundary erases the past: after \<open>reset_boundary\<close>, in any state, the reports on any
  further packets are those of a new pipeline, so nothing of the old stream shows up in sections,
  PES packets, generations, suppression or continuity diagnostics of the new one.
\<close>

theorem boundary_erases_streams:
  "fst (pipeline_run filters xs (snd (reset_boundary s))) = fst (pipeline_run filters xs pipeline_default)"
  by (rule same_run)
    (simp add: same_streams_def reset_boundary_def reset_record_index_all_def pipeline_default_def case_prod_unfold Let_def)

subsection \<open>Flushing a filter\<close>

lemma marks_flush_only:
  "\<exists>f g. fold (\<lambda>(origin, pid). mark_filter_flush_generation_for_origin i pid origin) origins s =
     s\<lparr>pl_filter_section_flush_generations := f, pl_filter_pes_flush_generations := g\<rparr> \<and>
     (\<forall>o' j p. j \<noteq> i \<longrightarrow> f (o', j, p) = pl_filter_section_flush_generations s (o', j, p) \<and>
        g (o', j, p) = pl_filter_pes_flush_generations s (o', j, p))"
proof (induction origins arbitrary: s)
  case Nil
  show ?case
    by (rule exI [of _ "pl_filter_section_flush_generations s"], rule exI [of _ "pl_filter_pes_flush_generations s"]) simp
next
  case (Cons a origins)
  obtain origin pid where a: "a = (origin, pid)" by (cases a)
  from Cons.IH [of "mark_filter_flush_generation_for_origin i pid origin s"] show ?case
    by (auto simp: a mark_filter_flush_generation_for_origin_def Let_def)
qed

text \<open>
  C37. The flush generations are dead: \<open>flush_filter\<close> marks, for every origin of the filter, the
  generation before which units must be dropped, and then clears the filter's state together with
  these marks, so that flushing with marks and clearing without them are the same function.
\<close>

theorem flush_marks_have_no_effect: "flush_filter i origins s = clear_filter_state_after_flush i s"
proof -
  obtain f g where fold: "fold (\<lambda>(origin, pid). mark_filter_flush_generation_for_origin i pid origin) origins s =
      s\<lparr>pl_filter_section_flush_generations := f, pl_filter_pes_flush_generations := g\<rparr>"
    and fg: "\<And>o' j p. j \<noteq> i \<Longrightarrow> f (o', j, p) = pl_filter_section_flush_generations s (o', j, p)"
      "\<And>o' j p. j \<noteq> i \<Longrightarrow> g (o', j, p) = pl_filter_pes_flush_generations s (o', j, p)"
    using marks_flush_only [of i origins s] by auto
  have "retain (\<lambda>(_, j, _). j \<noteq> i) f = retain (\<lambda>(_, j, _). j \<noteq> i) (pl_filter_section_flush_generations s)"
    and "retain (\<lambda>(_, j, _). j \<noteq> i) g = retain (\<lambda>(_, j, _). j \<noteq> i) (pl_filter_pes_flush_generations s)"
    using fg by (auto simp: fun_eq_iff)
  then show ?thesis
    by (simp add: flush_filter_def clear_filter_state_after_flush_def fold clear_filter_state_def)
qed

subsection \<open>The invariant\<close>

text \<open>
  A section filter's raw flag is fixed when the filter is configured, and configuring clears the
  filter's assemblers; \<open>raw\<close> gives the flag of each filter.
\<close>

definition pipeline_inv :: "(i32 \<Rightarrow> bool) \<Rightarrow> packet_pipeline \<Rightarrow> bool" where
  "pipeline_inv raw s \<longleftrightarrow>
     (\<forall>origin pid i a. pl_section_assemblers s (origin, pid, i) = Some a \<longrightarrow> section_wf (\<not> raw i) a) \<and>
     ran_all pes_wf (pl_pes_assemblers s) \<and> ran_all re_bounded (pl_record_event_states s)"

definition views_ok :: "(i32 \<Rightarrow> bool) \<Rightarrow> pipeline_filter_view list \<Rightarrow> bool" where
  "views_ok raw filters \<longleftrightarrow> distinct (map fv_filter_id filters) \<and>
     (\<forall>f \<in> set filters. fv_open_kind f = KindSection \<longrightarrow> fv_section_raw f = raw (fv_filter_id f))"

lemma inv_entry_section:
  "pipeline_inv raw s \<Longrightarrow> section_wf (\<not> raw i) (entry_or section_assembler_default (pl_section_assemblers s) (origin, pid, i))"
  using section_asm.wf_init [of "\<not> raw i"] by (auto simp: pipeline_inv_def entry_or_def split: option.split)

lemma inv_entry_pes: "pipeline_inv raw s \<Longrightarrow> pes_wf (entry_or pes_assembler_default (pl_pes_assemblers s) k)"
  using pes.wf_init by (auto simp: pipeline_inv_def intro: ran_all_entry)

lemma inv_assemble_section:
  assumes "pipeline_inv raw s"
  shows "pipeline_inv raw (snd (assemble_section_for_filter origin pid i (raw i) pusi x s))"
proof -
  let ?a = "snd (push_payload_with_reserved_bit_policy (\<not> raw i) pusi x
      (entry_or section_assembler_default (pl_section_assemblers s) (origin, pid, i)))"
  have "section_wf (\<not> raw i) ?a" by (rule section_asm.wf_push [OF inv_entry_section [OF assms]])
  moreover have "pl_record_event_states (snd (assemble_section_for_filter origin pid i (raw i) pusi x s)) =
      pl_record_event_states s"
    by (simp add: assemble_section_for_filter_def Let_def case_prod_unfold)
  ultimately show ?thesis using assms by (auto simp: pipeline_inv_def split: if_splits)
qed

lemma pes_wf_last_drop [simp]: "pes_wf (a\<lparr>pa_last_drop_reason := r\<rparr>) = pes_wf a"
  by (simp add: pes_wf_def split: option.split)

lemma inv_assemble_pes:
  assumes "pipeline_inv raw s"
  shows "pipeline_inv raw (snd (assemble_pes_for_filter origin i pid pusi x s))"
    and "pipeline_inv raw (snd (take_pes_drop k s))"
  using assms pes.wf_push [OF inv_entry_pes [OF assms], of pid pusi x "(origin, pid, i)"]
  by (auto simp: pipeline_inv_def assemble_pes_for_filter_def take_pes_drop_def pes_take_drop_diagnostic_def Let_def
      case_prod_unfold ran_all_upd split: option.split) (auto simp: ran_all_def)

lemma inv_other_ops:
  assumes "pipeline_inv raw s"
  shows "pipeline_inv raw (reset_assembly_for_origin_pid origin pid s)"
    and "pipeline_inv raw (drop_generations_for_pid_origin origin pid b c s)"
    and "pipeline_inv raw (snd (bump_section_generation origin pid s))"
    and "pipeline_inv raw (snd (bump_pes_generation origin pid s))"
    and "pipeline_inv raw (reset_origin origin s)" and "pipeline_inv raw (clear_filter_state i s)"
    and "pipeline_inv raw (pl_note f s)"
  using assms
  by (auto simp: pipeline_inv_def reset_assembly_for_origin_pid_def drop_generations_for_pid_origin_def
      bump_section_generation_def bump_pes_generation_def reset_origin_def clear_filter_state_def Let_def
      split: option.split if_splits)

text \<open>An event that a packet may produce.\<close>

definition event_ok :: "validated_ts_packet \<Rightarrow> ts_input_origin \<Rightarrow> pipeline_filter_view list \<Rightarrow> pipeline_generated_event \<Rightarrow> bool" where
  "event_ok v origin filters e =
     (case e of
        SectionPayloadReady i p g raw b \<Rightarrow>
          p = tv_pid (vp_view v) \<and> whole_section (\<not> raw) b \<and>
          list_ex (\<lambda>f. fv_filter_id f = i \<and> accepts_packet_pid_from_origin f p origin \<and>
            fv_open_kind f = KindSection \<and> fv_section_raw f = raw) filters
      | PesPacketReady i p g raw pk \<Rightarrow>
          p = tv_pid (vp_view v) \<and> pes_packet_ok pk \<and>
          list_ex (\<lambda>f. fv_filter_id f = i \<and> accepts_packet_pid_from_origin f p origin \<and>
            (fv_open_kind f = KindPes \<or> fv_open_kind f = KindAv)) filters
      | _ \<Rightarrow> True)"

lemma assemble_sections_inv:
  assumes "pipeline_inv raw s" and "\<forall>(i, b) \<in> set fs. b = raw i"
    and "\<And>i b x. (i, b) \<in> set fs \<Longrightarrow> whole_section (\<not> b) x \<Longrightarrow> Q (SectionPayloadReady i pid g b x)"
    and "list_all Q (rp_generated_events r)"
  shows "pipeline_inv raw (snd (assemble_sections origin pid pusi x g fs r s)) \<and>
    list_all Q (rp_generated_events (fst (assemble_sections origin pid pusi x g fs r s)))"
  using assms
proof (induction fs arbitrary: r s)
  case (Cons f fs)
  obtain i where f: "f = (i, raw i)" using Cons.prems(2) by (cases f) auto
  let ?a = "assemble_section_for_filter origin pid i (raw i) pusi x s"
  have "whole_section (\<not> raw i) b" if "b \<in> set (so_sections (fst ?a))" for b
    using section_asm.good_push [OF inv_entry_section [OF Cons.prems(1)]] that by simp
  then have "list_all Q (map (SectionPayloadReady i pid g (raw i)) (so_sections (fst ?a)))"
    using Cons.prems(3) f by (auto simp: list_all_iff)
  then show ?case
    using Cons.prems inv_assemble_section [OF Cons.prems(1), of origin pid i pusi x]
    by (simp add: f Let_def case_prod_unfold Cons.IH)
qed simp

lemma assemble_pes_inv:
  assumes "pipeline_inv raw s"
    and "\<And>i pk. i \<in> set is \<Longrightarrow> pes_packet_ok pk \<Longrightarrow> Q (PesPacketReady i pid g (filter_flag fv_pes_raw filters i) pk)"
    and "list_all Q (rp_generated_events r)"
  shows "pipeline_inv raw (snd (assemble_pes origin pid pusi x g filters is r s)) \<and>
    list_all Q (rp_generated_events (fst (assemble_pes origin pid pusi x g filters is r s)))"
  using assms
proof (induction "is" arbitrary: r s)
  case (Cons i "is")
  let ?a = "assemble_pes_for_filter origin i pid pusi x s"
  have "pes_packet_ok pk" if "pk \<in> set (fst ?a)" for pk
    using pes.good_push [OF inv_entry_pes [OF Cons.prems(1)]] that
    by (auto simp: assemble_pes_for_filter_def Let_def case_prod_unfold)
  then have "list_all Q (map (PesPacketReady i pid g (filter_flag fv_pes_raw filters i)) (fst ?a))"
    using Cons.prems(2) by (auto simp: list_all_iff)
  moreover have "pipeline_inv raw (snd (take_pes_drop (origin, pid, i) (snd ?a)))"
    by (intro inv_assemble_pes Cons.prems(1))
  ultimately show ?case
    using Cons.prems by (simp add: Let_def case_prod_unfold Cons.IH split: option.split)
qed simp

lemma section_stage_inv:
  assumes "pipeline_inv raw s"
    and "\<And>i. i \<in> set (List.map_filter section_action_id (rp_delivery_actions r)) \<Longrightarrow>
      filter_flag fv_section_raw filters i = raw i"
    and "\<And>i x g. i \<in> set (List.map_filter section_action_id (rp_delivery_actions r)) \<Longrightarrow> whole_section (\<not> raw i) x \<Longrightarrow>
      Q (SectionPayloadReady i pid g (raw i) x)"
    and "list_all Q (rp_generated_events r)"
  shows "pipeline_inv raw (snd (section_stage origin pid pusi x filters r s)) \<and>
    list_all Q (rp_generated_events (fst (section_stage origin pid pusi x filters r s)))"
proof -
  have "pipeline_inv raw (snd (assemble_sections origin pid pusi x g
        (map (\<lambda>i. (i, filter_flag fv_section_raw filters i)) (List.map_filter section_action_id (rp_delivery_actions r))) r t)) \<and>
      list_all Q (rp_generated_events (fst (assemble_sections origin pid pusi x g
        (map (\<lambda>i. (i, filter_flag fv_section_raw filters i)) (List.map_filter section_action_id (rp_delivery_actions r))) r t)))"
    if "pipeline_inv raw t" for t g
    by (rule assemble_sections_inv [OF that]) (use assms(2-4) in auto)
  with assms(1,4) show ?thesis
    by (auto simp: section_stage_def Let_def case_prod_unfold inv_other_ops split: option.split)
qed

lemma pes_stage_inv:
  assumes "pipeline_inv raw s"
    and "\<And>i b pk g. i \<in> set (List.map_filter pes_action_id (rp_delivery_actions r)) \<Longrightarrow> pes_packet_ok pk \<Longrightarrow>
      Q (PesPacketReady i pid g b pk)"
    and "list_all Q (rp_generated_events r)"
  shows "pipeline_inv raw (snd (pes_stage origin pid pusi x filters r s)) \<and>
    list_all Q (rp_generated_events (fst (pes_stage origin pid pusi x filters r s)))"
proof -
  have "pipeline_inv raw (snd (assemble_pes origin pid pusi x g filters
        (List.map_filter pes_action_id (rp_delivery_actions r)) r t)) \<and>
      list_all Q (rp_generated_events (fst (assemble_pes origin pid pusi x g filters
        (List.map_filter pes_action_id (rp_delivery_actions r)) r t)))"
    if "pipeline_inv raw t" for t g
    by (rule assemble_pes_inv [OF that]) (use assms(2,3) in auto)
  with assms(1,3) show ?thesis
    by (auto simp: pes_stage_def Let_def case_prod_unfold inv_other_ops split: option.split)
qed

lemma plan_actions_cases:
  "rp_delivery_actions (plan_ts_packet_report v origin filters) =
     plan_packet_delivery (tv_pid (vp_view v)) origin filters \<or>
   rp_delivery_actions (plan_ts_packet_report v origin filters) =
     plan_packet_delivery (tv_pid (vp_view v)) origin filters @
     map SectionPayload (plan_section_filters (tv_pid (vp_view v)) origin filters) @
     plan_pes_actions (tv_pid (vp_view v)) origin filters"
  by (simp add: plan_ts_packet_report_def Let_def)

lemma plan_action_ids:
  "List.map_filter section_action_id (plan_packet_delivery pid origin filters) = []"
  "List.map_filter pes_action_id (plan_packet_delivery pid origin filters) = []"
  "List.map_filter pes_action_id (map SectionPayload ids) = []"
  "List.map_filter pes_action_id (plan_pes_actions pid origin filters) =
     map fv_filter_id (filter (\<lambda>f. accepts_packet_pid_from_origin f pid origin \<and>
       (fv_open_kind f = KindPes \<or> fv_open_kind f = KindAv)) filters)"
proof -
  show "List.map_filter section_action_id (plan_packet_delivery pid origin filters) = []"
    and "List.map_filter pes_action_id (plan_packet_delivery pid origin filters) = []"
    unfolding plan_packet_delivery_def
    by (induction filters)
      (auto simp: map_filter_simps map_filter_append delivery_of_filter_def section_action_id_def pes_action_id_def
        split: pipeline_open_kind.split)
  show "List.map_filter pes_action_id (map SectionPayload ids) = []"
    by (induction ids) (simp_all add: map_filter_simps pes_action_id_def)
  show "List.map_filter pes_action_id (plan_pes_actions pid origin filters) =
     map fv_filter_id (filter (\<lambda>f. accepts_packet_pid_from_origin f pid origin \<and>
       (fv_open_kind f = KindPes \<or> fv_open_kind f = KindAv)) filters)"
    unfolding plan_pes_actions_def
    by (induction filters) (auto simp: map_filter_simps pes_action_id_def split: pipeline_open_kind.split)
qed

lemma planned_actions:
  "i \<in> set (List.map_filter section_action_id (rp_delivery_actions (plan_ts_packet_report v origin filters))) \<Longrightarrow>
   \<exists>f \<in> set filters. fv_filter_id f = i \<and> accepts_packet_pid_from_origin f (tv_pid (vp_view v)) origin \<and>
     fv_open_kind f = KindSection"
  "i \<in> set (List.map_filter pes_action_id (rp_delivery_actions (plan_ts_packet_report v origin filters))) \<Longrightarrow>
   \<exists>f \<in> set filters. fv_filter_id f = i \<and> accepts_packet_pid_from_origin f (tv_pid (vp_view v)) origin \<and>
     (fv_open_kind f = KindPes \<or> fv_open_kind f = KindAv)"
proof -
  let ?as = "rp_delivery_actions (plan_ts_packet_report v origin filters)" and ?pid = "tv_pid (vp_view v)"
  have "List.map_filter section_action_id ?as \<in> {[], plan_section_filters ?pid origin filters}"
    using plan_actions_cases [of v origin filters] by (auto simp: plan_sections plan_action_ids)
  moreover have "List.map_filter pes_action_id ?as \<in> {[], map fv_filter_id
      (filter (\<lambda>f. accepts_packet_pid_from_origin f ?pid origin \<and>
        (fv_open_kind f = KindPes \<or> fv_open_kind f = KindAv)) filters)}"
    using plan_actions_cases [of v origin filters] by (auto simp: map_filter_append plan_action_ids)
  ultimately show "i \<in> set (List.map_filter section_action_id ?as) \<Longrightarrow> \<exists>f \<in> set filters. fv_filter_id f = i \<and>
      accepts_packet_pid_from_origin f ?pid origin \<and> fv_open_kind f = KindSection"
    and "i \<in> set (List.map_filter pes_action_id ?as) \<Longrightarrow> \<exists>f \<in> set filters. fv_filter_id f = i \<and>
      accepts_packet_pid_from_origin f ?pid origin \<and> (fv_open_kind f = KindPes \<or> fv_open_kind f = KindAv)"
    by (auto simp: plan_section_filters_def)
qed

lemma section_stage_pes_actions:
  "List.map_filter pes_action_id (rp_delivery_actions (fst (section_stage origin pid pusi x filters r s))) =
   List.map_filter pes_action_id (rp_delivery_actions r)"
proof -
  have "List.map_filter pes_action_id (filter (\<lambda>a. section_action_id a = None) as) = List.map_filter pes_action_id as" for as
    by (induction as)
      (auto simp: map_filter_simps section_action_id_def pes_action_id_def split: pipeline_delivery_action.split)
  then show ?thesis
    by (simp add: section_stage_def Let_def case_prod_unfold assemble_sections_rest split: option.split)
qed

lemma planned_events_ok: "list_all (event_ok v origin filters) (rp_generated_events (plan_ts_packet_report v origin filters))"
proof -
  have "list_all (event_ok v origin filters) (concat (map (planned_event filters) as))" for as
  proof (induction as)
    case (Cons a as)
    then show ?case by (cases a) (simp_all add: event_ok_def)
  qed simp
  then show ?thesis by (simp add: plan_events)
qed

lemma inv_accept: "pipeline_inv raw s \<Longrightarrow> pipeline_inv raw (snd (accept_validated_ts_packet v kind s))"
proof -
  obtain c where "snd (accept_validated_ts_packet v kind s) =
     (let s' = s\<lparr>pl_continuity_trackers :=
                  (pl_continuity_trackers s)(origin_of_kind kind \<mapsto> snd (preflight_observe v (origin_of_kind kind) s)),
                pl_diagnostic_counters := c\<rparr>
      in if preflight_resets v (origin_of_kind kind) s
         then reset_assembly_for_origin_pid (origin_of_kind kind) (tv_pid (vp_view v)) s' else s')"
    using accept_effect [of v kind s] by (auto simp: Let_def)
  moreover assume "pipeline_inv raw s"
  ultimately show ?thesis by (auto simp: Let_def intro!: inv_other_ops) (auto simp: pipeline_inv_def)
qed

lemma packet_inv:
  assumes inv: "pipeline_inv raw s" and views: "views_ok raw filters"
  shows "pipeline_inv raw (snd (pipeline_packet v origin filters s))"
    and "list_all (event_ok v origin filters) (rp_generated_events (fst (pipeline_packet v origin filters s)))"
proof -
  let ?r = "plan_ts_packet_report v origin filters" and ?pid = "tv_pid (vp_view v)"
    and ?pusi = "tv_payload_unit_start (vp_view v)"
  have raw: "\<exists>f \<in> set filters. fv_filter_id f = i \<and> accepts_packet_pid_from_origin f ?pid origin \<and>
      fv_open_kind f = KindSection \<and> fv_section_raw f = raw i \<and> filter_flag fv_section_raw filters i = raw i"
    if "i \<in> set (List.map_filter section_action_id (rp_delivery_actions ?r))" for i
    using planned_actions(1) [OF that] views filter_flag_member [of filters _ fv_section_raw] by (fastforce simp: views_ok_def)
  have sec: "pipeline_inv raw (snd (section_stage origin ?pid ?pusi x filters ?r t)) \<and>
      list_all (event_ok v origin filters) (rp_generated_events (fst (section_stage origin ?pid ?pusi x filters ?r t)))"
    if "pipeline_inv raw t" for t x
    by (rule section_stage_inv [OF that _ _ planned_events_ok])
      (use raw in \<open>fastforce simp: event_ok_def list_ex_iff\<close>)+
  have pes: "pipeline_inv raw (snd (pes_stage origin ?pid ?pusi x filters (fst st) (snd st))) \<and>
      list_all (event_ok v origin filters) (rp_generated_events (fst (pes_stage origin ?pid ?pusi x filters (fst st) (snd st))))"
    if "st = section_stage origin ?pid ?pusi x filters ?r t" and "pipeline_inv raw t" for st t x
    by (rule pes_stage_inv) (use sec [OF that(2), of x] that(1) planned_actions(2) [of _ v origin filters]
        in \<open>auto simp: section_stage_pes_actions event_ok_def list_ex_iff\<close>)
  have "pipeline_inv raw (snd (plan_and_assemble_ts_packet_report_after_preflight v origin filters pre t)) \<and>
      list_all (event_ok v origin filters)
        (rp_generated_events (fst (plan_and_assemble_ts_packet_report_after_preflight v origin filters pre t)))"
    if "pipeline_inv raw t" for pre t
    using that pes [OF refl that] planned_events_ok [of v origin filters]
    by (auto simp: plan_and_assemble_ts_packet_report_after_preflight_def Let_def case_prod_unfold inv_other_ops
        list_all_iff split: option.split)
  then show "pipeline_inv raw (snd (pipeline_packet v origin filters s))"
    and "list_all (event_ok v origin filters) (rp_generated_events (fst (pipeline_packet v origin filters s)))"
    using inv_accept [OF inv] by (simp_all add: pipeline_packet_state pipeline_packet_events)
qed

subsection \<open>Reachable states\<close>

text \<open>Every operation of the pipeline that the demux runtime calls, in any order.\<close>

inductive pipeline_reach :: "(i32 \<Rightarrow> bool) \<Rightarrow> packet_pipeline \<Rightarrow> bool" where
  reach_init: "pipeline_reach raw pipeline_default"
| reach_packet: "pipeline_reach raw s \<Longrightarrow> views_ok raw filters \<Longrightarrow>
    pipeline_reach raw (snd (pipeline_packet v origin filters s))"
| reach_malformed: "pipeline_reach raw s \<Longrightarrow> pipeline_reach raw (note_malformed_ts_packet s)"
| reach_configure: "pipeline_reach raw s \<Longrightarrow> pipeline_reach (raw(i := fpc_raw c)) (configure_filter i c s)"
| reach_start: "pipeline_reach raw s \<Longrightarrow> pipeline_reach raw (start_filter i s)"
| reach_stop: "pipeline_reach raw s \<Longrightarrow> pipeline_reach raw (stop_filter i s)"
| reach_remove: "pipeline_reach raw s \<Longrightarrow> pipeline_reach raw (remove_filter i s)"
| reach_flush: "pipeline_reach raw s \<Longrightarrow> pipeline_reach raw (flush_filter i origins s)"
| reach_clear: "pipeline_reach raw s \<Longrightarrow> pipeline_reach raw (clear_filter_state_after_flush i s)"
| reach_reset_origin: "pipeline_reach raw s \<Longrightarrow> pipeline_reach raw (reset_origin origin s)"
| reach_boundary: "pipeline_reach raw s \<Longrightarrow> pipeline_reach raw (snd (reset_boundary s))"
| reach_record: "pipeline_reach raw s \<Longrightarrow>
    pipeline_reach raw (snd (record_index_event_after_record_commit i v n s))"
| reach_record_skip: "pipeline_reach raw s \<Longrightarrow> pipeline_reach raw (reset_record_index_without_parsing i b s)"
| reach_record_reset: "pipeline_reach raw s \<Longrightarrow> pipeline_reach raw (reset_record_index_partial_state i s)"

lemma re_bounded_default: "re_bounded record_event_state_default"
  by (simp add: re_bounded_def record_event_state_default_def)

lemma inv_record_reset: "pipeline_inv raw s \<Longrightarrow> pipeline_inv raw (reset_record_index_partial_state i s)"
  by (auto simp: pipeline_inv_def reset_record_index_partial_state_def re_bounded_default ran_all_upd)

lemma inv_clear: "pipeline_inv raw s \<Longrightarrow> pipeline_inv raw (clear_filter_state_after_flush i s)"
  by (auto simp: clear_filter_state_after_flush_def reset_record_index_state_def inv_other_ops intro: inv_record_reset)

lemma inv_mark: "pipeline_inv raw s \<Longrightarrow> pipeline_inv raw (mark_filter_flush_generation_for_origin i pid origin s)"
  by (simp add: mark_filter_flush_generation_for_origin_def Let_def pipeline_inv_def)

lemma inv_marks:
  "pipeline_inv raw s \<Longrightarrow>
   pipeline_inv raw (fold (\<lambda>(origin, pid). mark_filter_flush_generation_for_origin i pid origin) origins s)"
  by (induction origins arbitrary: s) (auto intro: inv_mark)

lemma inv_configure:
  assumes "pipeline_inv raw s"
  shows "pipeline_inv (raw(i := b)) (configure_filter i c s)" and "pipeline_inv raw (remove_filter i s)"
  using assms
  by (auto simp: pipeline_inv_def configure_filter_def remove_filter_def clear_filter_state_def Let_def
      re_bounded_default ran_all_upd split: option.split if_splits) (auto simp: ran_all_def split: if_splits)

lemma inv_record:
  assumes "pipeline_inv raw s"
  shows "pipeline_inv raw (snd (record_index_event_after_record_commit i v n s))"
proof -
  have "re_bounded (entry_or record_event_state_default (pl_record_event_states s) i)"
    using assms by (auto simp: pipeline_inv_def intro: ran_all_entry re_bounded_default)
  with assms show ?thesis
    by (auto simp: record_index_event_after_record_commit_def push_validated_record_packet_def pipeline_inv_def
        Let_def case_prod_unfold re_bounded_build ran_all_upd split: option.split)
qed

lemma reach_inv: "pipeline_reach raw s \<Longrightarrow> pipeline_inv raw s"
proof (induction rule: pipeline_reach.induct)
  case (reach_init raw)
  show ?case by (simp add: pipeline_inv_def pipeline_default_def ran_all_def)
next
  case (reach_configure raw s i c)
  then show ?case by (intro inv_configure)
next
  case (reach_boundary raw s)
  then show ?case
    by (auto simp: pipeline_inv_def reset_boundary_def reset_record_index_all_def Let_def case_prod_unfold ran_all_def
        re_bounded_default split: if_splits)
qed (simp_all add: packet_inv inv_configure inv_clear inv_record inv_record_reset inv_other_ops flush_filter_def inv_marks
    note_malformed_ts_packet_def start_filter_def stop_filter_def reset_record_index_without_parsing_def)

text \<open>
  C16. Memory of the pipeline: in every reachable state each section assembler holds fewer than
  4096 bytes, each PES assembler at most its limit plus one pending header, and each record index
  at most 35 bytes, however operations and packets of any content were interleaved.
\<close>

theorem pipeline_memory_bounded:
  assumes "pipeline_reach raw s"
  shows "ran_all (\<lambda>a. length (sa_buf a) \<le> MAX_SECTION_PAYLOAD_BYTES - 1) (pl_section_assemblers s) \<and>
    ran_all (\<lambda>a. pes_held a \<le> MAX_PES_BUFFER_BYTES + 263) (pl_pes_assemblers s) \<and>
    ran_all (\<lambda>r. length (re_sc_prefix_carry r) + length (re_pes_header_carry r) \<le> 35) (pl_record_event_states s)"
  using reach_inv [OF assms] section_asm.held_bound pes.held_bound
  by (fastforce simp: pipeline_inv_def ran_all_def re_bounded_def)

theorem pipeline_memory_bounded_witness:
  "ran_all (\<lambda>a. length (sa_buf a) \<le> MAX_SECTION_PAYLOAD_BYTES - 1)
     (pl_section_assemblers (snd (pipeline_packet (sample_section_packet 0x12) (OriginFrontend 1) [sample_section_view]
       pipeline_default)))"
  using pipeline_memory_bounded [OF reach_packet [OF reach_init [of "\<lambda>_. False"]], of "[sample_section_view]"]
  by (simp add: views_ok_def sample_section_view_def)

text \<open>
  C13. Delivered data is sound: in every reachable state, each section that a packet delivers is a
  whole section under the filter's policy and each PES packet is complete, both carry the packet's
  PID, and the filter is one that accepts this PID from this origin for that kind of data.
\<close>

theorem delivered_events_sound:
  assumes "pipeline_reach raw s" and "views_ok raw filters"
  shows "list_all (event_ok v origin filters) (rp_generated_events (fst (pipeline_packet v origin filters s)))"
  using packet_inv(2) [OF reach_inv [OF assms(1)] assms(2)] .

theorem delivered_events_sound_witness:
  "list_all (event_ok (sample_section_packet 0x12) (OriginFrontend 1) [sample_section_view])
     (rp_generated_events (fst (pipeline_packet (sample_section_packet 0x12) (OriginFrontend 1) [sample_section_view]
       pipeline_default)))"
  by (rule delivered_events_sound [OF reach_init [of "\<lambda>_. False"]]) (simp add: views_ok_def sample_section_view_def)

subsection \<open>Exhausted generations\<close>

text \<open>
  C36. When the section generation of a PID is exhausted, a unit start fails closed: the packet
  is counted as dropped with the reason and the affected filters in the report, nothing is handed
  to an assembler, no section delivery remains planned, and the PID starts again from a clean
  state.
\<close>

theorem section_generation_exhausted:
  assumes "current_section_generation origin pid s = U64_MAX"
    and "List.map_filter section_action_id (rp_delivery_actions r) \<noteq> []"
  shows "let (r', s') = section_stage origin pid True x filters r s in
    rp_diagnostics r' = rp_diagnostics r @
      [SectionGenerationOverflow pid (List.map_filter section_action_id (rp_delivery_actions r))] \<and>
    rp_drop_reasons r' = rp_drop_reasons r @ [DropSectionGenerationOverflow] \<and>
    rp_dropped_packets r' = rp_dropped_packets r + 1 \<and>
    List.map_filter section_action_id (rp_delivery_actions r') = [] \<and>
    rp_generated_events r' = rp_generated_events r \<and>
    sl_sections (stream_slice origin pid s') = Map.empty \<and> sl_pes (stream_slice origin pid s') = Map.empty \<and>
    current_section_generation origin pid s' = PIPELINE_GENERATION_INITIAL"
proof -
  have "checked_add_u64 U64_MAX 1 = None" by (simp add: checked_add_u64_def)
  then have "fst (bump_section_generation origin pid s) = None"
    using assms(1) by (simp add: bump_section_generation_def current_section_generation_def
        PIPELINE_GENERATION_INITIAL_def Let_def)
  then obtain t where t: "bump_section_generation origin pid s = (None, t)"
    by (cases "bump_section_generation origin pid s") auto
  have "List.map_filter section_action_id (filter (\<lambda>a. section_action_id a = None) as) = []" for as
    by (induction as) (auto simp: map_filter_simps)
  with assms(2) show ?thesis
    by (simp add: section_stage_def t Let_def comp_def stream_slice_def reset_assembly_for_origin_pid_def
        current_section_generation_def entry_or_def) (simp add: rp_drop_def rp_diagnose_def)
qed

definition sample_exhausted :: packet_pipeline where
  "sample_exhausted = pipeline_default
     \<lparr>pl_section_assembler_generations := Map.empty((OriginFrontend 1, sample_pid) \<mapsto> U64_MAX)\<rparr>"

theorem section_generation_exhausted_witness:
  "rp_drop_reasons (fst (section_stage (OriginFrontend 1) sample_pid True [0] [sample_section_view]
     (plan_ts_packet_report (sample_section_packet 0x12) (OriginFrontend 1) [sample_section_view]) sample_exhausted)) =
   [DropSectionGenerationOverflow]"
proof -
  have "List.map_filter section_action_id (rp_delivery_actions
      (plan_ts_packet_report (sample_section_packet 0x12) (OriginFrontend 1) [sample_section_view])) \<noteq> []"
    using clean_plan(1) [of "sample_section_packet 0x12" "[sample_section_view]" sample_section_view "OriginFrontend 1"]
      sample_traffic_facts(1) by (auto simp: sample_pid_def)
  moreover have "current_section_generation (OriginFrontend 1) sample_pid sample_exhausted = U64_MAX"
    by (simp add: sample_exhausted_def current_section_generation_def entry_or_def)
  moreover have "rp_drop_reasons (plan_ts_packet_report v origin filters) = []" for v origin filters
    by (simp add: plan_ts_packet_report_def Let_def rp_suppress_def rp_diagnose_def)
  ultimately show ?thesis
    using section_generation_exhausted [of "OriginFrontend 1" sample_pid sample_exhausted
        "plan_ts_packet_report (sample_section_packet 0x12) (OriginFrontend 1) [sample_section_view]" "[0]"
        "[sample_section_view]"]
    by (simp add: case_prod_unfold Let_def)
qed

end
