(* ===== verification/Fencing.thy ===== *)
theory Fencing
  imports Main
begin

section \<open>Generation fences and ordered maps\<close>

text \<open>
  Two interfaces the bookkeeping components share. \<open>fenced_handles\<close> is the contract of every
  component that hands out numbered handles: the counter only grows, and a handle becomes current
  only with a number above the counter. Its client lemma is that a handle which is not current any
  more never becomes current again. The resource ledger and the close transactions provide it.

  The second part is a \<open>BTreeMap\<close> whose iteration order the code uses: an association list in key
  order, with \<open>insert\<close>, \<open>remove\<close>, \<open>get\<close> (\<open>map_of\<close>) and \<open>values\<close>.
\<close>

locale fenced_handles =
  fixes exec :: "'c \<Rightarrow> 's \<Rightarrow> 's"
    and clock :: "'s \<Rightarrow> nat"
    and stamp :: "'h \<Rightarrow> nat"
    and current :: "'s \<Rightarrow> 'h \<Rightarrow> bool"
  assumes clock_mono: "clock s \<le> clock (exec c s)"
    and current_old_or_new: "current (exec c s) h \<Longrightarrow> current s h \<or> clock s < stamp h"
begin

definition stale :: "'s \<Rightarrow> 'h \<Rightarrow> bool" where
  "stale s h \<longleftrightarrow> stamp h \<le> clock s \<and> \<not> current s h"

lemma stale_exec: "stale s h \<Longrightarrow> stale (exec c s) h"
  using clock_mono [of s c] current_old_or_new [of c s h] by (auto simp: stale_def)

lemma stale_run: "stale s h \<Longrightarrow> stale (fold exec cs s) h"
  by (induction cs arbitrary: s) (auto intro: stale_exec)

end

subsection \<open>Maps iterated in key order\<close>

type_synonym ('k, 'v) ordered_map = "('k \<times> 'v) list"

primrec om_insert :: "'k::linorder \<Rightarrow> 'v \<Rightarrow> ('k, 'v) ordered_map \<Rightarrow> ('k, 'v) ordered_map" where
  "om_insert k v [] = [(k, v)]"
| "om_insert k v (p # m) =
     (if k < fst p then (k, v) # p # m else if k = fst p then (k, v) # m else p # om_insert k v m)"

definition om_remove :: "'k \<Rightarrow> ('k, 'v) ordered_map \<Rightarrow> ('k, 'v) ordered_map" where
  "om_remove k m = filter (\<lambda>p. fst p \<noteq> k) m"

abbreviation om_values :: "('k, 'v) ordered_map \<Rightarrow> 'v list" where
  "om_values m \<equiv> map snd m"

definition om_wf :: "('k::linorder, 'v) ordered_map \<Rightarrow> bool" where
  "om_wf m \<longleftrightarrow> sorted_wrt (<) (map fst m)"

lemma map_of_om_insert [simp]: "map_of (om_insert k v m) = (map_of m)(k \<mapsto> v)"
  by (induction m) (auto simp: fun_eq_iff)

lemma map_of_om_remove [simp]: "map_of (om_remove k m) = (map_of m)(k := None)"
  by (induction m) (auto simp: om_remove_def fun_eq_iff)

lemma om_insert_keys [simp]: "fst ` set (om_insert k v m) = insert k (fst ` set m)"
  by (induction m) auto

lemma om_wf_Nil [simp]: "om_wf []"
  by (simp add: om_wf_def)

lemma om_wf_insert [simp]: "om_wf m \<Longrightarrow> om_wf (om_insert k v m)"
proof (induction m)
  case (Cons p m)
  have "fst ` set (om_insert k v m) = insert k (fst ` set m)" by simp
  then have "\<forall>x \<in> set (map fst (om_insert k v m)). fst p < x" if "fst p < k"
    using that Cons.prems by (auto simp: om_wf_def)
  with Cons show ?case by (auto simp: om_wf_def)
qed (simp add: om_wf_def)

lemma om_wf_remove [simp]: "om_wf m \<Longrightarrow> om_wf (om_remove k m)"
  by (induction m) (auto simp: om_wf_def om_remove_def)

lemma om_wf_distinct: "om_wf m \<Longrightarrow> distinct (map fst m)"
  unfolding om_wf_def by (induction m) force+

lemma om_values_iff:
  assumes "om_wf m"
  shows "v \<in> set (om_values m) \<longleftrightarrow> (\<exists>k. map_of m k = Some v)"
  using map_of_eq_Some_iff [OF om_wf_distinct [OF assms]] by force

lemma om_length: "om_wf m \<Longrightarrow> length m = card (dom (map_of m))"
  using distinct_card [OF om_wf_distinct] by (metis dom_map_of_conv_image_fst length_map list.set_map)

end
