(* ===== verification/Resource_Ledger.thy ===== *)
theory Resource_Ledger
  imports Tv_Prelude Fencing "HOL-Library.Monad_Syntax"
begin

section \<open>The resource ledger\<close>

text \<open>
  \<open>tuner_hal2/resource_ledger/src/lib.rs\<close>: one ledger per kind of resource, with the life cycle
  state of every identifier and a generation per reservation. The typed wrappers only pass their
  calls on; \<open>typed_ledger\<close> is a ledger with its kind.
\<close>

datatype ledger_id = LedgerId i64
datatype ledger_generation = LedgerGeneration (ledger_gen: u64)

datatype ledger_state = Reserved | Live | Closing | LedgerCleanupFailed | Closed | Quarantined

definition is_terminal :: "ledger_state \<Rightarrow> bool" where
  "is_terminal st \<longleftrightarrow> st = Closed \<or> st = Quarantined"

datatype cleanup_step = StopWorker | ClearQueue | UnregisterRuntime | ReleaseBackend | ReleaseLedger

datatype resource_kind =
    ResourceFrontend | ResourceDemux | ResourceFilter | ResourceDvr | ResourceDescrambler | ResourceLnb

datatype ledger_operation =
    OpReserve | OpCommitLive | OpBeginClose | OpCommitClose | OpRollbackOpen | OpMarkCleanupFailed | OpQuarantine
  | OpAdvanceCleanupStep

datatype ledger_error_kind =
    AlreadyExists ledger_state
  | NotFound
  | GenerationMismatch ledger_generation ledger_generation
  | InvalidTransition ledger_state ledger_operation
  | TerminalState ledger_state ledger_operation
  | GenerationOverflow

record ledger_error =
  le_id :: ledger_id
  le_kind :: ledger_error_kind

definition ledger_err :: "ledger_id \<Rightarrow> ledger_error_kind \<Rightarrow> ledger_error" where
  "ledger_err i k = \<lparr>le_id = i, le_kind = k\<rparr>"

record ledger_entry =
  en_id :: ledger_id
  en_generation :: ledger_generation
  en_state :: ledger_state
  en_cleanup_step :: "cleanup_step option"

record resource_ledger =
  rl_entries :: "ledger_id \<rightharpoonup> ledger_entry"
  rl_next_generation :: u64

definition ledger_default :: resource_ledger where
  "ledger_default = \<lparr>rl_entries = Map.empty, rl_next_generation = 0\<rparr>"

type_synonym ledger_result = "(ledger_error + ledger_entry) \<times> resource_ledger"

definition reserve :: "ledger_id \<Rightarrow> resource_ledger \<Rightarrow> ledger_result" where
  "reserve i l =
     (case rl_entries l i of
        Some existing \<Rightarrow> (Err (ledger_err i (AlreadyExists (en_state existing))), l)
      | None \<Rightarrow>
          (case checked_add_u64 (rl_next_generation l) 1 of
             None \<Rightarrow> (Err (ledger_err i GenerationOverflow), l)
           | Some next_generation \<Rightarrow>
               let entry = \<lparr>en_id = i, en_generation = LedgerGeneration next_generation, en_state = Reserved,
                            en_cleanup_step = None\<rparr>
               in (Ok entry, l\<lparr>rl_next_generation := next_generation, rl_entries := (rl_entries l)(i \<mapsto> entry)\<rparr>)))"

definition entry_checked :: "ledger_id \<Rightarrow> ledger_generation \<Rightarrow> resource_ledger \<Rightarrow> ledger_error + ledger_entry" where
  "entry_checked i g l =
     (case rl_entries l i of
        None \<Rightarrow> Err (ledger_err i NotFound)
      | Some entry \<Rightarrow>
          if en_generation entry \<noteq> g then Err (ledger_err i (GenerationMismatch (en_generation entry) g))
          else Ok entry)"

definition entry_mut_checked ::
  "ledger_id \<Rightarrow> ledger_generation \<Rightarrow> ledger_operation \<Rightarrow> resource_ledger \<Rightarrow> ledger_error + ledger_entry" where
  "entry_mut_checked i g op l =
     (case rl_entries l i of
        None \<Rightarrow> Err (ledger_err i NotFound)
      | Some entry \<Rightarrow>
          if en_generation entry \<noteq> g then Err (ledger_err i (GenerationMismatch (en_generation entry) g))
          else if is_terminal (en_state entry) \<and> op \<noteq> OpQuarantine
            then Err (ledger_err i (TerminalState (en_state entry) op))
          else Ok entry)"

text \<open>Writing through the reference that \<open>entry_mut_checked\<close> returns, and the two ways to refuse.\<close>

definition ledger_store :: "ledger_id \<Rightarrow> ledger_entry \<Rightarrow> resource_ledger \<Rightarrow> ledger_result" where
  "ledger_store i entry l = (Ok entry, l\<lparr>rl_entries := (rl_entries l)(i \<mapsto> entry)\<rparr>)"

definition ledger_refuse :: "ledger_id \<Rightarrow> ledger_state \<Rightarrow> ledger_operation \<Rightarrow> ledger_error" where
  "ledger_refuse i st op = ledger_err i (if is_terminal st then TerminalState st op else InvalidTransition st op)"

definition commit_live :: "ledger_id \<Rightarrow> ledger_generation \<Rightarrow> resource_ledger \<Rightarrow> ledger_result" where
  "commit_live i g l =
     (case entry_mut_checked i g OpCommitLive l of
        Err e \<Rightarrow> (Err e, l)
      | Ok entry \<Rightarrow>
          if en_state entry = Reserved
          then ledger_store i (entry\<lparr>en_state := Live, en_cleanup_step := None\<rparr>) l
          else (Err (ledger_refuse i (en_state entry) OpCommitLive), l))"

definition begin_close :: "ledger_id \<Rightarrow> ledger_generation \<Rightarrow> cleanup_step \<Rightarrow> resource_ledger \<Rightarrow> ledger_result" where
  "begin_close i g first_step l =
     (case entry_mut_checked i g OpBeginClose l of
        Err e \<Rightarrow> (Err e, l)
      | Ok entry \<Rightarrow>
          if en_state entry = Live \<or> en_state entry = LedgerCleanupFailed
          then ledger_store i (entry\<lparr>en_state := Closing, en_cleanup_step := Some first_step\<rparr>) l
          else (Err (ledger_refuse i (en_state entry) OpBeginClose), l))"

definition advance_cleanup_step ::
  "ledger_id \<Rightarrow> ledger_generation \<Rightarrow> cleanup_step \<Rightarrow> resource_ledger \<Rightarrow> ledger_result" where
  "advance_cleanup_step i g step l =
     (case entry_mut_checked i g OpAdvanceCleanupStep l of
        Err e \<Rightarrow> (Err e, l)
      | Ok entry \<Rightarrow>
          if en_state entry = Closing \<or> en_state entry = LedgerCleanupFailed
          then ledger_store i (entry\<lparr>en_cleanup_step := Some step\<rparr>) l
          else (Err (ledger_refuse i (en_state entry) OpAdvanceCleanupStep), l))"

definition mark_cleanup_failed ::
  "ledger_id \<Rightarrow> ledger_generation \<Rightarrow> cleanup_step \<Rightarrow> resource_ledger \<Rightarrow> ledger_result" where
  "mark_cleanup_failed i g failed_step l =
     (case entry_mut_checked i g OpMarkCleanupFailed l of
        Err e \<Rightarrow> (Err e, l)
      | Ok entry \<Rightarrow>
          if en_state entry = Closing \<or> en_state entry = LedgerCleanupFailed
          then ledger_store i (entry\<lparr>en_state := LedgerCleanupFailed, en_cleanup_step := Some failed_step\<rparr>) l
          else (Err (ledger_refuse i (en_state entry) OpMarkCleanupFailed), l))"

definition commit_close :: "ledger_id \<Rightarrow> ledger_generation \<Rightarrow> resource_ledger \<Rightarrow> ledger_result" where
  "commit_close i g l =
     (case entry_mut_checked i g OpCommitClose l of
        Err e \<Rightarrow> (Err e, l)
      | Ok entry \<Rightarrow>
          if en_state entry = Closing \<or> en_state entry = LedgerCleanupFailed
          then ledger_store i (entry\<lparr>en_state := Closed, en_cleanup_step := None\<rparr>) l
          else (Err (ledger_refuse i (en_state entry) OpCommitClose), l))"

definition rollback_open :: "ledger_id \<Rightarrow> ledger_generation \<Rightarrow> resource_ledger \<Rightarrow> ledger_result" where
  "rollback_open i g l =
     (case entry_checked i g l of
        Err e \<Rightarrow> (Err e, l)
      | Ok entry \<Rightarrow>
          if en_state entry = Reserved then (Ok entry, l\<lparr>rl_entries := (rl_entries l)(i := None)\<rparr>)
          else (Err (ledger_refuse i (en_state entry) OpRollbackOpen), l))"

definition quarantine ::
  "ledger_id \<Rightarrow> ledger_generation \<Rightarrow> cleanup_step option \<Rightarrow> resource_ledger \<Rightarrow> ledger_result" where
  "quarantine i g step l =
     (case entry_mut_checked i g OpQuarantine l of
        Err e \<Rightarrow> (Err e, l)
      | Ok entry \<Rightarrow>
          if en_state entry = Closed \<or> en_state entry = Quarantined
          then (Err (ledger_err i (TerminalState (en_state entry) OpQuarantine)), l)
          else ledger_store i (entry\<lparr>en_state := Quarantined, en_cleanup_step := step\<rparr>) l)"

text \<open>The calls of the interface, as data, for sequences of calls.\<close>

datatype ledger_call =
    CallReserve ledger_id
  | CallCommitLive ledger_id ledger_generation
  | CallBeginClose ledger_id ledger_generation cleanup_step
  | CallAdvance ledger_id ledger_generation cleanup_step
  | CallMarkFailed ledger_id ledger_generation cleanup_step
  | CallCommitClose ledger_id ledger_generation
  | CallRollback ledger_id ledger_generation
  | CallQuarantine ledger_id ledger_generation "cleanup_step option"

fun ledger_exec :: "ledger_call \<Rightarrow> resource_ledger \<Rightarrow> ledger_result" where
  "ledger_exec (CallReserve i) l = reserve i l"
| "ledger_exec (CallCommitLive i g) l = commit_live i g l"
| "ledger_exec (CallBeginClose i g st) l = begin_close i g st l"
| "ledger_exec (CallAdvance i g st) l = advance_cleanup_step i g st l"
| "ledger_exec (CallMarkFailed i g st) l = mark_cleanup_failed i g st l"
| "ledger_exec (CallCommitClose i g) l = commit_close i g l"
| "ledger_exec (CallRollback i g) l = rollback_open i g l"
| "ledger_exec (CallQuarantine i g st) l = quarantine i g st l"

record typed_ledger =
  tl_kind :: resource_kind
  tl_inner :: resource_ledger

definition typed_exec :: "ledger_call \<Rightarrow> typed_ledger \<Rightarrow> (ledger_error + ledger_entry) \<times> typed_ledger" where
  "typed_exec c t = (case ledger_exec c (tl_inner t) of (r, l) \<Rightarrow> (r, t\<lparr>tl_inner := l\<rparr>))"

subsection \<open>The life cycle the ledger implements\<close>

text \<open>
  Specification: what each call does to the entry of its identifier (\<open>None\<close> when there is none), one rule per
  call and state it is allowed in. An entry is its identifier, generation, state and cleanup step; \<open>n\<close>
  is the last generation given out. Where no rule applies, the call is refused: so it is for a handle of
  another generation, for every call on a closed or quarantined entry, and for a reservation of an
  identifier that is known or when the generations are used up.
\<close>

abbreviation ledger_item :: "ledger_id \<Rightarrow> ledger_generation \<Rightarrow> ledger_state \<Rightarrow> cleanup_step option \<Rightarrow> ledger_entry" where
  "ledger_item j g st step \<equiv> \<lparr>en_id = j, en_generation = g, en_state = st, en_cleanup_step = step\<rparr>"

inductive ledger_move :: "u64 \<Rightarrow> ledger_call \<Rightarrow> ledger_entry option \<Rightarrow> ledger_entry option \<Rightarrow> bool" where
  "unat n + 1 < 2 ^ 64 \<Longrightarrow> ledger_move n (CallReserve i) None (Some (ledger_item i (LedgerGeneration (n + 1)) Reserved None))"
| "ledger_move n (CallCommitLive i g) (Some (ledger_item j g Reserved c)) (Some (ledger_item j g Live None))"
| "ledger_move n (CallRollback i g) (Some (ledger_item j g Reserved c)) None"
| "ledger_move n (CallBeginClose i g s) (Some (ledger_item j g Live c)) (Some (ledger_item j g Closing (Some s)))"
| "ledger_move n (CallBeginClose i g s) (Some (ledger_item j g LedgerCleanupFailed c)) (Some (ledger_item j g Closing (Some s)))"
| "ledger_move n (CallAdvance i g s) (Some (ledger_item j g Closing c)) (Some (ledger_item j g Closing (Some s)))"
| "ledger_move n (CallAdvance i g s) (Some (ledger_item j g LedgerCleanupFailed c))
     (Some (ledger_item j g LedgerCleanupFailed (Some s)))"
| "ledger_move n (CallMarkFailed i g s) (Some (ledger_item j g Closing c)) (Some (ledger_item j g LedgerCleanupFailed (Some s)))"
| "ledger_move n (CallMarkFailed i g s) (Some (ledger_item j g LedgerCleanupFailed c))
     (Some (ledger_item j g LedgerCleanupFailed (Some s)))"
| "ledger_move n (CallCommitClose i g) (Some (ledger_item j g Closing c)) (Some (ledger_item j g Closed None))"
| "ledger_move n (CallCommitClose i g) (Some (ledger_item j g LedgerCleanupFailed c)) (Some (ledger_item j g Closed None))"
| "st \<in> {Reserved, Live, Closing, LedgerCleanupFailed} \<Longrightarrow>
     ledger_move n (CallQuarantine i g q) (Some (ledger_item j g st c)) (Some (ledger_item j g Quarantined q))"

inductive_simps ledger_move_simps: "ledger_move n c a b"

fun call_id :: "ledger_call \<Rightarrow> ledger_id" where
  "call_id (CallReserve i) = i"
| "call_id (CallCommitLive i _) = i"
| "call_id (CallBeginClose i _ _) = i"
| "call_id (CallAdvance i _ _) = i"
| "call_id (CallMarkFailed i _ _) = i"
| "call_id (CallCommitClose i _) = i"
| "call_id (CallRollback i _) = i"
| "call_id (CallQuarantine i _ _) = i"

lemmas ledger_ops = reserve_def commit_live_def begin_close_def advance_cleanup_step_def mark_cleanup_failed_def
  commit_close_def rollback_open_def quarantine_def entry_mut_checked_def entry_checked_def ledger_store_def

lemma exec_error: "fst (ledger_exec c l) = Err e \<Longrightarrow> snd (ledger_exec c l) = l"
  by (cases c) (auto simp: ledger_ops Let_def split: option.splits if_splits sum.splits)

lemma exec_other: "i \<noteq> call_id c \<Longrightarrow> rl_entries (snd (ledger_exec c l)) i = rl_entries l i"
  by (cases c) (auto simp: ledger_ops Let_def split: option.splits if_splits sum.splits)

definition follows_lifecycle :: "ledger_call \<Rightarrow> resource_ledger \<Rightarrow> ledger_result \<Rightarrow> bool" where
  "follows_lifecycle c l res \<longleftrightarrow>
     (let i = call_id c; before = rl_entries l i; n = rl_next_generation l; l' = snd res
      in case fst res of
           Err e \<Rightarrow> l' = l \<and> (\<nexists>after. ledger_move n c before after)
         | Ok entry \<Rightarrow>
             (\<exists>after. ledger_move n c before after \<and> rl_entries l' = (rl_entries l)(i := after) \<and>
                rl_next_generation l' = (if before = None then n + 1 else n) \<and>
                Some entry = (if after = None then before else after)))"

lemma reserve_follows: "follows_lifecycle (CallReserve i) l (reserve i l)"
  by (simp add: follows_lifecycle_def reserve_def ledger_move_simps checked_add_u64_def Let_def split: option.split)

lemma checked_follows:
  assumes "\<And>e. rl_entries l (call_id c) = Some e \<Longrightarrow> follows_lifecycle c l (ledger_exec c l)"
    and "\<And>i. c \<noteq> CallReserve i"
  shows "follows_lifecycle c l (ledger_exec c l)"
proof (cases "rl_entries l (call_id c)")
  case None
  then show ?thesis using assms(2)
    by (cases c) (auto simp: follows_lifecycle_def ledger_ops ledger_move_simps)
qed (use assms(1) in blast)

lemma exec_follows: "follows_lifecycle c l (ledger_exec c l)"
proof (cases "\<exists>i. c = CallReserve i")
  case True
  then show ?thesis using reserve_follows by auto
next
  case False
  show ?thesis
  proof (rule checked_follows)
    fix e assume e: "rl_entries l (call_id c) = Some e"
    obtain j g st step where "e = ledger_item j g st step" by (cases e) simp
    then show "follows_lifecycle c l (ledger_exec c l)"
      using e False
      by (cases c; cases st)
        (auto simp: follows_lifecycle_def ledger_ops ledger_move_simps is_terminal_def Let_def fun_upd_idem_iff)
  qed (use False in blast)
qed

text \<open>
  C25. The ledger implements the life cycle call by call. A call is accepted exactly when the life cycle has a
  move for it from the entry of its identifier under the handle's generation; then the entry becomes what the
  move says, with its identifier, generation, state and cleanup step, and the caller gets this
  entry (after a rollback, the entry that is gone). No entry of another identifier changes in anything, and
  the generation counter counts reservations only. A call that is refused changes nothing at all.
\<close>

theorem ledger_refines_lifecycle:
  "case ledger_exec c l of (reply, l') \<Rightarrow>
     let i = call_id c; before = rl_entries l i; n = rl_next_generation l
     in case reply of
          Err e \<Rightarrow> l' = l \<and> (\<nexists>after. ledger_move n c before after)
        | Ok entry \<Rightarrow>
            (\<exists>after. ledger_move n c before after \<and> rl_entries l' = (rl_entries l)(i := after) \<and>
               rl_next_generation l' = (if before = None then n + 1 else n) \<and>
               Some entry = (if after = None then before else after))"
  using exec_follows [of c l] by (simp add: follows_lifecycle_def case_prod_beta Let_def)

subsection \<open>Sequences of calls\<close>

definition ledger_run :: "ledger_call list \<Rightarrow> resource_ledger \<Rightarrow> resource_ledger" where
  "ledger_run cs l = fold (\<lambda>c l. snd (ledger_exec c l)) cs l"

lemma ledger_run_induct:
  assumes "\<And>c l. P l \<Longrightarrow> P (snd (ledger_exec c l))" and "P l"
  shows "P (ledger_run cs l)"
  using assms(2) unfolding ledger_run_def by (induction cs arbitrary: l) (simp_all add: assms(1))

definition ledger_inv :: "resource_ledger \<Rightarrow> bool" where
  "ledger_inv l \<longleftrightarrow> (\<forall>i e. rl_entries l i = Some e \<longrightarrow>
     en_id e = i \<and> unat (ledger_gen (en_generation e)) \<le> unat (rl_next_generation l) \<and>
     (\<forall>j f. rl_entries l j = Some f \<longrightarrow> en_generation e = en_generation f \<longrightarrow> i = j))"

text \<open>Reserving is the only call that issues a generation, and it is a new one.\<close>

lemma exec_generation:
  assumes "rl_entries (snd (ledger_exec c l)) i = Some e"
  shows "(\<exists>f. rl_entries l i = Some f \<and> en_generation e = en_generation f \<and> en_id e = en_id f) \<or>
    c = CallReserve i \<and> en_id e = i \<and> ledger_gen (en_generation e) = rl_next_generation (snd (ledger_exec c l)) \<and>
    unat (ledger_gen (en_generation e)) = unat (rl_next_generation l) + 1"
  using assms
  by (cases c)
    (auto simp: ledger_ops Let_def dest: checked_add_u64_Some split: option.splits if_splits sum.splits)

lemma exec_next: "unat (rl_next_generation l) \<le> unat (rl_next_generation (snd (ledger_exec c l)))"
  by (cases c) (auto simp: ledger_ops Let_def dest!: checked_add_u64_Some split: option.splits if_splits sum.splits)

lemma ledger_invD:
  assumes "ledger_inv l" and "rl_entries l i = Some e"
  shows "en_id e = i" and "unat (ledger_gen (en_generation e)) \<le> unat (rl_next_generation l)"
    and "rl_entries l j = Some f \<Longrightarrow> en_generation e = en_generation f \<Longrightarrow> i = j"
  using assms unfolding ledger_inv_def by blast+

lemma ledger_inv_exec:
  assumes inv: "ledger_inv l"
  shows "ledger_inv (snd (ledger_exec c l))"
  unfolding ledger_inv_def
proof (intro allI impI conjI)
  let ?l = "snd (ledger_exec c l)"
  fix i e assume e: "rl_entries ?l i = Some e"
  consider (old) f where "rl_entries l i = Some f" "en_generation e = en_generation f" "en_id e = en_id f"
    | (new) "c = CallReserve i" "en_id e = i" "ledger_gen (en_generation e) = rl_next_generation ?l"
      "unat (ledger_gen (en_generation e)) = unat (rl_next_generation l) + 1"
    using exec_generation [OF e] by blast
  note e_cases = this
  show "en_id e = i" by (cases rule: e_cases) (simp_all add: ledger_invD(1) [OF inv])
  show "unat (ledger_gen (en_generation e)) \<le> unat (rl_next_generation ?l)"
  proof (cases rule: e_cases)
    case (old f)
    then show ?thesis using ledger_invD(2) [OF inv, of i f] exec_next [of l c] by simp
  qed simp
  fix j f assume f: "rl_entries ?l j = Some f" and g: "en_generation e = en_generation f"
  consider (old') h where "rl_entries l j = Some h" "en_generation f = en_generation h"
    | (new') "c = CallReserve j" "unat (ledger_gen (en_generation f)) = unat (rl_next_generation l) + 1"
    using exec_generation [OF f] by blast
  note f_cases = this
  show "i = j"
  proof (cases rule: e_cases)
    case (old h)
    show ?thesis
    proof (cases rule: f_cases)
      case (old' k)
      then show ?thesis using ledger_invD(3) [OF inv old(1), of j k] old g by simp
    next
      case new'
      then show ?thesis using ledger_invD(2) [OF inv old(1)] old g by simp
    qed
  next
    case new
    show ?thesis
    proof (cases rule: f_cases)
      case (old' k)
      then show ?thesis using ledger_invD(2) [OF inv old'(1)] new g by simp
    next
      case new'
      then show ?thesis using new by simp
    qed
  qed
qed

lemma ledger_inv_default: "ledger_inv ledger_default"
  by (simp add: ledger_inv_def ledger_default_def)

text \<open>
  Handles cannot be confused: in every state reached from an empty ledger, each entry stands
  under its own identifier, two identifiers never share a generation, and no generation beyond the
  last one issued is in use.
\<close>

lemma ledger_generations_unique: "ledger_inv (ledger_run cs ledger_default)"
  by (rule ledger_run_induct [OF ledger_inv_exec ledger_inv_default])

definition handle_current :: "resource_ledger \<Rightarrow> ledger_id \<times> ledger_generation \<Rightarrow> bool" where
  "handle_current l h \<longleftrightarrow> (\<exists>e. rl_entries l (fst h) = Some e \<and> en_generation e = snd h)"

interpretation ledger_fence: fenced_handles "\<lambda>c l. snd (ledger_exec c l)" "\<lambda>l. unat (rl_next_generation l)"
  "\<lambda>h. unat (ledger_gen (snd h))" handle_current
proof
  fix c l and h :: "ledger_id \<times> ledger_generation"
  show "unat (rl_next_generation l) \<le> unat (rl_next_generation (snd (ledger_exec c l)))" by (rule exec_next)
  assume "handle_current (snd (ledger_exec c l)) h"
  then obtain e where e: "rl_entries (snd (ledger_exec c l)) (fst h) = Some e" and g: "en_generation e = snd h"
    by (auto simp: handle_current_def)
  from exec_generation [OF e] g
  show "handle_current l h \<or> unat (rl_next_generation l) < unat (ledger_gen (snd h))"
    by (auto simp: handle_current_def)
qed

definition handle_stale :: "ledger_id \<Rightarrow> ledger_generation \<Rightarrow> resource_ledger \<Rightarrow> bool" where
  "handle_stale i g l \<longleftrightarrow> unat (ledger_gen g) \<le> unat (rl_next_generation l) \<and>
     (case rl_entries l i of None \<Rightarrow> True | Some e \<Rightarrow> en_generation e \<noteq> g)"

lemma handle_stale_fence: "handle_stale i g l \<longleftrightarrow> ledger_fence.stale l (i, g)"
  by (auto simp: handle_stale_def ledger_fence.stale_def handle_current_def split: option.split)

lemma stale_refused:
  assumes "handle_stale i g l"
    and "c \<in> {CallCommitLive i g, CallBeginClose i g st, CallAdvance i g st,
     CallMarkFailed i g st, CallCommitClose i g, CallRollback i g, CallQuarantine i g q}"
  shows "isl (fst (ledger_exec c l))"
proof -
  have m: "isl (entry_mut_checked i g op l)" and c: "isl (entry_checked i g l)" for op
    using assms(1) by (auto simp: handle_stale_def entry_mut_checked_def entry_checked_def split: option.splits)
  have "isl (fst (commit_live i g l))" "isl (fst (begin_close i g st l))" "isl (fst (advance_cleanup_step i g st l))"
    "isl (fst (mark_cleanup_failed i g st l))" "isl (fst (commit_close i g l))" "isl (fst (quarantine i g q l))"
    using m [of OpCommitLive] m [of OpBeginClose] m [of OpAdvanceCleanupStep] m [of OpMarkCleanupFailed]
      m [of OpCommitClose] m [of OpQuarantine]
    by (simp_all add: commit_live_def begin_close_def advance_cleanup_step_def mark_cleanup_failed_def commit_close_def
        quarantine_def split: sum.split) fastforce+
  moreover have "isl (fst (rollback_open i g l))"
    using c by (auto simp: rollback_open_def split: sum.split)
  ultimately show ?thesis using assms(2) by auto
qed

text \<open>
  C32. A stale handle stays stale: once an identifier's entry was rolled back, or reserved anew,
  the old generation is refused by every call, after any further sequence of calls, so a late
  close or quarantine from a previous owner cannot hit the new one.
\<close>

theorem stale_handle_refused:
  assumes "handle_stale i g l"
    and "c \<in> {CallCommitLive i g, CallBeginClose i g st, CallAdvance i g st, CallMarkFailed i g st,
      CallCommitClose i g, CallRollback i g, CallQuarantine i g q}"
  shows "isl (fst (ledger_exec c (ledger_run cs l))) \<and> snd (ledger_exec c (ledger_run cs l)) = ledger_run cs l"
proof -
  have "handle_stale i g (ledger_run cs l)"
    using ledger_fence.stale_run assms(1) by (simp add: handle_stale_fence ledger_run_def)
  then have "isl (fst (ledger_exec c (ledger_run cs l)))"
    by (rule stale_refused) (use assms(2) in auto)
  then show ?thesis by (cases "fst (ledger_exec c (ledger_run cs l))") (auto intro: exec_error)
qed

text \<open>
  Closed and quarantined are final: whatever calls follow, the entry of such an identifier
  stays exactly as it is, and the identifier is never reserved again.
\<close>

lemma ledger_terminal_final:
  assumes "rl_entries l i = Some e" and "is_terminal (en_state e)"
  shows "rl_entries (ledger_run cs l) i = Some e"
proof (rule ledger_run_induct [where P = "\<lambda>l. rl_entries l i = Some e"])
  show "rl_entries (snd (ledger_exec c l)) i = Some e" if "rl_entries l i = Some e" for c l
    using that assms(2)
    by (cases c) (auto simp: ledger_ops is_terminal_def Let_def split: option.splits if_splits sum.splits)
qed (rule assms(1))

definition sample_ledger :: resource_ledger where
  "sample_ledger = ledger_run [CallReserve (LedgerId 7), CallCommitLive (LedgerId 7) (LedgerGeneration 1),
     CallBeginClose (LedgerId 7) (LedgerGeneration 1) StopWorker, CallCommitClose (LedgerId 7) (LedgerGeneration 1),
     CallReserve (LedgerId 8), CallRollback (LedgerId 8) (LedgerGeneration 2), CallReserve (LedgerId 8)] ledger_default"

lemma sample_ledger_entries:
  "rl_entries sample_ledger (LedgerId 7) =
     Some \<lparr>en_id = LedgerId 7, en_generation = LedgerGeneration 1, en_state = Closed, en_cleanup_step = None\<rparr>"
  "rl_entries sample_ledger (LedgerId 8) =
     Some \<lparr>en_id = LedgerId 8, en_generation = LedgerGeneration 3, en_state = Reserved, en_cleanup_step = None\<rparr>"
  "rl_next_generation sample_ledger = 3"
  by (simp_all add: sample_ledger_def ledger_run_def ledger_default_def ledger_ops checked_add_u64_def is_terminal_def Let_def)

theorem stale_handle_refused_witness:
  "isl (fst (ledger_exec (CallBeginClose (LedgerId 8) (LedgerGeneration 2) StopWorker) (ledger_run [] sample_ledger)))"
  using stale_handle_refused [of "LedgerId 8" "LedgerGeneration 2" sample_ledger
      "CallBeginClose (LedgerId 8) (LedgerGeneration 2) StopWorker" StopWorker None "[]"]
  by (simp add: handle_stale_def sample_ledger_entries)

theorem ledger_terminal_final_witness:
  "rl_entries (ledger_run [CallReserve (LedgerId 7)] sample_ledger) (LedgerId 7) =
     Some \<lparr>en_id = LedgerId 7, en_generation = LedgerGeneration 1, en_state = Closed, en_cleanup_step = None\<rparr>"
  by (rule ledger_terminal_final [OF sample_ledger_entries(1)]) (simp add: is_terminal_def)

end
