(* ===== verification/Close_Txn.thy ===== *)
theory Close_Txn
  imports Resource_Ledger
begin

section \<open>Obligations and attempts of object cleanup\<close>

text \<open>
  \<open>ObjectCloseTxn\<close> of \<open>service_runtime/src/object_close_txn.rs\<close> and the identifiers of
  \<open>domain_request/src/lib.rs\<close>. Closing an object creates an obligation to clean it up; each attempt
  to do so runs under a numbered key, and only the attempt in progress can finish.
\<close>

datatype aidl_object_kind =
    KindTuner | KindFrontend | KindDemux | KindFilter | KindDvr | KindDescrambler | KindLnb

datatype aidl_object_id = AidlObjectId (object_id_raw: i64)
datatype aidl_object_generation = AidlObjectGeneration (object_generation_raw: u64)

lemma object_id_sint_inj: "sint (object_id_raw a) = sint (object_id_raw b) \<longleftrightarrow> a = b"
  by (metis aidl_object_id.expand signed_word_eqI)

text \<open>The derived order of the identifiers is that of the signed number.\<close>

instantiation aidl_object_id :: linorder
begin

definition less_eq_aidl_object_id :: "aidl_object_id \<Rightarrow> aidl_object_id \<Rightarrow> bool" where
  "less_eq_aidl_object_id a b \<longleftrightarrow> sint (object_id_raw a) \<le> sint (object_id_raw b)"

definition less_aidl_object_id :: "aidl_object_id \<Rightarrow> aidl_object_id \<Rightarrow> bool" where
  "less_aidl_object_id a b \<longleftrightarrow> sint (object_id_raw a) < sint (object_id_raw b)"

instance
  by standard (auto simp: less_eq_aidl_object_id_def less_aidl_object_id_def object_id_sint_inj)

end

record close_cleanup_obligation =
  ob_generation :: aidl_object_generation
  ob_id :: u64
  ob_active_attempt :: "u64 option"

datatype close_cleanup_authority_key = CloseCleanupAuthorityKey (ak_obligation_id: u64)

record close_cleanup_attempt_key =
  at_obligation_id :: u64
  at_attempt_id :: u64

datatype close_cleanup_attempt_outcome = AttemptComplete | AttemptPending cleanup_step

datatype object_close_txn_state_error = InvalidAuthority | IdentifierExhausted

record object_close_txn =
  ct_obligations :: "aidl_object_id \<rightharpoonup> close_cleanup_obligation"
  ct_next_obligation_id :: u64
  ct_next_attempt_id :: u64

definition close_txn_new :: object_close_txn where
  "close_txn_new = \<lparr>ct_obligations = Map.empty, ct_next_obligation_id = 0, ct_next_attempt_id = 0\<rparr>"

definition close_txn_clear :: "object_close_txn \<Rightarrow> object_close_txn" where
  "close_txn_clear x = x\<lparr>ct_obligations := Map.empty, ct_next_obligation_id := 0, ct_next_attempt_id := 0\<rparr>"

definition clear_obligation :: "aidl_object_id \<Rightarrow> object_close_txn \<Rightarrow> object_close_txn" where
  "clear_obligation i x = x\<lparr>ct_obligations := (ct_obligations x)(i := None)\<rparr>"

text \<open>\<open>checked_add(1).filter(|id| *id != 0)\<close>\<close>

definition next_nonzero_id :: "u64 \<Rightarrow> u64 option" where
  "next_nonzero_id n =
     (case checked_add_u64 n 1 of None \<Rightarrow> None | Some m \<Rightarrow> if m \<noteq> 0 then Some m else None)"

definition issue_cleanup_authority ::
  "aidl_object_id \<Rightarrow> aidl_object_generation \<Rightarrow> object_close_txn \<Rightarrow>
   (object_close_txn_state_error + close_cleanup_authority_key) \<times> object_close_txn" where
  "issue_cleanup_authority i g x =
     (case ct_obligations x i of
        Some ob \<Rightarrow>
          if ob_generation ob \<noteq> g \<or> ob_active_attempt ob \<noteq> None then (Err InvalidAuthority, x)
          else (Ok (CloseCleanupAuthorityKey (ob_id ob)), x)
      | None \<Rightarrow>
          (case next_nonzero_id (ct_next_obligation_id x) of
             None \<Rightarrow> (Err IdentifierExhausted, x)
           | Some obligation_id \<Rightarrow>
               (Ok (CloseCleanupAuthorityKey obligation_id),
                x\<lparr>ct_next_obligation_id := obligation_id,
                  ct_obligations := (ct_obligations x)
                    (i \<mapsto> \<lparr>ob_generation = g, ob_id = obligation_id, ob_active_attempt = None\<rparr>)\<rparr>)))"

definition begin_cleanup_attempt ::
  "aidl_object_id \<Rightarrow> aidl_object_generation \<Rightarrow> close_cleanup_authority_key \<Rightarrow> object_close_txn \<Rightarrow>
   (object_close_txn_state_error + close_cleanup_attempt_key) \<times> object_close_txn" where
  "begin_cleanup_attempt i g authority x =
     (case ct_obligations x i of
        None \<Rightarrow> (Err InvalidAuthority, x)
      | Some ob \<Rightarrow>
          if ob_generation ob \<noteq> g \<or> ob_id ob \<noteq> ak_obligation_id authority \<or> ob_active_attempt ob \<noteq> None
          then (Err InvalidAuthority, x)
          else
            (case next_nonzero_id (ct_next_attempt_id x) of
               None \<Rightarrow> (Err IdentifierExhausted, x)
             | Some attempt_id \<Rightarrow>
                 (Ok \<lparr>at_obligation_id = ak_obligation_id authority, at_attempt_id = attempt_id\<rparr>,
                  x\<lparr>ct_next_attempt_id := attempt_id,
                    ct_obligations := (ct_obligations x)(i \<mapsto> ob\<lparr>ob_active_attempt := Some attempt_id\<rparr>)\<rparr>)))"

definition attempt_is_current ::
  "aidl_object_id \<Rightarrow> aidl_object_generation \<Rightarrow> close_cleanup_attempt_key \<Rightarrow> object_close_txn \<Rightarrow> bool" where
  "attempt_is_current i g attempt x =
     (case ct_obligations x i of
        None \<Rightarrow> False
      | Some ob \<Rightarrow> ob_generation ob = g \<and> ob_id ob = at_obligation_id attempt \<and>
          ob_active_attempt ob = Some (at_attempt_id attempt))"

definition finish_cleanup_attempt ::
  "aidl_object_id \<Rightarrow> aidl_object_generation \<Rightarrow> close_cleanup_attempt_key \<Rightarrow> bool \<Rightarrow> object_close_txn \<Rightarrow>
   (object_close_txn_state_error + unit) \<times> object_close_txn" where
  "finish_cleanup_attempt i g attempt complete x =
     (if \<not> attempt_is_current i g attempt x then (Err InvalidAuthority, x)
      else if complete then (Ok (), x\<lparr>ct_obligations := (ct_obligations x)(i := None)\<rparr>)
      else
        (case ct_obligations x i of
           None \<Rightarrow> (Err InvalidAuthority, x)
         | Some ob \<Rightarrow>
             (Ok (), x\<lparr>ct_obligations := (ct_obligations x)(i \<mapsto> ob\<lparr>ob_active_attempt := None\<rparr>)\<rparr>)))"

subsection \<open>Attempts are fenced\<close>

lemma next_nonzero_id_Some:
  "next_nonzero_id n = Some m \<Longrightarrow> unat m = unat n + 1"
  by (auto simp: next_nonzero_id_def dest: checked_add_u64_Some split: option.splits if_splits)

text \<open>The calls on a close transaction, for the fence that covers all of them but \<open>clear\<close>.\<close>

datatype close_txn_call =
    TxnClearObligation aidl_object_id
  | TxnIssue aidl_object_id aidl_object_generation
  | TxnBegin aidl_object_id aidl_object_generation close_cleanup_authority_key
  | TxnFinish aidl_object_id aidl_object_generation close_cleanup_attempt_key bool

fun close_txn_exec :: "close_txn_call \<Rightarrow> object_close_txn \<Rightarrow> object_close_txn" where
  "close_txn_exec (TxnClearObligation i) x = clear_obligation i x"
| "close_txn_exec (TxnIssue i g) x = snd (issue_cleanup_authority i g x)"
| "close_txn_exec (TxnBegin i g a) x = snd (begin_cleanup_attempt i g a x)"
| "close_txn_exec (TxnFinish i g a c) x = snd (finish_cleanup_attempt i g a c x)"

text \<open>An attempt number is in progress for an object.\<close>

definition attempt_active :: "object_close_txn \<Rightarrow> aidl_object_id \<times> u64 \<Rightarrow> bool" where
  "attempt_active x h \<longleftrightarrow> (\<exists>ob. ct_obligations x (fst h) = Some ob \<and> ob_active_attempt ob = Some (snd h))"

lemmas close_txn_ops = clear_obligation_def issue_cleanup_authority_def begin_cleanup_attempt_def finish_cleanup_attempt_def

lemma close_txn_clock: "unat (ct_next_attempt_id x) \<le> unat (ct_next_attempt_id (close_txn_exec c x))"
  by (cases c) (auto simp: close_txn_ops dest!: next_nonzero_id_Some split: option.split)

lemma close_txn_active:
  "attempt_active (close_txn_exec c x) h \<Longrightarrow>
   attempt_active x h \<or>
   (\<exists>g a. c = TxnBegin (fst h) g a) \<and> snd h = ct_next_attempt_id (close_txn_exec c x) \<and>
   unat (snd h) = unat (ct_next_attempt_id x) + 1"
  by (cases c; cases h)
    (auto simp: close_txn_ops attempt_active_def dest: next_nonzero_id_Some split: option.splits if_splits)

interpretation attempt_fence: fenced_handles close_txn_exec "\<lambda>x. unat (ct_next_attempt_id x)" "\<lambda>h. unat (snd h)"
  attempt_active
  using close_txn_clock close_txn_active by unfold_locales fastforce+

lemma attempt_current_active:
  "attempt_is_current i g a x \<Longrightarrow> attempt_active x (i, at_attempt_id a)"
  by (auto simp: attempt_is_current_def attempt_active_def split: option.splits)

lemma attempt_active_begin:
  "attempt_active x (i, n) \<Longrightarrow> fst (begin_cleanup_attempt i g a x) = Err InvalidAuthority"
  by (auto simp: attempt_active_def begin_cleanup_attempt_def)

lemma attempt_active_issue:
  "attempt_active x (i, n) \<Longrightarrow> fst (issue_cleanup_authority i g x) = Err InvalidAuthority"
  by (auto simp: attempt_active_def issue_cleanup_authority_def)

text \<open>Every attempt in progress has a number that was issued.\<close>

definition close_txn_inv :: "object_close_txn \<Rightarrow> bool" where
  "close_txn_inv x \<longleftrightarrow> (\<forall>h. attempt_active x h \<longrightarrow> unat (snd h) \<le> unat (ct_next_attempt_id x)) \<and>
     (\<forall>i j n. attempt_active x (i, n) \<longrightarrow> attempt_active x (j, n) \<longrightarrow> i = j)"

lemma close_txn_inv_exec:
  assumes "close_txn_inv x"
  shows "close_txn_inv (close_txn_exec c x)"
  unfolding close_txn_inv_def
proof (intro conjI allI impI)
  let ?y = "close_txn_exec c x"
  have old: "unat n \<le> unat (ct_next_attempt_id x)" if "attempt_active x (i, n)" for i n
    using assms that by (fastforce simp: close_txn_inv_def)
  fix h assume h: "attempt_active ?y h"
  show "unat (snd h) \<le> unat (ct_next_attempt_id ?y)"
    using close_txn_active [OF h] old [of "fst h" "snd h"] close_txn_clock [of x c] by auto
next
  let ?y = "close_txn_exec c x"
  have old: "unat n \<le> unat (ct_next_attempt_id x)" if "attempt_active x (i, n)" for i n
    using assms that by (fastforce simp: close_txn_inv_def)
  fix i j n assume ij: "attempt_active ?y (i, n)" "attempt_active ?y (j, n)"
  have uniq: "attempt_active x (i, n) \<Longrightarrow> attempt_active x (j, n) \<Longrightarrow> i = j"
    using assms by (auto simp: close_txn_inv_def)
  show "i = j"
    using close_txn_active [OF ij(1)] close_txn_active [OF ij(2)] old [of i n] old [of j n] uniq by auto
qed

lemma close_txn_inv_new [simp]: "close_txn_inv close_txn_new"
  by (simp add: close_txn_inv_def close_txn_new_def attempt_active_def)

lemma close_txn_inv_clear [simp]: "close_txn_inv (close_txn_clear x)"
  by (simp add: close_txn_inv_def close_txn_clear_def attempt_active_def)

end
