(* ===== verification/Object_Table.thy ===== *)
theory Object_Table
  imports Close_Txn
begin

section \<open>The table of runtime objects\<close>

text \<open>
  \<open>service_runtime/src/object_table.rs\<close> and the identifier counters of \<open>boot.rs\<close>: the objects the
  service has handed out, who owns whom, and the cascades that close or quarantine an object with
  everything below it. The entries are a \<open>BTreeMap\<close> that the code iterates, so they are an ordered
  map here.

  Two functions of the table recurse along ownership, up to the root and down to the leaves, and
  would not return on cyclic ownership. Their models take fuel; the operations give them one unit more
  than there are entries, and the value \<open>None\<close> stands for not returning. With this fuel \<open>None\<close> means a
  walk that visits more keys than there are entries, so the fuel is never short of what the code
  needs.
\<close>

subsection \<open>Entries\<close>

datatype runtime_owner_relation =
    OwnerRoot
  | OwnerFrontend aidl_object_id aidl_object_generation
  | OwnerDemux aidl_object_id aidl_object_generation
  | OwnerFilter aidl_object_id aidl_object_generation
  | OwnerDvr aidl_object_id aidl_object_generation
  | OwnerDescrambler aidl_object_id aidl_object_generation
  | OwnerLnb aidl_object_id aidl_object_generation

type_synonym object_key = "aidl_object_id \<times> aidl_object_generation"

fun referenced_object :: "runtime_owner_relation \<Rightarrow> (aidl_object_kind \<times> object_key) option" where
  "referenced_object OwnerRoot = None"
| "referenced_object (OwnerFrontend i g) = Some (KindFrontend, i, g)"
| "referenced_object (OwnerDemux i g) = Some (KindDemux, i, g)"
| "referenced_object (OwnerFilter i g) = Some (KindFilter, i, g)"
| "referenced_object (OwnerDvr i g) = Some (KindDvr, i, g)"
| "referenced_object (OwnerDescrambler i g) = Some (KindDescrambler, i, g)"
| "referenced_object (OwnerLnb i g) = Some (KindLnb, i, g)"

definition owns :: "runtime_owner_relation \<Rightarrow> aidl_object_id \<Rightarrow> aidl_object_generation \<Rightarrow> bool" where
  "owns r owner_id owner_generation =
     (case referenced_object r of
        None \<Rightarrow> False
      | Some (_, i, g) \<Rightarrow> i = owner_id \<and> g = owner_generation)"

datatype runtime_object_lifecycle =
    ObjPrepared | ObjLive | ObjClosing cleanup_step | ObjCleanupPending cleanup_step | ObjClosed | ObjQuarantined

fun obj_is_live :: "runtime_object_lifecycle \<Rightarrow> bool" where
  "obj_is_live ObjLive = True"
| "obj_is_live _ = False"

fun obj_is_terminal :: "runtime_object_lifecycle \<Rightarrow> bool" where
  "obj_is_terminal ObjClosed = True"
| "obj_is_terminal ObjQuarantined = True"
| "obj_is_terminal _ = False"

record runtime_object_entry =
  oe_kind :: aidl_object_kind
  oe_id :: aidl_object_id
  oe_generation :: aidl_object_generation
  oe_ledger_id :: ledger_id
  oe_ledger_generation :: ledger_generation
  oe_owner :: runtime_owner_relation
  oe_lifecycle :: runtime_object_lifecycle

datatype runtime_object_table_error =
    DuplicateObjectId aidl_object_id aidl_object_kind aidl_object_kind
  | DuplicateRuntimeBinding aidl_object_kind ledger_id
  | MissingObject aidl_object_id
  | ObjectKindMismatch aidl_object_id aidl_object_kind aidl_object_kind
  | ObjectGenerationMismatch aidl_object_id aidl_object_generation aidl_object_generation
  | InvalidOwner aidl_object_id runtime_owner_relation runtime_owner_relation
  | MissingOwner aidl_object_id aidl_object_id aidl_object_kind
  | OwnerGenerationMismatch aidl_object_id aidl_object_id aidl_object_generation aidl_object_generation
  | OwnerKindMismatch aidl_object_id aidl_object_id aidl_object_kind aidl_object_kind
  | OwnerNotLive aidl_object_id aidl_object_id runtime_object_lifecycle
  | InvalidLifecycle aidl_object_id runtime_object_lifecycle
  | UnsupportedObjectKind aidl_object_kind
  | ObjectGenerationOverflow
  | ObjectIdOverflow

type_synonym object_entries = "(aidl_object_id, runtime_object_entry) ordered_map"

record runtime_object_table =
  ot_entries :: object_entries
  ot_close_txn :: object_close_txn

definition object_table_default :: runtime_object_table where
  "object_table_default = \<lparr>ot_entries = [], ot_close_txn = close_txn_new\<rparr>"

subsection \<open>Lookups and walks along ownership\<close>

definition entry_checked_any ::
  "object_entries \<Rightarrow> object_key \<Rightarrow> runtime_object_table_error + runtime_object_entry" where
  "entry_checked_any es k =
     (case map_of es (fst k) of
        None \<Rightarrow> Err (MissingObject (fst k))
      | Some entry \<Rightarrow>
          if oe_generation entry \<noteq> snd k
          then Err (ObjectGenerationMismatch (fst k) (oe_generation entry) (snd k))
          else Ok entry)"

definition object_entry_checked ::
  "object_entries \<Rightarrow> object_key \<Rightarrow> runtime_object_table_error + runtime_object_entry" where
  "object_entry_checked es k =
     (case entry_checked_any es k of
        Err e \<Rightarrow> Err e
      | Ok entry \<Rightarrow>
          if \<not> obj_is_live (oe_lifecycle entry) then Err (InvalidLifecycle (fst k) (oe_lifecycle entry))
          else Ok entry)"

primrec ensure_owner_live_for ::
  "nat \<Rightarrow> object_entries \<Rightarrow> aidl_object_id \<Rightarrow> runtime_owner_relation \<Rightarrow> (runtime_object_table_error + unit) option" where
  "ensure_owner_live_for 0 es object_id owner = None"
| "ensure_owner_live_for (Suc n) es object_id owner =
     (case referenced_object owner of
        None \<Rightarrow> Some (Ok ())
      | Some (owner_kind, owner_id, owner_generation) \<Rightarrow>
          (case map_of es owner_id of
             None \<Rightarrow> Some (Err (MissingOwner object_id owner_id owner_kind))
           | Some owner_entry \<Rightarrow>
               if oe_kind owner_entry \<noteq> owner_kind
               then Some (Err (OwnerKindMismatch object_id owner_id owner_kind (oe_kind owner_entry)))
               else if oe_generation owner_entry \<noteq> owner_generation
               then Some (Err (OwnerGenerationMismatch object_id owner_id (oe_generation owner_entry) owner_generation))
               else if \<not> obj_is_live (oe_lifecycle owner_entry)
               then Some (Err (OwnerNotLive object_id owner_id (oe_lifecycle owner_entry)))
               else ensure_owner_live_for n es owner_id (oe_owner owner_entry)))"

definition direct_children :: "object_entries \<Rightarrow> object_key \<Rightarrow> object_key list" where
  "direct_children es k =
     map (\<lambda>entry. (oe_id entry, oe_generation entry))
       (filter (\<lambda>entry. owns (oe_owner entry) (fst k) (snd k)) (om_values es))"

primrec extend_each :: "(object_key \<Rightarrow> object_key list option) \<Rightarrow> object_key list \<Rightarrow> object_key list option" where
  "extend_each f [] = Some []"
| "extend_each f (child # rest) =
     (case f child of
        None \<Rightarrow> None
      | Some below \<Rightarrow> map_option (\<lambda>others. below @ child # others) (extend_each f rest))"

primrec keys_below :: "nat \<Rightarrow> object_entries \<Rightarrow> object_key \<Rightarrow> object_key list option" where
  "keys_below 0 es k = None"
| "keys_below (Suc n) es k = extend_each (keys_below n es) (direct_children es k)"

definition walk_fuel :: "object_entries \<Rightarrow> nat" where
  "walk_fuel es = Suc (length es)"

definition descendant_object_keys :: "object_entries \<Rightarrow> object_key \<Rightarrow> object_key list option" where
  "descendant_object_keys es k = keys_below (walk_fuel es) es k"

definition entry_for_kind ::
  "object_entries \<Rightarrow> object_key \<Rightarrow> aidl_object_kind \<Rightarrow>
   (runtime_object_table_error + runtime_object_entry) option" where
  "entry_for_kind es k expected_kind =
     (case object_entry_checked es k of
        Err e \<Rightarrow> Some (Err e)
      | Ok entry \<Rightarrow>
          if oe_kind entry \<noteq> expected_kind
          then Some (Err (ObjectKindMismatch (fst k) expected_kind (oe_kind entry)))
          else
            map_option (\<lambda>r. case r of Err e \<Rightarrow> Err e | Ok _ \<Rightarrow> Ok entry)
              (ensure_owner_live_for (walk_fuel es) es (fst k) (oe_owner entry)))"

definition live_entry_for_runtime ::
  "object_entries \<Rightarrow> aidl_object_kind \<Rightarrow> ledger_id \<Rightarrow> runtime_object_entry option" where
  "live_entry_for_runtime es kind i =
     List.find (\<lambda>entry. oe_kind entry = kind \<and> oe_ledger_id entry = i \<and> obj_is_live (oe_lifecycle entry))
       (om_values es)"

definition active_public_runtime_ids :: "object_entries \<Rightarrow> aidl_object_kind \<Rightarrow> ledger_id list" where
  "active_public_runtime_ids es kind =
     map oe_ledger_id (filter (\<lambda>entry. oe_kind entry = kind \<and> oe_lifecycle entry \<noteq> ObjClosed) (om_values es))"

subsection \<open>Operations\<close>

text \<open>An operation returns its reply and the table; \<open>None\<close> when a walk does not return.\<close>

type_synonym 'r object_result = "((runtime_object_table_error + 'r) \<times> runtime_object_table) option"

definition close_txn_error ::
  "aidl_object_id \<Rightarrow> runtime_object_lifecycle \<Rightarrow> object_close_txn_state_error \<Rightarrow> runtime_object_table_error" where
  "close_txn_error i lifecycle error =
     (case error of
        InvalidAuthority \<Rightarrow> InvalidLifecycle i lifecycle
      | IdentifierExhausted \<Rightarrow> ObjectGenerationOverflow)"

definition runtime_bound :: "object_entries \<Rightarrow> runtime_object_entry \<Rightarrow> bool" where
  "runtime_bound es entry \<longleftrightarrow>
     list_ex (\<lambda>existing. oe_kind existing = oe_kind entry \<and> oe_ledger_id existing = oe_ledger_id entry \<and>
       \<not> obj_is_terminal (oe_lifecycle existing)) (om_values es)"

definition nonterminal_at :: "object_entries \<Rightarrow> aidl_object_id \<Rightarrow> runtime_object_entry option" where
  "nonterminal_at es i =
     (case map_of es i of
        None \<Rightarrow> None
      | Some existing \<Rightarrow> if \<not> obj_is_terminal (oe_lifecycle existing) then Some existing else None)"

definition insert_with_lifecycle ::
  "runtime_object_entry \<Rightarrow> runtime_object_lifecycle \<Rightarrow> runtime_object_table \<Rightarrow> unit object_result" where
  "insert_with_lifecycle entry lifecycle t =
     (case nonterminal_at (ot_entries t) (oe_id entry) of
        Some existing \<Rightarrow> Some (Err (DuplicateObjectId (oe_id entry) (oe_kind existing) (oe_kind entry)), t)
      | None \<Rightarrow>
          if runtime_bound (ot_entries t) entry
          then Some (Err (DuplicateRuntimeBinding (oe_kind entry) (oe_ledger_id entry)), t)
          else
            (case ensure_owner_live_for (walk_fuel (ot_entries t)) (ot_entries t) (oe_id entry) (oe_owner entry) of
               None \<Rightarrow> None
             | Some (Err e) \<Rightarrow> Some (Err e, t)
             | Some (Ok _) \<Rightarrow>
                 Some (Ok (), t\<lparr>ot_close_txn := clear_obligation (oe_id entry) (ot_close_txn t),
                   ot_entries := om_insert (oe_id entry) (entry\<lparr>oe_lifecycle := lifecycle\<rparr>) (ot_entries t)\<rparr>)))"

definition object_insert :: "runtime_object_entry \<Rightarrow> runtime_object_table \<Rightarrow> unit object_result" where
  "object_insert entry t = insert_with_lifecycle entry ObjLive t"

definition insert_prepared :: "runtime_object_entry \<Rightarrow> runtime_object_table \<Rightarrow> unit object_result" where
  "insert_prepared entry t = insert_with_lifecycle entry ObjPrepared t"

definition store_entry :: "runtime_object_entry \<Rightarrow> runtime_object_table \<Rightarrow> runtime_object_table" where
  "store_entry entry t = t\<lparr>ot_entries := om_insert (oe_id entry) entry (ot_entries t)\<rparr>"

definition commit_prepared ::
  "object_key \<Rightarrow> runtime_object_table \<Rightarrow> (runtime_object_table_error + runtime_object_entry) \<times> runtime_object_table" where
  "commit_prepared k t =
     (case entry_checked_any (ot_entries t) k of
        Err e \<Rightarrow> (Err e, t)
      | Ok entry \<Rightarrow>
          if oe_lifecycle entry \<noteq> ObjPrepared then (Err (InvalidLifecycle (fst k) (oe_lifecycle entry)), t)
          else let entry' = entry\<lparr>oe_lifecycle := ObjLive\<rparr> in (Ok entry', store_entry entry' t))"

definition object_remove ::
  "object_key \<Rightarrow> runtime_object_table \<Rightarrow> (runtime_object_table_error + runtime_object_entry) \<times> runtime_object_table" where
  "object_remove k t =
     (case object_entry_checked (ot_entries t) k of
        Err e \<Rightarrow> (Err e, t)
      | Ok entry \<Rightarrow>
          (Ok entry, t\<lparr>ot_close_txn := clear_obligation (fst k) (ot_close_txn t),
             ot_entries := om_remove (fst k) (ot_entries t)\<rparr>))"

text \<open>
  The loop that the cascades share: for each target, the life cycles the cascade moves on, the
  terminal ones it skips below the root, and the others that make it fail before any change.
\<close>

primrec cascade_loop ::
  "(runtime_object_lifecycle \<Rightarrow> runtime_object_lifecycle option) \<Rightarrow> object_entries \<Rightarrow> object_key \<Rightarrow> object_key list \<Rightarrow>
   runtime_object_table_error + runtime_object_entry list" where
  "cascade_loop move es root [] = Ok []"
| "cascade_loop move es root (target # targets) =
     (case entry_checked_any es target of
        Err e \<Rightarrow> Err e
      | Ok entry \<Rightarrow>
          (case move (oe_lifecycle entry) of
             Some lifecycle \<Rightarrow>
               map_sum id (\<lambda>changed. entry\<lparr>oe_lifecycle := lifecycle\<rparr> # changed) (cascade_loop move es root targets)
           | None \<Rightarrow>
               if obj_is_terminal (oe_lifecycle entry) \<and> target \<noteq> root then cascade_loop move es root targets
               else Err (InvalidLifecycle (fst target) (oe_lifecycle entry))))"

definition cascade_entries ::
  "(runtime_object_lifecycle \<Rightarrow> runtime_object_lifecycle option) \<Rightarrow> object_entries \<Rightarrow> object_key \<Rightarrow>
   (runtime_object_table_error + runtime_object_entry list) option" where
  "cascade_entries move es root =
     map_option (\<lambda>below. cascade_loop move es root (below @ [root])) (descendant_object_keys es root)"

definition insert_all :: "runtime_object_entry list \<Rightarrow> object_entries \<Rightarrow> object_entries" where
  "insert_all changed es = fold (\<lambda>entry. om_insert (oe_id entry) entry) changed es"

fun move_to_closing :: "cleanup_step \<Rightarrow> runtime_object_lifecycle \<Rightarrow> runtime_object_lifecycle option" where
  "move_to_closing step ObjLive = Some (ObjClosing step)"
| "move_to_closing step (ObjClosing _) = Some (ObjClosing step)"
| "move_to_closing step (ObjCleanupPending _) = Some (ObjClosing step)"
| "move_to_closing step _ = None"

fun move_closing :: "(runtime_object_lifecycle \<Rightarrow> runtime_object_lifecycle) \<Rightarrow> runtime_object_lifecycle \<Rightarrow> runtime_object_lifecycle option" where
  "move_closing f (ObjClosing step) = Some (f (ObjClosing step))"
| "move_closing f (ObjCleanupPending step) = Some (f (ObjCleanupPending step))"
| "move_closing f _ = None"

definition begin_close_cascade_with_cleanup_authority ::
  "object_key \<Rightarrow> cleanup_step \<Rightarrow> runtime_object_table \<Rightarrow>
   (runtime_object_entry list \<times> close_cleanup_authority_key) object_result" where
  "begin_close_cascade_with_cleanup_authority k step t =
     (case entry_checked_any (ot_entries t) k of
        Err e \<Rightarrow> Some (Err e, t)
      | Ok root \<Rightarrow>
          if move_to_closing step (oe_lifecycle root) = None
          then Some (Err (InvalidLifecycle (fst k) (oe_lifecycle root)), t)
          else
            (case cascade_entries (move_to_closing step) (ot_entries t) k of
               None \<Rightarrow> None
             | Some (Err e) \<Rightarrow> Some (Err e, t)
             | Some (Ok changed) \<Rightarrow>
                 (case issue_cleanup_authority (fst k) (snd k) (ot_close_txn t) of
                    (Err e, x) \<Rightarrow>
                      Some (Err (close_txn_error (fst k) (oe_lifecycle root) e), t\<lparr>ot_close_txn := x\<rparr>)
                  | (Ok authority, x) \<Rightarrow>
                      Some (Ok (changed, authority),
                        t\<lparr>ot_close_txn := x, ot_entries := insert_all changed (ot_entries t)\<rparr>))))"

definition begin_close_cleanup_attempt ::
  "object_key \<Rightarrow> close_cleanup_authority_key \<Rightarrow> runtime_object_table \<Rightarrow>
   (runtime_object_table_error + close_cleanup_attempt_key) \<times> runtime_object_table" where
  "begin_close_cleanup_attempt k authority t =
     (case entry_checked_any (ot_entries t) k of
        Err e \<Rightarrow> (Err e, t)
      | Ok entry \<Rightarrow>
          if move_closing id (oe_lifecycle entry) = None
          then (Err (InvalidLifecycle (fst k) (oe_lifecycle entry)), t)
          else
            (case begin_cleanup_attempt (fst k) (snd k) authority (ot_close_txn t) of
               (Err e, x) \<Rightarrow> (Err (close_txn_error (fst k) (oe_lifecycle entry) e), t\<lparr>ot_close_txn := x\<rparr>)
             | (Ok attempt, x) \<Rightarrow> (Ok attempt, t\<lparr>ot_close_txn := x\<rparr>)))"

definition ensure_root_ready_for_close_finalization ::
  "object_entries \<Rightarrow> object_key \<Rightarrow> runtime_object_table_error + unit" where
  "ensure_root_ready_for_close_finalization es k =
     (case entry_checked_any es k of
        Err e \<Rightarrow> Err e
      | Ok root \<Rightarrow>
          if move_closing id (oe_lifecycle root) = None then Err (InvalidLifecycle (fst k) (oe_lifecycle root))
          else Ok ())"

definition close_cascade_entries ::
  "object_key \<Rightarrow> runtime_object_table \<Rightarrow> (runtime_object_table_error + runtime_object_entry list) option" where
  "close_cascade_entries k t =
     (case ensure_root_ready_for_close_finalization (ot_entries t) k of
        Err e \<Rightarrow> Some (Err e)
      | Ok _ \<Rightarrow> cascade_entries (move_closing id) (ot_entries t) k)"

definition finalize_cascade ::
  "(runtime_object_lifecycle \<Rightarrow> runtime_object_lifecycle) \<Rightarrow> object_key \<Rightarrow> runtime_object_table \<Rightarrow>
   runtime_object_entry list object_result" where
  "finalize_cascade f k t =
     (case ensure_root_ready_for_close_finalization (ot_entries t) k of
        Err e \<Rightarrow> Some (Err e, t)
      | Ok _ \<Rightarrow>
          (case cascade_entries (move_closing f) (ot_entries t) k of
             None \<Rightarrow> None
           | Some (Err e) \<Rightarrow> Some (Err e, t)
           | Some (Ok changed) \<Rightarrow> Some (Ok changed, t\<lparr>ot_entries := insert_all changed (ot_entries t)\<rparr>)))"

definition mark_cleanup_failed_cascade ::
  "object_key \<Rightarrow> cleanup_step \<Rightarrow> runtime_object_table \<Rightarrow> runtime_object_entry list object_result" where
  "mark_cleanup_failed_cascade k step = finalize_cascade (\<lambda>_. ObjCleanupPending step) k"

definition commit_close_cascade :: "object_key \<Rightarrow> runtime_object_table \<Rightarrow> runtime_object_entry list object_result" where
  "commit_close_cascade k = finalize_cascade (\<lambda>_. ObjClosed) k"

definition finish_close_cleanup_attempt ::
  "object_key \<Rightarrow> close_cleanup_attempt_key \<Rightarrow> close_cleanup_attempt_outcome \<Rightarrow> runtime_object_table \<Rightarrow>
   runtime_object_entry list object_result" where
  "finish_close_cleanup_attempt k attempt outcome t =
     (case entry_checked_any (ot_entries t) k of
        Err e \<Rightarrow> Some (Err e, t)
      | Ok entry \<Rightarrow>
          if \<not> attempt_is_current (fst k) (snd k) attempt (ot_close_txn t)
          then Some (Err (InvalidLifecycle (fst k) (oe_lifecycle entry)), t)
          else
            (case (case outcome of
                     AttemptComplete \<Rightarrow> commit_close_cascade k t
                   | AttemptPending step \<Rightarrow> mark_cleanup_failed_cascade k step t) of
               None \<Rightarrow> None
             | Some (Err e, t') \<Rightarrow> Some (Err e, t')
             | Some (Ok changed, t') \<Rightarrow>
                 (case finish_cleanup_attempt (fst k) (snd k) attempt (outcome = AttemptComplete) (ot_close_txn t') of
                    (Err e, x) \<Rightarrow>
                      Some (Err (close_txn_error (fst k) (oe_lifecycle entry) e), t'\<lparr>ot_close_txn := x\<rparr>)
                  | (Ok _, x) \<Rightarrow> Some (Ok changed, t'\<lparr>ot_close_txn := x\<rparr>))))"

definition quarantine_one_if_live_or_nonterminal ::
  "object_key \<Rightarrow> runtime_object_table \<Rightarrow>
   (runtime_object_table_error + runtime_object_entry option) \<times> runtime_object_table" where
  "quarantine_one_if_live_or_nonterminal k t =
     (case entry_checked_any (ot_entries t) k of
        Err e \<Rightarrow> (Err e, t)
      | Ok entry \<Rightarrow>
          if obj_is_terminal (oe_lifecycle entry) then (Ok None, t)
          else let entry' = entry\<lparr>oe_lifecycle := ObjQuarantined\<rparr> in (Ok (Some entry'), store_entry entry' t))"

primrec quarantine_loop ::
  "object_key list \<Rightarrow> runtime_object_table \<Rightarrow>
   (runtime_object_table_error + runtime_object_entry list) \<times> runtime_object_table" where
  "quarantine_loop [] t = (Ok [], t)"
| "quarantine_loop (target # targets) t =
     (case quarantine_one_if_live_or_nonterminal target t of
        (Err e, t') \<Rightarrow> (Err e, t')
      | (Ok changed, t') \<Rightarrow>
          (case quarantine_loop targets t' of
             (Err e, t'') \<Rightarrow> (Err e, t'')
           | (Ok others, t'') \<Rightarrow>
               (Ok (case changed of None \<Rightarrow> others | Some entry \<Rightarrow> entry # others), t'')))"

definition quarantine_cascade :: "object_key \<Rightarrow> runtime_object_table \<Rightarrow> runtime_object_entry list object_result" where
  "quarantine_cascade k t =
     (case entry_checked_any (ot_entries t) k of
        Err e \<Rightarrow> Some (Err e, t)
      | Ok _ \<Rightarrow>
          map_option (\<lambda>below. quarantine_loop (below @ [k]) t) (descendant_object_keys (ot_entries t) k))"

definition object_table_clear :: "runtime_object_table \<Rightarrow> runtime_object_table" where
  "object_table_clear t = t\<lparr>ot_entries := [], ot_close_txn := close_txn_clear (ot_close_txn t)\<rparr>"

subsection \<open>Registration with fresh identifiers\<close>

record object_registry =
  or_table :: runtime_object_table
  or_next_generation :: u64
  or_next_object_id :: i64

definition object_registry_new :: object_registry where
  "object_registry_new = \<lparr>or_table = object_table_default, or_next_generation = 0, or_next_object_id = 0\<rparr>"

definition allocate_aidl_generation ::
  "object_registry \<Rightarrow> (runtime_object_table_error + aidl_object_generation) \<times> object_registry" where
  "allocate_aidl_generation r =
     (case checked_add_u64 (or_next_generation r) 1 of
        None \<Rightarrow> (Err ObjectGenerationOverflow, r)
      | Some next \<Rightarrow> (Ok (AidlObjectGeneration next), r\<lparr>or_next_generation := next\<rparr>))"

text \<open>\<open>i64::checked_add(1)\<close> fails on the largest number; the filter keeps positive results.\<close>

definition allocate_aidl_object_id ::
  "object_registry \<Rightarrow> (runtime_object_table_error + aidl_object_id) \<times> object_registry" where
  "allocate_aidl_object_id r =
     (if sint (or_next_object_id r) + 1 < 2 ^ 63 \<and> 0 < sint (or_next_object_id r) + 1
      then (Ok (AidlObjectId (or_next_object_id r + 1)), r\<lparr>or_next_object_id := or_next_object_id r + 1\<rparr>)
      else (Err ObjectIdOverflow, r))"

definition register_entry ::
  "aidl_object_kind \<Rightarrow> aidl_object_id \<Rightarrow> aidl_object_generation \<Rightarrow> i64 \<Rightarrow> runtime_owner_relation \<Rightarrow>
   runtime_object_lifecycle \<Rightarrow> runtime_object_entry" where
  "register_entry kind i g runtime_id owner lc =
     \<lparr>oe_kind = kind, oe_id = i, oe_generation = g, oe_ledger_id = LedgerId runtime_id,
      oe_ledger_generation = LedgerGeneration (object_generation_raw g), oe_owner = owner, oe_lifecycle = lc\<rparr>"

definition register_aidl_object_for_runtime ::
  "aidl_object_kind \<Rightarrow> aidl_object_id \<Rightarrow> aidl_object_generation \<Rightarrow> i64 \<Rightarrow> runtime_owner_relation \<Rightarrow>
   object_registry \<Rightarrow> ((runtime_object_table_error + runtime_object_entry) \<times> object_registry) option" where
  "register_aidl_object_for_runtime kind i g runtime_id owner r =
     (let entry = register_entry kind i g runtime_id owner ObjLive in
      map_option (\<lambda>(reply, t). (map_sum id (\<lambda>_. entry) reply, r\<lparr>or_table := t\<rparr>)) (object_insert entry (or_table r)))"

definition register_aidl_object_for_runtime_auto_generation ::
  "aidl_object_kind \<Rightarrow> i64 \<Rightarrow> runtime_owner_relation \<Rightarrow>
   object_registry \<Rightarrow> ((runtime_object_table_error + runtime_object_entry) \<times> object_registry) option" where
  "register_aidl_object_for_runtime_auto_generation kind runtime_id owner r =
     (case allocate_aidl_object_id r of
        (Err e, r') \<Rightarrow> Some (Err e, r')
      | (Ok i, r') \<Rightarrow>
          (case allocate_aidl_generation r' of
             (Err e, r'') \<Rightarrow> Some (Err e, r'')
           | (Ok g, r'') \<Rightarrow> register_aidl_object_for_runtime kind i g runtime_id owner r''))"

definition register_prepared_aidl_object_for_runtime_auto_generation ::
  "aidl_object_kind \<Rightarrow> i64 \<Rightarrow> runtime_owner_relation \<Rightarrow>
   object_registry \<Rightarrow> ((runtime_object_table_error + runtime_object_entry) \<times> object_registry) option" where
  "register_prepared_aidl_object_for_runtime_auto_generation kind runtime_id owner r =
     (case allocate_aidl_generation r of
        (Err e, r') \<Rightarrow> Some (Err e, r')
      | (Ok g, r') \<Rightarrow>
          (case allocate_aidl_object_id r' of
             (Err e, r'') \<Rightarrow> Some (Err e, r'')
           | (Ok i, r'') \<Rightarrow>
               (let entry = register_entry kind i g runtime_id owner ObjPrepared in
                map_option (\<lambda>(reply, t). (map_sum id (\<lambda>_. entry) reply, r''\<lparr>or_table := t\<rparr>))
                  (insert_prepared entry (or_table r'')))))"

definition commit_prepared_child_object ::
  "object_key \<Rightarrow> object_registry \<Rightarrow> (runtime_object_table_error + runtime_object_entry) \<times> object_registry" where
  "commit_prepared_child_object k r =
     (case commit_prepared k (or_table r) of (reply, t) \<Rightarrow> (reply, r\<lparr>or_table := t\<rparr>))"

definition unregister_aidl_object_after_registration_failure ::
  "object_key \<Rightarrow> object_registry \<Rightarrow> (runtime_object_table_error + runtime_object_entry) \<times> object_registry" where
  "unregister_aidl_object_after_registration_failure k r =
     (case object_remove k (or_table r) of (reply, t) \<Rightarrow> (reply, r\<lparr>or_table := t\<rparr>))"

end
