(* ===== verification/Object_Invariant.thy ===== *)
theory Object_Invariant
  imports Object_Table
begin

section \<open>Correctness of the object table\<close>

text \<open>
  Ownership stays acyclic under every operation, so the recursive walks of the table return; the
  cascades reach exactly the objects below their root; cleanup attempts are exclusive.
\<close>

subsection \<open>Ownership as a relation\<close>

definition owner_key :: "runtime_owner_relation \<Rightarrow> object_key option" where
  "owner_key r = map_option snd (referenced_object r)"

definition has_key :: "object_entries \<Rightarrow> object_key \<Rightarrow> bool" where
  "has_key es k \<longleftrightarrow> (\<exists>e. map_of es (fst k) = Some e \<and> oe_generation e = snd k)"

definition owned :: "object_entries \<Rightarrow> (object_key \<times> object_key) set" where
  "owned es = {(p, c). \<exists>e. map_of es (fst c) = Some e \<and> oe_generation e = snd c \<and> owner_key (oe_owner e) = Some p}"

definition entries_wf :: "object_entries \<Rightarrow> bool" where
  "entries_wf es \<longleftrightarrow> om_wf es \<and> (\<forall>i e. map_of es i = Some e \<longrightarrow> oe_id e = i)"

lemma owns_owner_key: "owns r i g \<longleftrightarrow> owner_key r = Some (i, g)"
  by (auto simp: owns_def owner_key_def split: option.splits)

lemma direct_children_owned:
  assumes "entries_wf es"
  shows "c \<in> set (direct_children es k) \<longleftrightarrow> (k, c) \<in> owned es"
proof -
  have wf: "om_wf es" and ids: "\<And>i e. map_of es i = Some e \<Longrightarrow> oe_id e = i"
    using assms by (auto simp: entries_wf_def)
  have "c \<in> set (direct_children es k) \<longleftrightarrow>
      (\<exists>e \<in> set (om_values es). owner_key (oe_owner e) = Some k \<and> c = (oe_id e, oe_generation e))"
    by (auto simp: direct_children_def owns_owner_key)
  also have "\<dots> \<longleftrightarrow> (k, c) \<in> owned es"
    unfolding Bex_def om_values_iff [OF wf] owned_def by (cases c) (auto dest: ids)
  finally show ?thesis .
qed

lemma owned_child_has_key: "(p, c) \<in> owned es \<Longrightarrow> has_key es c"
  by (auto simp: owned_def has_key_def)

lemma owned_parent_unique: "(p, c) \<in> owned es \<Longrightarrow> (q, c) \<in> owned es \<Longrightarrow> p = q"
  by (auto simp: owned_def)

lemma card_keys:
  assumes "entries_wf es"
  shows "finite {k. has_key es k}" and "card {k. has_key es k} \<le> length es"
proof -
  have sub: "{k. has_key es k} \<subseteq> set (map (\<lambda>(i, e). (i, oe_generation e)) es)"
  proof
    fix k assume "k \<in> {k. has_key es k}"
    then obtain e where "map_of es (fst k) = Some e" "oe_generation e = snd k" by (auto simp: has_key_def)
    then have "(fst k, e) \<in> set es" by (auto dest: map_of_SomeD)
    then show "k \<in> set (map (\<lambda>(i, e). (i, oe_generation e)) es)"
      using \<open>oe_generation e = snd k\<close> by (cases k) (force simp: image_iff)
  qed
  then show "finite {k. has_key es k}" by (rule finite_subset) simp
  have "card {k. has_key es k} \<le> card (set (map (\<lambda>(i, e). (i, oe_generation e)) es))"
    by (rule card_mono [OF _ sub]) simp
  also have "\<dots> \<le> length es" using card_length [of "map (\<lambda>(i, e). (i, oe_generation e)) es"] by simp
  finally show "card {k. has_key es k} \<le> length es" .
qed

text \<open>A path along an acyclic relation does not visit a key twice, so it is no longer than the table.\<close>

lemma acyclic_path_distinct:
  assumes "acyclic r" and "successively (\<lambda>a b. (a, b) \<in> r) xs"
  shows "distinct xs"
proof -
  have "successively (\<lambda>a b. (a, b) \<in> r\<^sup>+) xs"
    by (rule successively_mono [OF assms(2)]) auto
  then have "sorted_wrt (\<lambda>a b. (a, b) \<in> r\<^sup>+) xs"
    by (subst (asm) successively_conv_sorted_wrt) (auto intro: transpI)
  then show ?thesis using assms(1)
    by (induction xs) (auto simp: acyclic_def)
qed

lemma path_length:
  assumes "entries_wf es" and "acyclic (owned es)" and "set ks \<subseteq> {k. has_key es k}"
    and "successively (\<lambda>a b. (a, b) \<in> owned es) ks"
  shows "length ks \<le> length es"
  using distinct_card [OF acyclic_path_distinct [OF assms(2,4)]]
    card_mono [OF card_keys(1) [OF assms(1)] assms(3)] card_keys(2) [OF assms(1)] by simp

subsection \<open>The walks return\<close>

lemma extend_each_None: "extend_each f cs = None \<Longrightarrow> \<exists>c \<in> set cs. f c = None"
  by (induction cs) (auto split: option.splits)

lemma extend_each_Some:
  "extend_each f cs = Some ks \<Longrightarrow> (\<forall>c \<in> set cs. f c \<noteq> None) \<and> set ks = set cs \<union> (\<Union>c \<in> set cs. set (the (f c)))"
  by (induction cs arbitrary: ks) (auto split: option.splits)

lemma keys_below_None:
  assumes "entries_wf es"
  shows "keys_below n es k = None \<Longrightarrow>
    \<exists>ks. length ks = n \<and> successively (\<lambda>a b. (a, b) \<in> owned es) (k # ks) \<and> set ks \<subseteq> {k. has_key es k}"
proof (induction n arbitrary: k)
  case (Suc n)
  obtain c where c: "c \<in> set (direct_children es k)" "keys_below n es c = None"
    using extend_each_None [of "keys_below n es" "direct_children es k"] Suc.prems by auto
  then have kc: "(k, c) \<in> owned es" by (simp add: direct_children_owned [OF assms])
  obtain ks where "length ks = n" "successively (\<lambda>a b. (a, b) \<in> owned es) (c # ks)" "set ks \<subseteq> {k. has_key es k}"
    using Suc.IH [OF c(2)] by blast
  then show ?case
    using kc owned_child_has_key [OF kc] by (intro exI [of _ "c # ks"]) simp
qed simp

lemma descendants_return:
  assumes "entries_wf es" and "acyclic (owned es)"
  shows "descendant_object_keys es k \<noteq> None"
proof
  assume "descendant_object_keys es k = None"
  then have "keys_below (Suc (length es)) es k = None" unfolding descendant_object_keys_def walk_fuel_def .
  from keys_below_None [OF assms(1) this]
  obtain ks where ks: "length ks = Suc (length es)" "successively (\<lambda>a b. (a, b) \<in> owned es) (k # ks)"
    "set ks \<subseteq> {k. has_key es k}" by blast
  then have "successively (\<lambda>a b. (a, b) \<in> owned es) ks" by (cases ks) auto
  from path_length [OF assms ks(3) this] ks(1) show False by simp
qed

lemma trancl_first_step: "(a, d) \<in> r\<^sup>+ \<longleftrightarrow> (\<exists>c. (a, c) \<in> r \<and> (c = d \<or> (c, d) \<in> r\<^sup>+))"
  by (blast elim: converse_tranclE intro: trancl_into_trancl2)

lemma keys_below_set:
  assumes "entries_wf es"
  shows "keys_below n es k = Some ks \<Longrightarrow> set ks = {c. (k, c) \<in> (owned es)\<^sup>+}"
proof (induction n arbitrary: k ks)
  case (Suc n)
  let ?r = "owned es"
  have each: "extend_each (keys_below n es) (direct_children es k) = Some ks" using Suc.prems by simp
  have kids: "set (direct_children es k) = {c. (k, c) \<in> ?r}" using direct_children_owned [OF assms] by blast
  have below: "set (the (keys_below n es c)) = {d. (c, d) \<in> ?r\<^sup>+}" if "(k, c) \<in> ?r" for c
  proof -
    have "keys_below n es c \<noteq> None" using extend_each_Some [OF each] that kids by blast
    then obtain below where "keys_below n es c = Some below" by blast
    with Suc.IH [OF this] show ?thesis by simp
  qed
  have "set ks = {c. (k, c) \<in> ?r} \<union> (\<Union>c \<in> {c. (k, c) \<in> ?r}. {d. (c, d) \<in> ?r\<^sup>+})"
    using extend_each_Some [OF each] below kids by auto
  also have "\<dots> = {c. (k, c) \<in> ?r\<^sup>+}"
    using trancl_first_step [of k _ ?r] by blast
  finally show ?case .
qed simp

lemma descendants_set:
  "entries_wf es \<Longrightarrow> descendant_object_keys es k = Some ks \<Longrightarrow> set ks = {c. (k, c) \<in> (owned es)\<^sup>+}"
  unfolding descendant_object_keys_def by (rule keys_below_set)

lemma owner_walk_None:
  "ensure_owner_live_for n es i owner = None \<Longrightarrow>
   \<exists>ks. length ks = n \<and> (ks \<noteq> [] \<longrightarrow> owner_key owner = Some (hd ks)) \<and>
     successively (\<lambda>a b. (b, a) \<in> owned es) ks \<and> set ks \<subseteq> {k. has_key es k}"
proof (induction n arbitrary: i owner)
  case (Suc n)
  obtain kind oi og e where ref: "referenced_object owner = Some (kind, oi, og)" and e: "map_of es oi = Some e"
    "oe_generation e = og" and rec: "ensure_owner_live_for n es oi (oe_owner e) = None"
    using Suc.prems by (auto split: option.splits if_splits)
  obtain ks where ks: "length ks = n" "ks \<noteq> [] \<longrightarrow> owner_key (oe_owner e) = Some (hd ks)"
    "successively (\<lambda>a b. (b, a) \<in> owned es) ks" "set ks \<subseteq> {k. has_key es k}"
    using Suc.IH [OF rec] by blast
  have "has_key es (oi, og)" using e by (simp add: has_key_def)
  moreover have "ks \<noteq> [] \<Longrightarrow> (hd ks, (oi, og)) \<in> owned es" using ks(2) e by (auto simp: owned_def)
  ultimately show ?case using ref ks by (intro exI [of _ "(oi, og) # ks"]) (auto simp: owner_key_def successively_Cons)
qed simp

lemma owner_walk_returns:
  assumes "entries_wf es" and "acyclic (owned es)"
  shows "ensure_owner_live_for (walk_fuel es) es i owner \<noteq> None"
proof
  assume "ensure_owner_live_for (walk_fuel es) es i owner = None"
  from owner_walk_None [OF this]
  obtain ks where ks: "length ks = Suc (length es)" "successively (\<lambda>a b. (b, a) \<in> owned es) ks"
    "set ks \<subseteq> {k. has_key es k}" unfolding walk_fuel_def by blast
  have "successively (\<lambda>a b. (a, b) \<in> owned es) (rev ks)" using ks(2) by (simp add: successively_rev)
  from path_length [OF assms _ this] ks show False by simp
qed

subsection \<open>Operations that only move life cycles\<close>

definition obj_state :: "object_entries \<Rightarrow> object_key \<Rightarrow> runtime_object_lifecycle option" where
  "obj_state es k =
     (case map_of es (fst k) of
        None \<Rightarrow> None
      | Some e \<Rightarrow> if oe_generation e = snd k then Some (oe_lifecycle e) else None)"

definition relife ::
  "(object_key \<Rightarrow> runtime_object_lifecycle \<Rightarrow> runtime_object_lifecycle) \<Rightarrow> object_entries \<Rightarrow> object_entries \<Rightarrow> bool" where
  "relife f es es' \<longleftrightarrow> om_wf es' \<and>
     (\<forall>i. map_of es' i = map_option (\<lambda>e. e\<lparr>oe_lifecycle := f (i, oe_generation e) (oe_lifecycle e)\<rparr>) (map_of es i))"

lemma has_key_state: "has_key es k \<longleftrightarrow> obj_state es k \<noteq> None"
  by (auto simp: has_key_def obj_state_def split: option.splits)

lemma relife_owned: "relife f es es' \<Longrightarrow> owned es' = owned es"
  by (fastforce simp: relife_def owned_def)

lemma relife_state: "relife f es es' \<Longrightarrow> obj_state es' k = map_option (f k) (obj_state es k)"
  by (cases k) (auto simp: relife_def obj_state_def split: option.splits)

lemma relife_wf: "entries_wf es \<Longrightarrow> relife f es es' \<Longrightarrow> entries_wf es'"
  by (auto simp: relife_def entries_wf_def)

lemma relife_refl: "entries_wf es \<Longrightarrow> relife (\<lambda>_ l. l) es es"
  by (auto simp: relife_def entries_wf_def option.map_ident)

lemma relife_cong:
  assumes "relife f es es'" and "\<And>k l. obj_state es k = Some l \<Longrightarrow> f k l = g k l"
  shows "relife g es es'"
  unfolding relife_def
proof (intro conjI allI)
  fix i
  show "map_of es' i = map_option (\<lambda>e. e\<lparr>oe_lifecycle := g (i, oe_generation e) (oe_lifecycle e)\<rparr>) (map_of es i)"
  proof (cases "map_of es i")
    case (Some e)
    then have "obj_state es (i, oe_generation e) = Some (oe_lifecycle e)" by (simp add: obj_state_def)
    from assms(2) [OF this] assms(1) Some show ?thesis by (simp add: relife_def)
  qed (use assms(1) in \<open>simp add: relife_def\<close>)
qed (use assms(1) in \<open>simp add: relife_def\<close>)

lemma entry_checked_any_Ok:
  "entry_checked_any es k = Ok e \<longleftrightarrow> map_of es (fst k) = Some e \<and> oe_generation e = snd k"
  by (auto simp: entry_checked_any_def split: option.splits)

lemma entry_checked_any_has_key: "has_key es k \<longleftrightarrow> (\<exists>e. entry_checked_any es k = Ok e)"
  by (simp add: has_key_def entry_checked_any_Ok)

lemma insert_all_other: "\<forall>c \<in> set cs. oe_id c \<noteq> i \<Longrightarrow> map_of (insert_all cs es) i = map_of es i"
  by (induction cs arbitrary: es) (auto simp: insert_all_def)

lemma insert_all_at:
  "\<lbrakk>c \<in> set cs; oe_id c = i; \<forall>c \<in> set cs. oe_id c = i \<longrightarrow> c = v\<rbrakk> \<Longrightarrow> map_of (insert_all cs es) i = Some v"
proof (induction cs arbitrary: c es)
  case (Cons a cs)
  have step: "map_of (insert_all (a # cs) es) i = map_of (insert_all cs (om_insert (oe_id a) a es)) i"
    by (simp add: insert_all_def)
  show ?case
  proof (cases "\<exists>d \<in> set cs. oe_id d = i")
    case True
    then show ?thesis unfolding step using Cons.IH Cons.prems(3) by auto
  next
    case False
    then show ?thesis unfolding step using insert_all_other [of cs i] Cons.prems by auto
  qed
qed simp

lemma om_wf_insert_all: "om_wf es \<Longrightarrow> om_wf (insert_all cs es)"
  by (induction cs arbitrary: es) (simp_all add: insert_all_def)

lemma cascade_loop_Ok:
  "cascade_loop move es root ks = Ok changed \<Longrightarrow>
   (\<forall>k \<in> set ks. \<exists>e. entry_checked_any es k = Ok e \<and>
      (move (oe_lifecycle e) = None \<longrightarrow> obj_is_terminal (oe_lifecycle e) \<and> k \<noteq> root)) \<and>
   (\<forall>c. c \<in> set changed \<longleftrightarrow> (\<exists>k \<in> set ks. \<exists>e l. entry_checked_any es k = Ok e \<and> move (oe_lifecycle e) = Some l \<and>
      c = e\<lparr>oe_lifecycle := l\<rparr>))"
proof (induction ks arbitrary: changed)
  case (Cons k ks)
  obtain e where e: "entry_checked_any es k = Ok e" using Cons.prems by (cases "entry_checked_any es k") auto
  show ?case
  proof (cases "move (oe_lifecycle e)")
    case None
    with Cons.prems e have "cascade_loop move es root ks = Ok changed" "obj_is_terminal (oe_lifecycle e)" "k \<noteq> root"
      by (auto split: if_splits)
    with Cons.IH [OF this(1)] None e show ?thesis by auto
  next
    case (Some l)
    with Cons.prems e obtain others where o: "cascade_loop move es root ks = Ok others"
      "changed = e\<lparr>oe_lifecycle := l\<rparr> # others"
      by (cases "cascade_loop move es root ks") auto
    with Cons.IH [OF o(1)] Some e show ?thesis by auto
  qed
qed simp

definition moved :: "(runtime_object_lifecycle \<Rightarrow> runtime_object_lifecycle option) \<Rightarrow> object_key set \<Rightarrow>
  object_key \<Rightarrow> runtime_object_lifecycle \<Rightarrow> runtime_object_lifecycle" where
  "moved move K k l = (if k \<in> K then case move l of Some l' \<Rightarrow> l' | None \<Rightarrow> l else l)"

lemma cascade_changed:
  assumes loop: "cascade_loop move es root ks = Ok changed" and wf: "entries_wf es"
  shows "c \<in> set changed \<longleftrightarrow> (\<exists>e l. (oe_id c, oe_generation e) \<in> set ks \<and> map_of es (oe_id c) = Some e \<and>
      move (oe_lifecycle e) = Some l \<and> c = e\<lparr>oe_lifecycle := l\<rparr>)"
proof
  have ids: "oe_id e = j" if "map_of es j = Some e" for j e using wf that by (simp add: entries_wf_def)
  assume "c \<in> set changed"
  then obtain k e l where k: "k \<in> set ks" "entry_checked_any es k = Ok e" and l: "move (oe_lifecycle e) = Some l"
    "c = e\<lparr>oe_lifecycle := l\<rparr>"
    using conjunct2 [OF cascade_loop_Ok [OF loop]] by blast
  then have e: "map_of es (fst k) = Some e" "oe_generation e = snd k" by (simp_all add: entry_checked_any_Ok)
  then have "oe_id c = fst k" using ids [OF e(1)] l by simp
  with k e l show "\<exists>e l. (oe_id c, oe_generation e) \<in> set ks \<and> map_of es (oe_id c) = Some e \<and>
    move (oe_lifecycle e) = Some l \<and> c = e\<lparr>oe_lifecycle := l\<rparr>" by (intro exI [of _ e] exI [of _ l]) simp
next
  assume "\<exists>e l. (oe_id c, oe_generation e) \<in> set ks \<and> map_of es (oe_id c) = Some e \<and>
    move (oe_lifecycle e) = Some l \<and> c = e\<lparr>oe_lifecycle := l\<rparr>"
  then obtain e l where e: "(oe_id c, oe_generation e) \<in> set ks" "map_of es (oe_id c) = Some e"
    "move (oe_lifecycle e) = Some l" "c = e\<lparr>oe_lifecycle := l\<rparr>" by blast
  have "entry_checked_any es (oe_id c, oe_generation e) = Ok e" using e(2) by (simp add: entry_checked_any_Ok)
  with e show "c \<in> set changed" using conjunct2 [OF cascade_loop_Ok [OF loop]] by blast
qed

lemma cascade_relife:
  assumes wf: "entries_wf es" and loop: "cascade_loop move es root ks = Ok changed"
  shows "relife (moved move (set ks)) es (insert_all changed es)"
  unfolding relife_def
proof (intro conjI allI)
  show "om_wf (insert_all changed es)" using wf by (simp add: entries_wf_def om_wf_insert_all)
  fix i
  have ids: "oe_id e = j" if "map_of es j = Some e" for j e using wf that by (simp add: entries_wf_def)
  note changed = cascade_changed [OF loop wf]
  show "map_of (insert_all changed es) i =
    map_option (\<lambda>e. e\<lparr>oe_lifecycle := moved move (set ks) (i, oe_generation e) (oe_lifecycle e)\<rparr>) (map_of es i)"
  proof (cases "\<exists>e l. map_of es i = Some e \<and> (i, oe_generation e) \<in> set ks \<and> move (oe_lifecycle e) = Some l")
    case True
    then obtain e l where e: "map_of es i = Some e" "(i, oe_generation e) \<in> set ks" "move (oe_lifecycle e) = Some l"
      by blast
    have in_changed: "e\<lparr>oe_lifecycle := l\<rparr> \<in> set changed"
      unfolding changed using e ids [OF e(1)] by auto
    have only: "\<forall>c \<in> set changed. oe_id c = i \<longrightarrow> c = e\<lparr>oe_lifecycle := l\<rparr>"
      using e by (auto simp: changed)
    show ?thesis using insert_all_at [OF in_changed _ only] e ids [OF e(1)] by (simp add: moved_def)
  next
    case False
    then have "\<forall>c \<in> set changed. oe_id c \<noteq> i" by (auto simp: changed)
    with False show ?thesis
      by (cases "map_of es i") (auto simp: insert_all_other moved_def split: option.splits)
  qed
qed

lemma moved_cong: "(\<And>l. move l = None \<Longrightarrow> l' l = l) \<Longrightarrow> (\<And>l a. move l = Some a \<Longrightarrow> l' l = a) \<Longrightarrow>
  moved move K = (\<lambda>k l. if k \<in> K then l' l else l)"
  by (auto simp: moved_def fun_eq_iff split: option.split)

lemma store_relife:
  assumes wf: "entries_wf (ot_entries t)" and e: "entry_checked_any (ot_entries t) k = Ok e"
  shows "relife (\<lambda>c l. if c = k then a else l) (ot_entries t) (ot_entries (store_entry (e\<lparr>oe_lifecycle := a\<rparr>) t))"
  using assms by (cases k) (auto simp: relife_def store_entry_def entry_checked_any_Ok entries_wf_def option.map_ident
      intro!: option.map_ident [symmetric] split: option.split)

text \<open>The keys a cascade visits are exactly the root and what it owns, directly or not.\<close>

definition subtree :: "object_entries \<Rightarrow> object_key \<Rightarrow> object_key set" where
  "subtree es k = {c. (k, c) \<in> (owned es)\<^sup>*}"

lemma descendants_subtree:
  "entries_wf es \<Longrightarrow> descendant_object_keys es k = Some ks \<Longrightarrow> set (ks @ [k]) = subtree es k"
  using descendants_set [of es k ks] by (auto simp: subtree_def rtrancl_eq_or_trancl)

lemma cascade_entries_Ok:
  assumes wf: "entries_wf es" and ok: "cascade_entries move es k = Some (Ok changed)"
  shows "relife (moved move (subtree es k)) es (insert_all changed es)"
    and "c \<in> subtree es k \<Longrightarrow> \<exists>l. obj_state es c = Some l \<and> (move l = None \<longrightarrow> obj_is_terminal l \<and> c \<noteq> k)"
proof -
  obtain ks where ks: "descendant_object_keys es k = Some ks" and loop: "cascade_loop move es k (ks @ [k]) = Ok changed"
    using ok by (auto simp: cascade_entries_def)
  note sub = descendants_subtree [OF wf ks]
  show "relife (moved move (subtree es k)) es (insert_all changed es)"
    using cascade_relife [OF wf loop] unfolding sub .
  assume "c \<in> subtree es k"
  from bspec [OF conjunct1 [OF cascade_loop_Ok [OF loop], unfolded sub] this]
  obtain e where "entry_checked_any es c = Ok e"
    "move (oe_lifecycle e) = None \<longrightarrow> obj_is_terminal (oe_lifecycle e) \<and> c \<noteq> k" by (elim exE conjE)
  then show "\<exists>l. obj_state es c = Some l \<and> (move l = None \<longrightarrow> obj_is_terminal l \<and> c \<noteq> k)"
    by (simp add: entry_checked_any_Ok obj_state_def)
qed

lemma cascade_entries_Err_or_Ok:
  assumes "entries_wf es" and "acyclic (owned es)"
  obtains e where "cascade_entries move es k = Some (Err e)"
  | changed where "cascade_entries move es k = Some (Ok changed)"
proof -
  obtain r where "cascade_entries move es k = Some r"
    using descendants_return [OF assms, of k] by (auto simp: cascade_entries_def)
  with that show thesis by (cases r) auto
qed

lemma finalize_cases:
  assumes wf: "entries_wf (ot_entries t)" and "acyclic (owned (ot_entries t))"
  obtains e where "finalize_cascade f k t = Some (Err e, t)"
  | changed es' where "finalize_cascade f k t = Some (Ok changed, t\<lparr>ot_entries := es'\<rparr>)"
    "relife (moved (move_closing f) (subtree (ot_entries t) k)) (ot_entries t) es'"
    "\<And>c. c \<in> subtree (ot_entries t) k \<Longrightarrow> \<exists>l. obj_state (ot_entries t) c = Some l \<and>
      (move_closing f l = None \<longrightarrow> obj_is_terminal l \<and> c \<noteq> k)"
proof (cases "ensure_root_ready_for_close_finalization (ot_entries t) k")
  case (Inl e)
  then show thesis by (intro that(1) [of e]) (simp add: finalize_cascade_def)
next
  case (Inr u)
  show thesis
  proof (rule cascade_entries_Err_or_Ok [OF assms, of "move_closing f" k])
    fix e assume "cascade_entries (move_closing f) (ot_entries t) k = Some (Err e)"
    with Inr show thesis by (intro that(1) [of e]) (simp add: finalize_cascade_def)
  next
    fix changed assume ok: "cascade_entries (move_closing f) (ot_entries t) k = Some (Ok changed)"
    with Inr have "finalize_cascade f k t = Some (Ok changed, t\<lparr>ot_entries := insert_all changed (ot_entries t)\<rparr>)"
      by (simp add: finalize_cascade_def)
    then show thesis using cascade_entries_Ok [OF wf ok] by (rule that(2))
  qed
qed

lemma begin_close_cases:
  assumes wf: "entries_wf (ot_entries t)" and "acyclic (owned (ot_entries t))"
  obtains e where "begin_close_cascade_with_cleanup_authority k step t = Some (Err e, t)"
  | changed authority es' where
    "begin_close_cascade_with_cleanup_authority k step t = Some (Ok (changed, authority),
       t\<lparr>ot_close_txn := snd (issue_cleanup_authority (fst k) (snd k) (ot_close_txn t)), ot_entries := es'\<rparr>)"
    "fst (issue_cleanup_authority (fst k) (snd k) (ot_close_txn t)) = Ok authority"
    "relife (moved (move_to_closing step) (subtree (ot_entries t) k)) (ot_entries t) es'"
    "\<And>c. c \<in> subtree (ot_entries t) k \<Longrightarrow> \<exists>l. obj_state (ot_entries t) c = Some l \<and>
      (move_to_closing step l = None \<longrightarrow> obj_is_terminal l \<and> c \<noteq> k)"
proof -
  let ?es = "ot_entries t" and ?issue = "issue_cleanup_authority (fst k) (snd k) (ot_close_txn t)"
  have refused: "snd ?issue = ot_close_txn t" if "fst ?issue = Err e" for e
    using that by (auto simp: issue_cleanup_authority_def split: option.splits if_splits)
  show thesis
  proof (cases "\<exists>root. entry_checked_any ?es k = Ok root \<and> move_to_closing step (oe_lifecycle root) \<noteq> None")
    case False
    then have "\<exists>e. begin_close_cascade_with_cleanup_authority k step t = Some (Err e, t)"
      by (auto simp: begin_close_cascade_with_cleanup_authority_def split: sum.split)
    then show thesis using that(1) by blast
  next
    case True
    then obtain root l where root: "entry_checked_any ?es k = Ok root" "move_to_closing step (oe_lifecycle root) = Some l"
      by blast
    show thesis
    proof (rule cascade_entries_Err_or_Ok [OF assms, of "move_to_closing step" k])
      fix e assume "cascade_entries (move_to_closing step) ?es k = Some (Err e)"
      with root show thesis
        by (intro that(1) [of e]) (simp add: begin_close_cascade_with_cleanup_authority_def)
    next
      fix changed assume ok: "cascade_entries (move_to_closing step) ?es k = Some (Ok changed)"
      note facts = cascade_entries_Ok [OF wf ok]
      show thesis
      proof (cases "fst ?issue")
        case (Inl e)
        with refused [OF Inl] root ok show thesis
          by (intro that(1) [of "close_txn_error (fst k) (oe_lifecycle root) e"])
            (simp add: begin_close_cascade_with_cleanup_authority_def case_prod_unfold)
      next
        case (Inr authority)
        with root ok show thesis
          by (intro that(2) [OF _ Inr facts, of changed])
            (simp add: begin_close_cascade_with_cleanup_authority_def case_prod_unfold)
      qed
    qed
  qed
qed

lemma relife_comp: "relife f es es1 \<Longrightarrow> relife g es1 es2 \<Longrightarrow> relife (\<lambda>k l. g k (f k l)) es es2"
  by (auto simp: relife_def option.map_comp o_def)

lemma quarantine_one:
  assumes wf: "entries_wf (ot_entries t)" and k: "has_key (ot_entries t) k"
  obtains x es' where "quarantine_one_if_live_or_nonterminal k t = (Ok x, t\<lparr>ot_entries := es'\<rparr>)"
    "relife (\<lambda>c l. if c = k \<and> \<not> obj_is_terminal l then ObjQuarantined else l) (ot_entries t) es'"
proof -
  obtain e where e: "entry_checked_any (ot_entries t) k = Ok e" using k by (auto simp: entry_checked_any_has_key)
  show thesis
  proof (cases "obj_is_terminal (oe_lifecycle e)")
    case True
    have "relife (\<lambda>c l. if c = k \<and> \<not> obj_is_terminal l then ObjQuarantined else l) (ot_entries t) (ot_entries t)"
      by (rule relife_cong [OF relife_refl [OF wf]])
        (use e True in \<open>auto simp: obj_state_def entry_checked_any_Ok split: option.splits if_splits\<close>)
    with e True show thesis by (intro that [of None]) (auto simp: quarantine_one_if_live_or_nonterminal_def)
  next
    case False
    have "relife (\<lambda>c l. if c = k \<and> \<not> obj_is_terminal l then ObjQuarantined else l) (ot_entries t)
        (ot_entries (store_entry (e\<lparr>oe_lifecycle := ObjQuarantined\<rparr>) t))"
      by (rule relife_cong [OF store_relife [OF wf e]])
        (use e False in \<open>auto simp: obj_state_def entry_checked_any_Ok split: option.splits if_splits\<close>)
    with e False show thesis
      by (intro that [of "Some (e\<lparr>oe_lifecycle := ObjQuarantined\<rparr>)"])
        (auto simp: quarantine_one_if_live_or_nonterminal_def Let_def store_entry_def)
  qed
qed

lemma quarantine_loop_Ok:
  "\<lbrakk>entries_wf (ot_entries t); \<forall>k \<in> set ks. has_key (ot_entries t) k\<rbrakk> \<Longrightarrow>
   \<exists>changed es'. quarantine_loop ks t = (Ok changed, t\<lparr>ot_entries := es'\<rparr>) \<and>
     relife (\<lambda>c l. if c \<in> set ks \<and> \<not> obj_is_terminal l then ObjQuarantined else l) (ot_entries t) es'"
proof (induction ks arbitrary: t)
  case Nil
  have "quarantine_loop [] t = (Ok [], t\<lparr>ot_entries := ot_entries t\<rparr>)" by simp
  moreover have "relife (\<lambda>c l. if c \<in> set [] \<and> \<not> obj_is_terminal l then ObjQuarantined else l) (ot_entries t) (ot_entries t)"
    using relife_refl [OF Nil(1)] by simp
  ultimately show ?case by blast
next
  case (Cons k ks)
  obtain x es1 where one: "quarantine_one_if_live_or_nonterminal k t = (Ok x, t\<lparr>ot_entries := es1\<rparr>)"
    and r1: "relife (\<lambda>c l. if c = k \<and> \<not> obj_is_terminal l then ObjQuarantined else l) (ot_entries t) es1"
    by (rule quarantine_one [OF Cons.prems(1), of k]) (use Cons.prems(2) in simp)
  have "entries_wf es1" using relife_wf [OF Cons.prems(1) r1] .
  moreover have "\<forall>k \<in> set ks. has_key es1 k"
    using Cons.prems(2) by (simp add: has_key_state relife_state [OF r1])
  ultimately obtain others es2 where loop: "quarantine_loop ks (t\<lparr>ot_entries := es1\<rparr>) = (Ok others, t\<lparr>ot_entries := es2\<rparr>)"
    and r2: "relife (\<lambda>c l. if c \<in> set ks \<and> \<not> obj_is_terminal l then ObjQuarantined else l) es1 es2"
    using Cons.IH [of "t\<lparr>ot_entries := es1\<rparr>", simplified] by blast
  have "(\<lambda>c l. if c \<in> set ks \<and> \<not> obj_is_terminal (if c = k \<and> \<not> obj_is_terminal l then ObjQuarantined else l)
          then ObjQuarantined else (if c = k \<and> \<not> obj_is_terminal l then ObjQuarantined else l)) =
        (\<lambda>c l. if c \<in> set (k # ks) \<and> \<not> obj_is_terminal l then ObjQuarantined else l)"
    by (auto simp: fun_eq_iff)
  with relife_comp [OF r1 r2]
  have "relife (\<lambda>c l. if c \<in> set (k # ks) \<and> \<not> obj_is_terminal l then ObjQuarantined else l) (ot_entries t) es2"
    by simp
  moreover have "quarantine_loop (k # ks) t =
      (Ok (case x of None \<Rightarrow> others | Some e \<Rightarrow> e # others), t\<lparr>ot_entries := es2\<rparr>)"
    using one loop by simp
  ultimately show ?case by blast
qed

lemma subtree_has_key: "has_key es k \<Longrightarrow> c \<in> subtree es k \<Longrightarrow> has_key es c"
  by (auto simp: subtree_def elim: rtranclE dest: owned_child_has_key)

lemma quarantine_cases:
  assumes wf: "entries_wf (ot_entries t)" and ac: "acyclic (owned (ot_entries t))"
  obtains e where "\<not> has_key (ot_entries t) k" "quarantine_cascade k t = Some (Err e, t)"
  | changed es' where "has_key (ot_entries t) k" "quarantine_cascade k t = Some (Ok changed, t\<lparr>ot_entries := es'\<rparr>)"
    "relife (\<lambda>c l. if c \<in> subtree (ot_entries t) k \<and> \<not> obj_is_terminal l then ObjQuarantined else l) (ot_entries t) es'"
proof (cases "entry_checked_any (ot_entries t) k")
  case (Inl e)
  then show thesis by (intro that(1) [of e]) (simp_all add: quarantine_cascade_def entry_checked_any_has_key)
next
  case (Inr e)
  then have k: "has_key (ot_entries t) k" by (simp add: entry_checked_any_has_key)
  obtain ks where ks: "descendant_object_keys (ot_entries t) k = Some ks" using descendants_return [OF wf ac, of k] by auto
  note sub = descendants_subtree [OF wf ks]
  have "\<forall>c \<in> set (ks @ [k]). has_key (ot_entries t) c" unfolding sub using subtree_has_key [OF k] by blast
  from quarantine_loop_Ok [OF wf this] obtain changed es' where
    "quarantine_loop (ks @ [k]) t = (Ok changed, t\<lparr>ot_entries := es'\<rparr>)"
    "relife (\<lambda>c l. if c \<in> subtree (ot_entries t) k \<and> \<not> obj_is_terminal l then ObjQuarantined else l) (ot_entries t) es'"
    unfolding sub by blast
  with k Inr ks show thesis by (intro that(2)) (simp_all add: quarantine_cascade_def)
qed

subsection \<open>Registration keeps ownership acyclic\<close>

lemma owner_walk_Ok:
  "ensure_owner_live_for n es i owner = Some (Ok u) \<Longrightarrow> owner_key owner = Some k \<Longrightarrow>
   (a, k) \<in> (owned es)\<^sup>* \<Longrightarrow> obj_state es a = Some ObjLive"
proof (induction n arbitrary: i owner k)
  case (Suc n)
  obtain kind where ref: "referenced_object owner = Some (kind, k)"
    using Suc.prems(2) by (auto simp: owner_key_def)
  then obtain e where e: "map_of es (fst k) = Some e" "oe_generation e = snd k" "obj_is_live (oe_lifecycle e)"
    and rec: "ensure_owner_live_for n es (fst k) (oe_owner e) = Some (Ok u)"
    using Suc.prems(1) by (cases k) (auto split: option.splits if_splits)
  have live: "obj_state es k = Some ObjLive"
    using e by (cases "oe_lifecycle e") (auto simp: obj_state_def)
  from Suc.prems(3) show ?case
  proof (cases rule: rtranclE)
    case base
    then show ?thesis using live by simp
  next
    case (step p)
    then have "owner_key (oe_owner e) = Some p" using e by (auto simp: owned_def)
    then show ?thesis using Suc.IH [OF rec] step(1) by blast
  qed
qed simp

lemma insert_Ok:
  assumes wf: "entries_wf (ot_entries t)" and ac: "acyclic (owned (ot_entries t))"
    and ok: "insert_with_lifecycle entry lc t = Some (Ok u, t')"
  shows "entries_wf (ot_entries t')" and "acyclic (owned (ot_entries t'))"
proof -
  let ?es = "ot_entries t" and ?k = "(oe_id entry, oe_generation entry)"
  have es': "ot_entries t' = om_insert (oe_id entry) (entry\<lparr>oe_lifecycle := lc\<rparr>) ?es"
    and free: "nonterminal_at ?es (oe_id entry) = None"
    and walk: "ensure_owner_live_for (walk_fuel ?es) ?es (oe_id entry) (oe_owner entry) = Some (Ok ())"
    using ok by (auto simp: insert_with_lifecycle_def split: option.splits if_splits sum.splits)
  show "entries_wf (ot_entries t')" using wf by (auto simp: es' entries_wf_def)
  have not_live: "obj_state ?es ?k \<noteq> Some ObjLive"
    using free by (auto simp: nonterminal_at_def obj_state_def split: option.splits if_splits)
  show "acyclic (owned (ot_entries t'))"
  proof (cases "owner_key (oe_owner entry)")
    case None
    then have "owned (ot_entries t') \<subseteq> owned ?es" by (auto simp: es' owned_def split: if_splits)
    then show ?thesis by (rule acyclic_subset [OF ac])
  next
    case (Some p)
    have "owned (ot_entries t') \<subseteq> insert (p, ?k) (owned ?es)" using Some by (auto simp: es' owned_def split: if_splits)
    moreover have "(?k, p) \<notin> (owned ?es)\<^sup>*" using owner_walk_Ok [OF walk Some] not_live by blast
    then have "acyclic (insert (p, ?k) (owned ?es))" using ac by (simp add: acyclic_insert)
    ultimately show ?thesis by (rule acyclic_subset [rotated])
  qed
qed

end
