(* ===== verification/Object_Lifecycle.thy ===== *)
theory Object_Lifecycle
  imports Object_Invariant
begin

section \<open>Runs of the object table\<close>

text \<open>
  The calls on the table as data, the tables they reach from the empty one, and the properties of
  these: every call returns, failed calls change nothing, cascades are exact, owners outlive what
  they own, and cleanup attempts exclude each other.
\<close>

datatype object_call =
    ObjInsert runtime_object_entry
  | ObjInsertPrepared runtime_object_entry
  | ObjCommitPrepared object_key
  | ObjRemove object_key
  | ObjBeginClose object_key cleanup_step
  | ObjBeginAttempt object_key close_cleanup_authority_key
  | ObjFinishAttempt object_key close_cleanup_attempt_key close_cleanup_attempt_outcome
  | ObjMarkFailed object_key cleanup_step
  | ObjCommitClose object_key
  | ObjQuarantine object_key

definition forget :: "(runtime_object_table_error + 'r) \<times> runtime_object_table \<Rightarrow>
    (runtime_object_table_error + unit) \<times> runtime_object_table" where
  "forget = map_prod (map_sum id (\<lambda>_. ())) id"

fun object_exec :: "object_call \<Rightarrow> runtime_object_table \<Rightarrow> unit object_result" where
  "object_exec (ObjInsert e) t = object_insert e t"
| "object_exec (ObjInsertPrepared e) t = insert_prepared e t"
| "object_exec (ObjCommitPrepared k) t = Some (forget (commit_prepared k t))"
| "object_exec (ObjRemove k) t = Some (forget (object_remove k t))"
| "object_exec (ObjBeginClose k st) t = map_option forget (begin_close_cascade_with_cleanup_authority k st t)"
| "object_exec (ObjBeginAttempt k au) t = Some (forget (begin_close_cleanup_attempt k au t))"
| "object_exec (ObjFinishAttempt k a oc) t = map_option forget (finish_close_cleanup_attempt k a oc t)"
| "object_exec (ObjMarkFailed k st) t = map_option forget (mark_cleanup_failed_cascade k st t)"
| "object_exec (ObjCommitClose k) t = map_option forget (commit_close_cascade k t)"
| "object_exec (ObjQuarantine k) t = map_option forget (quarantine_cascade k t)"

lemma forget_simps [simp]:
  "forget (Err e, t) = (Err e, t)" "forget (Ok r, t) = (Ok (), t)" "snd (forget p) = snd p"
  by (simp_all add: forget_def)

definition object_inv :: "runtime_object_table \<Rightarrow> bool" where
  "object_inv t \<longleftrightarrow> entries_wf (ot_entries t) \<and> acyclic (owned (ot_entries t)) \<and> close_txn_inv (ot_close_txn t)"

subsection \<open>What a call does\<close>

text \<open>
  Every call either fails without a trace, or inserts an entry, removes one, or moves life cycles
  and makes some calls on the close transaction.
\<close>

definition txn_after :: "object_close_txn \<Rightarrow> object_close_txn \<Rightarrow> bool" where
  "txn_after x y \<longleftrightarrow> (\<exists>cs. y = fold close_txn_exec cs x)"

lemma txn_after_refl [simp]: "txn_after x x"
  unfolding txn_after_def by (rule exI [of _ "[]"]) simp

lemma txn_after_exec [simp]:
  "txn_after x (clear_obligation i x)"
  "txn_after x (snd (issue_cleanup_authority i g x))"
  "txn_after x (snd (begin_cleanup_attempt i g a x))"
  "txn_after x (snd (finish_cleanup_attempt i g b c x))"
  unfolding txn_after_def
  using exI [of _ "[TxnClearObligation i]"] exI [of _ "[TxnIssue i g]"] exI [of _ "[TxnBegin i g a]"]
    exI [of _ "[TxnFinish i g b c]"]
  by (metis close_txn_exec.simps fold_simps)+

lemma txn_after_inv: "txn_after x y \<Longrightarrow> close_txn_inv x \<Longrightarrow> close_txn_inv y"
proof -
  have "close_txn_inv x \<Longrightarrow> close_txn_inv (fold close_txn_exec cs x)" for cs
    by (induction cs arbitrary: x) (simp_all add: close_txn_inv_exec)
  then show "txn_after x y \<Longrightarrow> close_txn_inv x \<Longrightarrow> close_txn_inv y" by (auto simp: txn_after_def)
qed

definition refused :: "unit object_result \<Rightarrow> runtime_object_table \<Rightarrow> bool" where
  "refused r t \<longleftrightarrow> (\<exists>e. r = Some (Err e, t))"

definition moves ::
  "unit object_result \<Rightarrow> runtime_object_table \<Rightarrow> (object_key \<Rightarrow> runtime_object_lifecycle \<Rightarrow> runtime_object_lifecycle) \<Rightarrow> bool" where
  "moves r t f \<longleftrightarrow> (\<exists>t'. r = Some (Ok (), t') \<and> relife f (ot_entries t) (ot_entries t') \<and>
     txn_after (ot_close_txn t) (ot_close_txn t'))"

lemma insert_effect:
  assumes "object_inv t"
  shows "refused (insert_with_lifecycle entry lc t) t \<or>
    (\<exists>t'. insert_with_lifecycle entry lc t = Some (Ok (), t') \<and> object_inv t' \<and>
      txn_after (ot_close_txn t) (ot_close_txn t'))"
proof -
  have wf: "entries_wf (ot_entries t)" "acyclic (owned (ot_entries t))" using assms by (simp_all add: object_inv_def)
  obtain r where r: "ensure_owner_live_for (walk_fuel (ot_entries t)) (ot_entries t) (oe_id entry) (oe_owner entry) = Some r"
    using owner_walk_returns [OF wf] by blast
  show ?thesis
  proof (cases "\<exists>t'. insert_with_lifecycle entry lc t = Some (Ok (), t')")
    case True
    then obtain t' where t': "insert_with_lifecycle entry lc t = Some (Ok (), t')" by blast
    then have txn: "ot_close_txn t' = clear_obligation (oe_id entry) (ot_close_txn t)"
      by (auto simp: insert_with_lifecycle_def split: option.splits if_splits sum.splits)
    then have "close_txn_inv (ot_close_txn t')"
      using txn_after_inv [OF txn_after_exec(1)] assms by (simp add: object_inv_def)
    with insert_Ok [OF wf t'] t' show ?thesis by (simp add: object_inv_def txn)
  next
    case False
    with r show ?thesis
      by (cases "runtime_bound (ot_entries t) entry")
        (auto simp: insert_with_lifecycle_def refused_def split: option.splits sum.splits)
  qed
qed

lemma commit_prepared_effect:
  assumes "object_inv t"
  shows "refused (object_exec (ObjCommitPrepared k) t) t \<or>
    obj_state (ot_entries t) k = Some ObjPrepared \<and>
    moves (object_exec (ObjCommitPrepared k) t) t (\<lambda>c l. if c = k then ObjLive else l)"
proof (cases "\<exists>e. entry_checked_any (ot_entries t) k = Ok e \<and> oe_lifecycle e = ObjPrepared")
  case True
  then obtain e where e: "entry_checked_any (ot_entries t) k = Ok e" "oe_lifecycle e = ObjPrepared" by blast
  then have "relife (\<lambda>c l. if c = k then ObjLive else l) (ot_entries t) (ot_entries (store_entry (e\<lparr>oe_lifecycle := ObjLive\<rparr>) t))"
    using assms store_relife by (simp add: object_inv_def)
  moreover have "object_exec (ObjCommitPrepared k) t = Some (Ok (), store_entry (e\<lparr>oe_lifecycle := ObjLive\<rparr>) t)"
    using e by (simp add: commit_prepared_def Let_def)
  moreover have "ot_close_txn (store_entry (e\<lparr>oe_lifecycle := ObjLive\<rparr>) t) = ot_close_txn t" by (simp add: store_entry_def)
  moreover have "obj_state (ot_entries t) k = Some ObjPrepared" using e by (simp add: entry_checked_any_Ok obj_state_def)
  ultimately show ?thesis unfolding moves_def by (metis txn_after_refl)
next
  case False
  then show ?thesis by (auto simp: refused_def commit_prepared_def split: sum.split)
qed

lemma remove_effect:
  "refused (object_exec (ObjRemove k) t) t \<or>
   obj_state (ot_entries t) k = Some ObjLive \<and>
   object_exec (ObjRemove k) t = Some (Ok (), t\<lparr>ot_close_txn := clear_obligation (fst k) (ot_close_txn t),
     ot_entries := om_remove (fst k) (ot_entries t)\<rparr>)"
proof (cases "object_entry_checked (ot_entries t) k")
  case (Inr e)
  then have "obj_state (ot_entries t) k = Some ObjLive"
    by (cases "oe_lifecycle e") (auto simp: object_entry_checked_def entry_checked_any_Ok obj_state_def split: sum.splits if_splits)
  with Inr show ?thesis by (simp add: object_remove_def)
qed (simp add: refused_def object_remove_def)

lemma begin_attempt_effect:
  assumes "object_inv t"
  shows "refused (object_exec (ObjBeginAttempt k au) t) t \<or> moves (object_exec (ObjBeginAttempt k au) t) t (\<lambda>_ l. l)"
proof -
  have same: "snd (begin_cleanup_attempt i g au x) = x" if "fst (begin_cleanup_attempt i g au x) = Err e" for i g x e
    using that by (auto simp: begin_cleanup_attempt_def split: option.splits if_splits)
  have keep: "relife (\<lambda>_ l. l) (ot_entries t) (ot_entries t)" using assms relife_refl by (simp add: object_inv_def)
  let ?b = "begin_cleanup_attempt (fst k) (snd k) au (ot_close_txn t)"
  show ?thesis
  proof (cases "\<exists>e. entry_checked_any (ot_entries t) k = Ok e \<and> move_closing id (oe_lifecycle e) \<noteq> None")
    case False
    then show ?thesis by (auto simp: begin_close_cleanup_attempt_def refused_def split: sum.split)
  next
    case True
    then obtain e l where "entry_checked_any (ot_entries t) k = Ok e" "move_closing id (oe_lifecycle e) = Some l" by blast
    with same [of "fst k" "snd k" "ot_close_txn t"] keep show ?thesis
      by (cases "fst ?b") (auto simp: begin_close_cleanup_attempt_def refused_def moves_def case_prod_unfold)
  qed
qed

lemma begin_close_effect:
  assumes "object_inv t"
  shows "refused (object_exec (ObjBeginClose k st) t) t \<or>
    moves (object_exec (ObjBeginClose k st) t) t (moved (move_to_closing st) (subtree (ot_entries t) k)) \<and>
    (\<forall>c \<in> subtree (ot_entries t) k. obj_state (ot_entries t) c \<noteq> Some ObjPrepared)"
proof -
  have wf: "entries_wf (ot_entries t)" "acyclic (owned (ot_entries t))" using assms by (simp_all add: object_inv_def)
  show ?thesis
  proof (rule begin_close_cases [OF wf, of k st])
    fix changed authority es'
    assume "begin_close_cascade_with_cleanup_authority k st t = Some (Ok (changed, authority),
       t\<lparr>ot_close_txn := snd (issue_cleanup_authority (fst k) (snd k) (ot_close_txn t)), ot_entries := es'\<rparr>)"
      and "relife (moved (move_to_closing st) (subtree (ot_entries t) k)) (ot_entries t) es'"
      and all: "\<And>c. c \<in> subtree (ot_entries t) k \<Longrightarrow> \<exists>l. obj_state (ot_entries t) c = Some l \<and>
        (move_to_closing st l = None \<longrightarrow> obj_is_terminal l \<and> c \<noteq> k)"
    moreover have "obj_state (ot_entries t) c \<noteq> Some ObjPrepared" if "c \<in> subtree (ot_entries t) k" for c
      using all [OF that] by auto
    ultimately show ?thesis by (simp add: moves_def)
  qed (simp add: refused_def)
qed

lemma finalize_effect:
  assumes "object_inv t"
  shows "refused (map_option forget (finalize_cascade f k t)) t \<or>
    moves (map_option forget (finalize_cascade f k t)) t (moved (move_closing f) (subtree (ot_entries t) k)) \<and>
    (\<forall>c \<in> subtree (ot_entries t) k. \<exists>l. obj_state (ot_entries t) c = Some l \<and> (obj_is_terminal l \<or> move_closing f l \<noteq> None))"
proof -
  have wf: "entries_wf (ot_entries t)" "acyclic (owned (ot_entries t))" using assms by (simp_all add: object_inv_def)
  show ?thesis
  proof (rule finalize_cases [OF wf, of f k])
    fix changed es'
    assume "finalize_cascade f k t = Some (Ok changed, t\<lparr>ot_entries := es'\<rparr>)"
      and "relife (moved (move_closing f) (subtree (ot_entries t) k)) (ot_entries t) es'"
      and all: "\<And>c. c \<in> subtree (ot_entries t) k \<Longrightarrow> \<exists>l. obj_state (ot_entries t) c = Some l \<and>
        (move_closing f l = None \<longrightarrow> obj_is_terminal l \<and> c \<noteq> k)"
    moreover have "\<exists>l. obj_state (ot_entries t) c = Some l \<and> (obj_is_terminal l \<or> move_closing f l \<noteq> None)"
      if "c \<in> subtree (ot_entries t) k" for c using all [OF that] by blast
    ultimately show ?thesis by (simp add: moves_def)
  qed (simp add: refused_def)
qed

lemma quarantine_effect:
  assumes "object_inv t"
  shows "refused (object_exec (ObjQuarantine k) t) t \<and> \<not> has_key (ot_entries t) k \<or>
    moves (object_exec (ObjQuarantine k) t) t
      (\<lambda>c l. if c \<in> subtree (ot_entries t) k \<and> \<not> obj_is_terminal l then ObjQuarantined else l)"
proof -
  have wf: "entries_wf (ot_entries t)" "acyclic (owned (ot_entries t))" using assms by (simp_all add: object_inv_def)
  show ?thesis by (rule quarantine_cases [OF wf, of k]) (simp_all add: refused_def moves_def)
qed

fun outcome_lifecycle :: "close_cleanup_attempt_outcome \<Rightarrow> runtime_object_lifecycle" where
  "outcome_lifecycle AttemptComplete = ObjClosed"
| "outcome_lifecycle (AttemptPending step) = ObjCleanupPending step"

lemma finish_effect:
  assumes inv: "object_inv t"
  shows "refused (object_exec (ObjFinishAttempt k a oc) t) t \<or>
    attempt_is_current (fst k) (snd k) a (ot_close_txn t) \<and>
    (\<exists>t'. object_exec (ObjFinishAttempt k a oc) t = Some (Ok (), t') \<and>
       relife (moved (move_closing (\<lambda>_. outcome_lifecycle oc)) (subtree (ot_entries t) k)) (ot_entries t) (ot_entries t') \<and>
       ot_close_txn t' = snd (finish_cleanup_attempt (fst k) (snd k) a (oc = AttemptComplete) (ot_close_txn t))) \<and>
    (\<forall>c \<in> subtree (ot_entries t) k. \<exists>l. obj_state (ot_entries t) c = Some l \<and>
       (obj_is_terminal l \<or> move_closing (\<lambda>_. outcome_lifecycle oc) l \<noteq> None))"
proof (cases "\<exists>e. entry_checked_any (ot_entries t) k = Ok e \<and> attempt_is_current (fst k) (snd k) a (ot_close_txn t)")
  case False
  then show ?thesis by (auto simp: finish_close_cleanup_attempt_def refused_def split: sum.split)
next
  case True
  then obtain e where e: "entry_checked_any (ot_entries t) k = Ok e"
    and cur: "attempt_is_current (fst k) (snd k) a (ot_close_txn t)" by blast
  let ?f = "finish_cleanup_attempt (fst k) (snd k) a (oc = AttemptComplete) (ot_close_txn t)"
  let ?fin = "finalize_cascade (\<lambda>_. outcome_lifecycle oc) k t"
  have fin: "(case oc of AttemptComplete \<Rightarrow> commit_close_cascade k t
      | AttemptPending step \<Rightarrow> mark_cleanup_failed_cascade k step t) = ?fin"
    by (cases oc) (simp_all add: commit_close_cascade_def mark_cleanup_failed_cascade_def)
  have finished: "fst ?f = Ok ()"
    using cur by (auto simp: finish_cleanup_attempt_def attempt_is_current_def split: option.splits)
  have wf: "entries_wf (ot_entries t)" "acyclic (owned (ot_entries t))" using inv by (simp_all add: object_inv_def)
  show ?thesis
  proof (rule finalize_cases [OF wf, of "\<lambda>_. outcome_lifecycle oc" k])
    fix er assume "?fin = Some (Err er, t)"
    with e cur have "finish_close_cleanup_attempt k a oc t = Some (Err er, t)"
      unfolding finish_close_cleanup_attempt_def fin by simp
    then show ?thesis by (simp add: refused_def)
  next
    fix changed es'
    assume ok: "?fin = Some (Ok changed, t\<lparr>ot_entries := es'\<rparr>)"
      and rel: "relife (moved (move_closing (\<lambda>_. outcome_lifecycle oc)) (subtree (ot_entries t) k)) (ot_entries t) es'"
      and all: "\<And>c. c \<in> subtree (ot_entries t) k \<Longrightarrow> \<exists>l. obj_state (ot_entries t) c = Some l \<and>
        (move_closing (\<lambda>_. outcome_lifecycle oc) l = None \<longrightarrow> obj_is_terminal l \<and> c \<noteq> k)"
    have covered: "\<forall>c \<in> subtree (ot_entries t) k. \<exists>l. obj_state (ot_entries t) c = Some l \<and>
        (obj_is_terminal l \<or> move_closing (\<lambda>_. outcome_lifecycle oc) l \<noteq> None)" using all by blast
    have "finish_close_cleanup_attempt k a oc t = Some (Ok changed, t\<lparr>ot_entries := es', ot_close_txn := snd ?f\<rparr>)"
      unfolding finish_close_cleanup_attempt_def fin using e cur ok finished by (simp add: case_prod_unfold)
    with rel cur covered show ?thesis by simp
  qed
qed

lemma moves_step:
  assumes inv: "object_inv t" and mv: "moves r t f"
  shows "\<exists>t'. r = Some (Ok (), t') \<and> object_inv t' \<and> txn_after (ot_close_txn t) (ot_close_txn t')"
proof -
  obtain t' where t': "r = Some (Ok (), t')" and rel: "relife f (ot_entries t) (ot_entries t')"
    and txn: "txn_after (ot_close_txn t) (ot_close_txn t')"
    using mv unfolding moves_def by blast
  have "object_inv t'"
    using inv relife_wf [OF _ rel] relife_owned [OF rel] txn_after_inv [OF txn] by (simp add: object_inv_def)
  with t' txn show ?thesis by blast
qed

lemma remove_inv:
  assumes "object_inv t"
  shows "object_inv (t\<lparr>ot_close_txn := clear_obligation i (ot_close_txn t), ot_entries := om_remove i (ot_entries t)\<rparr>)"
proof -
  have "owned (om_remove i (ot_entries t)) \<subseteq> owned (ot_entries t)" by (auto simp: owned_def split: if_splits)
  with assms acyclic_subset have "acyclic (owned (om_remove i (ot_entries t)))" by (auto simp: object_inv_def)
  moreover have "entries_wf (om_remove i (ot_entries t))" using assms by (auto simp: object_inv_def entries_wf_def)
  moreover have "close_txn_inv (clear_obligation i (ot_close_txn t))"
    using assms txn_after_inv [OF txn_after_exec(1)] by (simp add: object_inv_def)
  ultimately show ?thesis by (simp add: object_inv_def)
qed

text \<open>Every call returns; it fails without a trace, or it succeeds and keeps the invariant.\<close>

lemma object_exec_step:
  assumes inv: "object_inv t"
  shows "refused (object_exec c t) t \<or>
    (\<exists>t'. object_exec c t = Some (Ok (), t') \<and> object_inv t' \<and> txn_after (ot_close_txn t) (ot_close_txn t'))"
proof (cases c)
  case (ObjInsert e)
  then show ?thesis using insert_effect [OF inv, of e ObjLive] by (simp add: object_insert_def)
next
  case (ObjInsertPrepared e)
  then show ?thesis using insert_effect [OF inv, of e ObjPrepared] by (simp add: insert_prepared_def)
next
  case (ObjCommitPrepared k)
  then show ?thesis using commit_prepared_effect [OF inv, of k] moves_step [OF inv] by blast
next
  case (ObjRemove k)
  then show ?thesis using remove_effect [of k t] remove_inv [OF inv, of "fst k"] by auto
next
  case (ObjBeginClose k st)
  then show ?thesis using begin_close_effect [OF inv, of k st] moves_step [OF inv] by blast
next
  case (ObjBeginAttempt k au)
  then show ?thesis using begin_attempt_effect [OF inv, of k au] moves_step [OF inv] by blast
next
  case (ObjFinishAttempt k a oc)
  then show ?thesis using finish_effect [OF inv, of k a oc] moves_step [OF inv] txn_after_exec(4)
    unfolding moves_def by metis
next
  case (ObjMarkFailed k st)
  show ?thesis unfolding ObjMarkFailed object_exec.simps mark_cleanup_failed_cascade_def
    using finalize_effect [OF inv, of "\<lambda>_. ObjCleanupPending st" k] moves_step [OF inv] by blast
next
  case (ObjCommitClose k)
  show ?thesis unfolding ObjCommitClose object_exec.simps commit_close_cascade_def
    using finalize_effect [OF inv, of "\<lambda>_. ObjClosed" k] moves_step [OF inv] by blast
next
  case (ObjQuarantine k)
  then show ?thesis using quarantine_effect [OF inv, of k] moves_step [OF inv] by blast
qed

subsection \<open>Reachable tables\<close>

inductive table_reach :: "runtime_object_table \<Rightarrow> bool" where
  reach_new: "table_reach object_table_default"
| reach_call: "table_reach t \<Longrightarrow> object_exec c t = Some (r, t') \<Longrightarrow> table_reach t'"
| reach_clear: "table_reach t \<Longrightarrow> table_reach (object_table_clear t)"

lemma object_inv_empty:
  "ot_entries t = [] \<Longrightarrow> close_txn_inv (ot_close_txn t) \<Longrightarrow> object_inv t"
  by (simp add: object_inv_def entries_wf_def owned_def acyclic_def)

lemma table_reach_inv: "table_reach t \<Longrightarrow> object_inv t"
proof (induction rule: table_reach.induct)
  case (reach_call t c r t')
  then show ?case using object_exec_step [OF reach_call.IH, of c] by (auto simp: refused_def)
qed (auto intro: object_inv_empty simp: object_table_default_def object_table_clear_def)

text \<open>
  C3. Every call on the object table returns, in every table that calls can reach: ownership never
  becomes cyclic, so the walks up to the root and down to the leaves end. A call that fails leaves
  the table exactly as it was, also in the middle of a cascade.
\<close>

theorem object_calls_return:
  assumes "table_reach t"
  shows "(\<exists>r t'. object_exec c t = Some (r, t') \<and> (isl r \<longrightarrow> t' = t)) \<and>
    entry_for_kind (ot_entries t) k kind \<noteq> None \<and> close_cascade_entries k t \<noteq> None"
proof (intro conjI)
  have inv: "object_inv t" using assms by (rule table_reach_inv)
  then have wf: "entries_wf (ot_entries t)" "acyclic (owned (ot_entries t))" by (simp_all add: object_inv_def)
  show "\<exists>r t'. object_exec c t = Some (r, t') \<and> (isl r \<longrightarrow> t' = t)"
    using object_exec_step [OF inv, of c] by (auto simp: refused_def)
  show "entry_for_kind (ot_entries t) k kind \<noteq> None"
    using owner_walk_returns [OF wf] by (auto simp: entry_for_kind_def split: sum.split)
  show "close_cascade_entries k t \<noteq> None"
    using descendants_return [OF wf, of k]
    by (auto simp: close_cascade_entries_def cascade_entries_def split: sum.split)
qed

subsection \<open>Cascades\<close>

definition cascade_spec ::
  "runtime_object_lifecycle \<Rightarrow> object_entries \<Rightarrow> object_key \<Rightarrow> object_key \<Rightarrow> runtime_object_lifecycle option" where
  "cascade_spec l es k =
     (\<lambda>c. if c \<in> subtree es k then map_option (\<lambda>m. if obj_is_terminal m then m else l) (obj_state es c)
          else obj_state es c)"

lemma relife_cascade_spec:
  assumes "relife f es es'"
    and "\<And>c m. obj_state es c = Some m \<Longrightarrow> f c m = (if c \<in> subtree es k \<and> \<not> obj_is_terminal m then l else m)"
  shows "obj_state es' = cascade_spec l es k"
proof
  fix c
  show "obj_state es' c = cascade_spec l es k c"
    using relife_state [OF assms(1), of c] assms(2) [of c] by (cases "obj_state es c") (auto simp: cascade_spec_def)
qed

lemma moved_closing_spec:
  assumes "relife (moved (move_closing (\<lambda>_. l)) (subtree es k)) es es'"
    and "\<forall>c \<in> subtree es k. \<exists>m. obj_state es c = Some m \<and> (obj_is_terminal m \<or> move_closing (\<lambda>_. l) m \<noteq> None)"
  shows "obj_state es' = cascade_spec l es k"
proof (rule relife_cascade_spec [OF assms(1)])
  fix c m assume m: "obj_state es c = Some m"
  show "moved (move_closing (\<lambda>_. l)) (subtree es k) c m = (if c \<in> subtree es k \<and> \<not> obj_is_terminal m then l else m)"
    using bspec [OF assms(2), of c] m by (cases m) (auto simp: moved_def)
qed

lemma moved_to_closing_spec:
  assumes "relife (moved (move_to_closing st) (subtree es k)) es es'"
    and "\<forall>c \<in> subtree es k. obj_state es c \<noteq> Some ObjPrepared"
  shows "obj_state es' = cascade_spec (ObjClosing st) es k"
proof (rule relife_cascade_spec [OF assms(1)])
  fix c m assume m: "obj_state es c = Some m"
  show "moved (move_to_closing st) (subtree es k) c m =
      (if c \<in> subtree es k \<and> \<not> obj_is_terminal m then ObjClosing st else m)"
    using bspec [OF assms(2), of c] m by (cases m) (auto simp: moved_def)
qed

text \<open>
  C5. Cascades are exact: beginning to close an object, finishing its cleanup and quarantining it
  move the object and everything it owns, directly or through others, to the new state, leave what
  is already closed or quarantined as it is, and touch no other object. Quarantining an object that
  is in the table always succeeds.
\<close>

theorem cascades_exact:
  assumes "table_reach t"
  shows "(\<forall>t'. object_exec (ObjBeginClose k step) t = Some (Ok (), t') \<longrightarrow>
       obj_state (ot_entries t') = cascade_spec (ObjClosing step) (ot_entries t) k) \<and>
    (\<forall>t'. object_exec (ObjFinishAttempt k a oc) t = Some (Ok (), t') \<longrightarrow>
       obj_state (ot_entries t') = cascade_spec (outcome_lifecycle oc) (ot_entries t) k) \<and>
    (obj_state (ot_entries t) k \<noteq> None \<longrightarrow>
       (\<exists>t'. object_exec (ObjQuarantine k) t = Some (Ok (), t') \<and>
          obj_state (ot_entries t') = cascade_spec ObjQuarantined (ot_entries t) k))"
proof (intro conjI allI impI)
  note inv = table_reach_inv [OF assms]
  show "obj_state (ot_entries t') = cascade_spec (ObjClosing step) (ot_entries t) k"
    if "object_exec (ObjBeginClose k step) t = Some (Ok (), t')" for t'
    using begin_close_effect [OF inv, of k step] that moved_to_closing_spec [of step "ot_entries t" k]
    unfolding refused_def moves_def by auto
  show "obj_state (ot_entries t') = cascade_spec (outcome_lifecycle oc) (ot_entries t) k"
    if "object_exec (ObjFinishAttempt k a oc) t = Some (Ok (), t')" for t'
    using finish_effect [OF inv, of k a oc] that moved_closing_spec [of "outcome_lifecycle oc" "ot_entries t" k]
    unfolding refused_def by auto
  assume "obj_state (ot_entries t) k \<noteq> None"
  then obtain t' where t': "object_exec (ObjQuarantine k) t = Some (Ok (), t')"
    "relife (\<lambda>c l. if c \<in> subtree (ot_entries t) k \<and> \<not> obj_is_terminal l then ObjQuarantined else l)
       (ot_entries t) (ot_entries t')"
    using quarantine_effect [OF inv, of k] by (auto simp: has_key_state moves_def)
  with relife_cascade_spec [OF t'(2), of k ObjQuarantined]
  show "\<exists>t'. object_exec (ObjQuarantine k) t = Some (Ok (), t') \<and>
      obj_state (ot_entries t') = cascade_spec ObjQuarantined (ot_entries t) k" by auto
qed

subsection \<open>Owners outlive what they own\<close>

text \<open>
  Objects in use are live or prepared. An object that is removed (a registration rolled back) must
  not own anything; the other calls are unrestricted.
\<close>

definition obj_in_use :: "runtime_object_lifecycle \<Rightarrow> bool" where
  "obj_in_use l \<longleftrightarrow> l = ObjLive \<or> l = ObjPrepared"

definition owner_ok :: "object_entries \<Rightarrow> runtime_object_entry \<Rightarrow> bool" where
  "owner_ok es e \<longleftrightarrow>
     (case referenced_object (oe_owner e) of
        None \<Rightarrow> True
      | Some (kind, p) \<Rightarrow> (\<exists>p_entry. map_of es (fst p) = Some p_entry \<and> oe_generation p_entry = snd p \<and>
          oe_kind p_entry = kind \<and> oe_lifecycle p_entry = ObjLive))"

definition owners_live :: "object_entries \<Rightarrow> bool" where
  "owners_live es \<longleftrightarrow> (\<forall>i e. map_of es i = Some e \<longrightarrow> obj_in_use (oe_lifecycle e) \<longrightarrow> owner_ok es e)"

fun orderly_call :: "object_call \<Rightarrow> runtime_object_table \<Rightarrow> bool" where
  "orderly_call (ObjRemove k) t \<longleftrightarrow> direct_children (ot_entries t) k = []"
| "orderly_call _ t \<longleftrightarrow> True"

inductive orderly_reach :: "runtime_object_table \<Rightarrow> bool" where
  orderly_new: "orderly_reach object_table_default"
| orderly_step: "orderly_reach t \<Longrightarrow> orderly_call c t \<Longrightarrow> object_exec c t = Some (r, t') \<Longrightarrow> orderly_reach t'"
| orderly_clear: "orderly_reach t \<Longrightarrow> orderly_reach (object_table_clear t)"

lemma orderly_table_reach: "orderly_reach t \<Longrightarrow> table_reach t"
  by (induction rule: orderly_reach.induct) (auto intro: table_reach.intros)

lemma owners_live_relife:
  assumes live: "owners_live es" and rel: "relife f es es'"
    and use: "\<And>c l. obj_state es c = Some l \<Longrightarrow> obj_in_use (f c l) \<Longrightarrow> obj_in_use l"
    and keep: "\<And>p c l. (p, c) \<in> owned es \<Longrightarrow> obj_state es c = Some l \<Longrightarrow> obj_in_use (f c l) \<Longrightarrow>
      obj_state es p = Some ObjLive \<Longrightarrow> f p ObjLive = ObjLive"
  shows "owners_live es'"
  unfolding owners_live_def
proof (intro allI impI)
  fix i e' assume e': "map_of es' i = Some e'" and used: "obj_in_use (oe_lifecycle e')"
  have es': "map_of es' j = map_option (\<lambda>e. e\<lparr>oe_lifecycle := f (j, oe_generation e) (oe_lifecycle e)\<rparr>) (map_of es j)" for j
    using rel by (simp add: relife_def)
  obtain e where e: "map_of es i = Some e" "e' = e\<lparr>oe_lifecycle := f (i, oe_generation e) (oe_lifecycle e)\<rparr>"
    using e' es' [of i] by auto
  have st: "obj_state es (i, oe_generation e) = Some (oe_lifecycle e)" using e by (simp add: obj_state_def)
  have ok: "owner_ok es e" using live e use [OF st] used by (auto simp: owners_live_def)
  show "owner_ok es' e'"
  proof (cases "referenced_object (oe_owner e)")
    case None
    then show ?thesis using e by (simp add: owner_ok_def)
  next
    case (Some kp)
    obtain kind p where kp: "kp = (kind, p)" by (cases kp)
    obtain pe where pe: "map_of es (fst p) = Some pe" "oe_generation pe = snd p" "oe_kind pe = kind" "oe_lifecycle pe = ObjLive"
      using ok Some kp by (auto simp: owner_ok_def)
    have "(p, (i, oe_generation e)) \<in> owned es" using e(1) Some kp by (cases p) (simp add: owned_def owner_key_def)
    moreover have "obj_state es p = Some ObjLive" using pe by (simp add: obj_state_def)
    ultimately have "f p ObjLive = ObjLive" using keep [OF _ st] used e by simp
    then have "map_of es' (fst p) = Some pe" using es' [of "fst p"] pe by simp
    then show ?thesis using pe Some kp e by (simp add: owner_ok_def)
  qed
qed

lemma owner_walk_first:
  assumes "ensure_owner_live_for n es i owner = Some (Ok u)" and "referenced_object owner = Some (kind, p)"
  shows "\<exists>pe. map_of es (fst p) = Some pe \<and> oe_generation pe = snd p \<and> oe_kind pe = kind \<and> oe_lifecycle pe = ObjLive"
proof (cases n)
  case (Suc m)
  have "oe_lifecycle pe = ObjLive" if "obj_is_live (oe_lifecycle pe)" for pe :: runtime_object_entry
    using that by (cases "oe_lifecycle pe") simp_all
  with assms Suc show ?thesis by (cases p) (auto split: option.splits if_splits)
qed (use assms in simp)

lemma owners_live_insert:
  assumes live: "owners_live (ot_entries t)" and ok: "insert_with_lifecycle entry lc t = Some (Ok u, t')"
  shows "owners_live (ot_entries t')"
proof -
  let ?es = "ot_entries t"
  have es': "map_of (ot_entries t') = (map_of ?es)(oe_id entry \<mapsto> entry\<lparr>oe_lifecycle := lc\<rparr>)"
    and free: "nonterminal_at ?es (oe_id entry) = None"
    and walk: "ensure_owner_live_for (walk_fuel ?es) ?es (oe_id entry) (oe_owner entry) = Some (Ok ())"
    using ok by (auto simp: insert_with_lifecycle_def split: option.splits if_splits sum.splits)
  have not_new: "map_of (ot_entries t') i = Some pe" if "map_of ?es i = Some pe" "oe_lifecycle pe = ObjLive" for i pe
    using that free es' by (auto simp: nonterminal_at_def)
  have keep: "owner_ok (ot_entries t') e" if "owner_ok ?es e" for e
    using that not_new by (auto simp: owner_ok_def split: option.splits)
  have "owner_ok ?es (entry\<lparr>oe_lifecycle := lc\<rparr>)"
    using owner_walk_first [OF walk] by (auto simp: owner_ok_def split: option.split)
  then show ?thesis
    using live keep by (auto simp: owners_live_def es')
qed

lemma owners_live_remove:
  assumes live: "owners_live es" and wf: "entries_wf es" and k: "has_key es k" and leaf: "direct_children es k = []"
  shows "owners_live (om_remove (fst k) es)"
  unfolding owners_live_def
proof (intro allI impI)
  fix i e assume e: "map_of (om_remove (fst k) es) i = Some e" and used: "obj_in_use (oe_lifecycle e)"
  then have ie: "map_of es i = Some e" by (simp split: if_splits)
  have ok: "owner_ok es e" using live ie used by (auto simp: owners_live_def)
  have "(k, c) \<notin> owned es" for c using direct_children_owned [OF wf, of c k] leaf by simp
  then have other: "owner_key (oe_owner e) \<noteq> Some k" using ie by (force simp: owned_def)
  show "owner_ok (om_remove (fst k) es) e"
    using ok other k by (cases k) (auto simp: owner_ok_def owner_key_def has_key_def split: option.splits)
qed

lemma subtree_child: "(p, c) \<in> owned es \<Longrightarrow> p \<in> subtree es k \<Longrightarrow> c \<in> subtree es k"
  unfolding subtree_def by auto

lemma moves_owners_live:
  assumes "owners_live (ot_entries t)" and "moves r t f" and "r = Some (q, t')"
    and "\<And>c l. obj_state (ot_entries t) c = Some l \<Longrightarrow> obj_in_use (f c l) \<Longrightarrow> obj_in_use l"
    and "\<And>p c l. (p, c) \<in> owned (ot_entries t) \<Longrightarrow> obj_state (ot_entries t) c = Some l \<Longrightarrow> obj_in_use (f c l) \<Longrightarrow>
      obj_state (ot_entries t) p = Some ObjLive \<Longrightarrow> f p ObjLive = ObjLive"
  shows "owners_live (ot_entries t')"
proof -
  have "relife f (ot_entries t) (ot_entries t')" using assms(2,3) by (auto simp: moves_def)
  then show ?thesis by (rule owners_live_relife [OF assms(1)]) (fact assms(4), fact assms(5))
qed

lemma moved_closing_use:
  "obj_in_use (moved (move_closing f) K c l) \<Longrightarrow> (\<And>m. \<not> obj_in_use (f m)) \<Longrightarrow> obj_in_use l"
  by (cases l) (auto simp: moved_def obj_in_use_def split: if_splits)

lemma moved_closing_live: "moved (move_closing f) K c ObjLive = ObjLive"
  by (simp add: moved_def)

lemma moved_to_closing_use: "obj_in_use (moved (move_to_closing st) K c l) \<Longrightarrow> obj_in_use l"
  by (cases l) (auto simp: moved_def obj_in_use_def split: if_splits)

lemma moved_to_closing_in: "c \<in> K \<Longrightarrow> l \<noteq> ObjPrepared \<Longrightarrow> \<not> obj_in_use (moved (move_to_closing st) K c l)"
  by (cases l) (auto simp: moved_def obj_in_use_def)

lemma finalize_owners_live:
  assumes "object_inv t" and "owners_live (ot_entries t)" and "map_option forget (finalize_cascade (\<lambda>_. l) k t) = Some (r, t')"
    and "\<not> obj_in_use l"
  shows "owners_live (ot_entries t')"
  using finalize_effect [OF assms(1), of "\<lambda>_. l" k]
proof (elim disjE conjE)
  assume "moves (map_option forget (finalize_cascade (\<lambda>_. l) k t)) t (moved (move_closing (\<lambda>_. l)) (subtree (ot_entries t) k))"
  then show ?thesis
    by (rule moves_owners_live [OF assms(2) _ assms(3)]) (auto simp: moved_closing_live assms(4) dest: moved_closing_use)
qed (use assms in \<open>auto simp: refused_def\<close>)

lemma owners_live_step:
  assumes inv: "object_inv t" and live: "owners_live (ot_entries t)" and orderly: "orderly_call c t"
    and step: "object_exec c t = Some (r, t')"
  shows "owners_live (ot_entries t')"
proof (cases "refused (object_exec c t) t")
  case True
  then show ?thesis using step live by (auto simp: refused_def)
next
  case ok: False
  show ?thesis
  proof (cases c)
    case (ObjInsert e)
    then show ?thesis using insert_effect [OF inv, of e ObjLive] ok step owners_live_insert [OF live]
      by (auto simp: object_insert_def)
  next
    case (ObjInsertPrepared e)
    then show ?thesis using insert_effect [OF inv, of e ObjPrepared] ok step owners_live_insert [OF live]
      by (auto simp: insert_prepared_def)
  next
    case (ObjCommitPrepared k)
    then have k: "obj_state (ot_entries t) k = Some ObjPrepared"
      and mv: "moves (object_exec c t) t (\<lambda>c l. if c = k then ObjLive else l)"
      using commit_prepared_effect [OF inv, of k] ok by auto
    show ?thesis by (rule moves_owners_live [OF live mv step]) (use k in \<open>auto simp: obj_in_use_def split: if_splits\<close>)
  next
    case (ObjRemove k)
    then have k: "obj_state (ot_entries t) k = Some ObjLive"
      and t': "t' = t\<lparr>ot_close_txn := clear_obligation (fst k) (ot_close_txn t), ot_entries := om_remove (fst k) (ot_entries t)\<rparr>"
      using remove_effect [of k t] ok step by auto
    show ?thesis using owners_live_remove [OF live, of k] inv k orderly ObjRemove
      by (simp add: t' object_inv_def has_key_state)
  next
    case (ObjBeginClose k st)
    then have mv: "moves (object_exec c t) t (moved (move_to_closing st) (subtree (ot_entries t) k))"
      and unprepared: "\<forall>c \<in> subtree (ot_entries t) k. obj_state (ot_entries t) c \<noteq> Some ObjPrepared"
      using begin_close_effect [OF inv, of k st] ok by auto
    show ?thesis
    proof (rule moves_owners_live [OF live mv step])
      fix p c l assume pc: "(p, c) \<in> owned (ot_entries t)" and l: "obj_state (ot_entries t) c = Some l"
        and used: "obj_in_use (moved (move_to_closing st) (subtree (ot_entries t) k) c l)"
      have "l \<noteq> ObjPrepared" if "c \<in> subtree (ot_entries t) k" using bspec [OF unprepared that] l by auto
      then have "c \<notin> subtree (ot_entries t) k" using moved_to_closing_in used by blast
      then have "p \<notin> subtree (ot_entries t) k" using subtree_child [OF pc] by blast
      then show "moved (move_to_closing st) (subtree (ot_entries t) k) p ObjLive = ObjLive" by (simp add: moved_def)
    qed (rule moved_to_closing_use)
  next
    case (ObjBeginAttempt k au)
    then have mv: "moves (object_exec c t) t (\<lambda>_ l. l)" using begin_attempt_effect [OF inv, of k au] ok by auto
    show ?thesis by (rule moves_owners_live [OF live mv step]) simp_all
  next
    case (ObjFinishAttempt k a oc)
    then have rel: "relife (moved (move_closing (\<lambda>_. outcome_lifecycle oc)) (subtree (ot_entries t) k))
        (ot_entries t) (ot_entries t')"
      using finish_effect [OF inv, of k a oc] ok step by auto
    have "\<not> obj_in_use (outcome_lifecycle oc)" by (cases oc) (simp_all add: obj_in_use_def)
    then show ?thesis
      by (intro owners_live_relife [OF live rel]) (auto simp: moved_closing_live dest: moved_closing_use)
  next
    case (ObjMarkFailed k st)
    then show ?thesis using finalize_owners_live [OF inv live, of "ObjCleanupPending st" k r t'] step
      by (simp add: mark_cleanup_failed_cascade_def obj_in_use_def)
  next
    case (ObjCommitClose k)
    then show ?thesis using finalize_owners_live [OF inv live, of ObjClosed k r t'] step
      by (simp add: commit_close_cascade_def obj_in_use_def)
  next
    case (ObjQuarantine k)
    then have mv: "moves (object_exec c t) t
        (\<lambda>c l. if c \<in> subtree (ot_entries t) k \<and> \<not> obj_is_terminal l then ObjQuarantined else l)"
      using quarantine_effect [OF inv, of k] ok by auto
    show ?thesis
      by (rule moves_owners_live [OF live mv step])
        (auto simp: obj_in_use_def split: if_splits dest: subtree_child)
  qed
qed

lemma orderly_owners_live: "orderly_reach t \<Longrightarrow> owners_live (ot_entries t)"
proof (induction rule: orderly_reach.induct)
  case (orderly_step t c r t')
  show ?case
    using owners_live_step [OF table_reach_inv [OF orderly_table_reach [OF orderly_step(1)]] orderly_step.IH orderly_step(2,3)] .
qed (simp_all add: owners_live_def object_table_default_def object_table_clear_def)

lemma owners_live_walk:
  assumes "owners_live es"
  shows "owner_ok es e \<Longrightarrow> ensure_owner_live_for n es i (oe_owner e) \<in> {None, Some (Ok ())}"
proof (induction n arbitrary: i e)
  case (Suc n)
  show ?case
  proof (cases "referenced_object (oe_owner e)")
    case (Some kp)
    obtain kind p where kp: "kp = (kind, p)" by (cases kp)
    obtain pe where pe: "map_of es (fst p) = Some pe" "oe_generation pe = snd p" "oe_kind pe = kind" "oe_lifecycle pe = ObjLive"
      using Suc.prems Some kp by (auto simp: owner_ok_def)
    have "owner_ok es pe" using assms pe by (simp add: owners_live_def obj_in_use_def)
    from Suc.IH [OF this, of "fst p"] show ?thesis using Some kp pe by (cases p) simp
  qed simp
qed simp

text \<open>
  C10. A live object stays usable until it is closed itself or with an owner: in every table reached
  by calls that remove only objects without children, \<open>entry_for_kind\<close> accepts every live
  object under its kind, and all owners above it, up to the root, are live. So no operation leaves a
  live object below one that is closing, closed or quarantined.
\<close>

theorem live_object_usable:
  assumes "orderly_reach t" and "map_of (ot_entries t) i = Some e" and "oe_lifecycle e = ObjLive"
  shows "entry_for_kind (ot_entries t) (i, oe_generation e) (oe_kind e) = Some (Ok e) \<and>
    (\<forall>a. (a, (i, oe_generation e)) \<in> (owned (ot_entries t))\<^sup>+ \<longrightarrow> obj_state (ot_entries t) a = Some ObjLive)"
proof -
  let ?es = "ot_entries t"
  have wf: "entries_wf ?es" "acyclic (owned ?es)"
    using table_reach_inv [OF orderly_table_reach [OF assms(1)]] by (simp_all add: object_inv_def)
  have live: "owners_live ?es" using assms(1) by (rule orderly_owners_live)
  have "owner_ok ?es e" using live assms(2,3) by (simp add: owners_live_def obj_in_use_def)
  then have walk: "ensure_owner_live_for (walk_fuel ?es) ?es i (oe_owner e) = Some (Ok ())"
    using owners_live_walk [OF live] owner_walk_returns [OF wf] by blast
  then have "entry_for_kind ?es (i, oe_generation e) (oe_kind e) = Some (Ok e)"
    using assms(2,3) by (simp add: entry_for_kind_def object_entry_checked_def entry_checked_any_def)
  moreover have "obj_state ?es a = Some ObjLive" if anc: "(a, (i, oe_generation e)) \<in> (owned ?es)\<^sup>+" for a
  proof -
    obtain p where p: "(a, p) \<in> (owned ?es)\<^sup>*" "(p, (i, oe_generation e)) \<in> owned ?es" using tranclD2 [OF anc] by blast
    then have "owner_key (oe_owner e) = Some p" using assms(2) by (simp add: owned_def)
    then show ?thesis using owner_walk_Ok [OF walk] p(1) by blast
  qed
  ultimately show ?thesis by blast
qed

subsection \<open>Cleanup attempts\<close>

definition object_step :: "object_call \<Rightarrow> runtime_object_table \<Rightarrow> runtime_object_table" where
  "object_step c t = (case object_exec c t of Some (_, t') \<Rightarrow> t' | None \<Rightarrow> t)"

lemma object_step_txn:
  "object_inv t \<Longrightarrow> object_inv (object_step c t) \<and> txn_after (ot_close_txn t) (ot_close_txn (object_step c t))"
  using object_exec_step [of t c] by (auto simp: object_step_def refused_def)

lemma object_run_txn:
  "object_inv t \<Longrightarrow> object_inv (fold object_step cs t) \<and> txn_after (ot_close_txn t) (ot_close_txn (fold object_step cs t))"
proof (induction cs arbitrary: t)
  case (Cons c cs)
  have 1: "object_inv (object_step c t)" "txn_after (ot_close_txn t) (ot_close_txn (object_step c t))"
    using object_step_txn [OF Cons.prems] by simp_all
  have "txn_after x y \<Longrightarrow> txn_after y z \<Longrightarrow> txn_after x z" for x y z
    unfolding txn_after_def by (metis comp_apply fold_append)
  with 1 Cons.IH [OF 1(1)] show ?case by auto
qed simp

lemma txn_after_stale: "txn_after x y \<Longrightarrow> attempt_fence.stale x h \<Longrightarrow> attempt_fence.stale y h"
  unfolding txn_after_def using attempt_fence.stale_run by blast

lemma finished_attempt_stale:
  assumes inv: "object_inv t" and fin: "object_exec (ObjFinishAttempt k a oc) t = Some (Ok (), t')"
  shows "attempt_fence.stale (ot_close_txn t') (i, at_attempt_id a)"
proof -
  let ?x = "ot_close_txn t"
  have cur: "attempt_is_current (fst k) (snd k) a ?x"
    and t': "ot_close_txn t' = snd (finish_cleanup_attempt (fst k) (snd k) a (oc = AttemptComplete) ?x)"
    using finish_effect [OF inv, of k a oc] fin by (auto simp: refused_def)
  have "unat (at_attempt_id a) \<le> unat (ct_next_attempt_id ?x)"
    using attempt_current_active [OF cur] inv by (fastforce simp: object_inv_def close_txn_inv_def)
  moreover have "\<not> attempt_active ?x (i, at_attempt_id a)" if "i \<noteq> fst k"
    using attempt_current_active [OF cur] inv that by (auto simp: object_inv_def close_txn_inv_def)
  ultimately show ?thesis using cur
    by (cases "i = fst k")
      (auto simp: t' attempt_fence.stale_def finish_cleanup_attempt_def attempt_is_current_def attempt_active_def
        split: option.splits)
qed

text \<open>
  What can happen to a table between two calls of a client: calls, and \<open>clear\<close>, which the service does when it
  starts over while it boots.
\<close>

datatype table_event = TableCall object_call | TableClear

fun table_event_step :: "table_event \<Rightarrow> runtime_object_table \<Rightarrow> runtime_object_table" where
  "table_event_step (TableCall c) t = object_step c t"
| "table_event_step TableClear t = object_table_clear t"

lemma events_without_clear:
  "TableClear \<notin> set evs \<Longrightarrow> \<exists>cs. fold table_event_step evs t = fold object_step cs t"
proof (induction evs arbitrary: t)
  case Nil
  have "fold table_event_step [] t = fold object_step [] t" by simp
  then show ?case ..
next
  case (Cons ev evs)
  then obtain c where ev: "ev = TableCall c" by (cases ev) auto
  obtain cs where "fold table_event_step evs (object_step c t) = fold object_step cs (object_step c t)"
    using Cons by auto
  then have "fold table_event_step (ev # evs) t = fold object_step (c # cs) t" by (simp add: ev)
  then show ?case ..
qed

text \<open>
  C22. Cleanup runs once at a time and finishes once: while an attempt is in progress, no other
  attempt on its object and no new close can begin, and no other object has an attempt with the same
  number. When it has finished, its key is not accepted again, whatever calls follow, unless the whole table is
  cleared: \<open>clear\<close> starts the numbering of attempts anew.
\<close>

theorem cleanup_attempt_exclusive:
  assumes "table_reach t" and "attempt_is_current (fst k) (snd k) a (ot_close_txn t)"
  shows "isl (fst (begin_close_cleanup_attempt (fst k, g) au t)) \<and>
    (\<nexists>t'. object_exec (ObjBeginClose (fst k, g) step) t = Some (Ok (), t')) \<and>
    (attempt_is_current i g a (ot_close_txn t) \<longrightarrow> i = fst k) \<and>
    (\<forall>t' evs. object_exec (ObjFinishAttempt k a oc) t = Some (Ok (), t') \<longrightarrow>
       attempt_is_current i g a (ot_close_txn (fold table_event_step evs t')) \<longrightarrow> TableClear \<in> set evs)"
proof (intro conjI allI impI)
  note inv = table_reach_inv [OF assms(1)]
  have active: "attempt_active (ot_close_txn t) (fst k, at_attempt_id a)" using assms(2) by (rule attempt_current_active)
  show "isl (fst (begin_close_cleanup_attempt (fst k, g) au t))"
    using attempt_active_begin [OF active, of g au]
    by (auto simp: begin_close_cleanup_attempt_def case_prod_unfold split: sum.split)
  show "\<nexists>t'. object_exec (ObjBeginClose (fst k, g) step) t = Some (Ok (), t')"
    using attempt_active_issue [OF active, of g] inv
    by (auto simp: object_inv_def forget_def elim!: begin_close_cases [of t "(fst k, g)" step])
  show same: "i = fst k" if "attempt_is_current i g a (ot_close_txn t)" for i g
    using attempt_current_active [OF that] active inv by (auto simp: object_inv_def close_txn_inv_def)
  fix t' evs assume fin: "object_exec (ObjFinishAttempt k a oc) t = Some (Ok (), t')"
    and cur: "attempt_is_current i g a (ot_close_txn (fold table_event_step evs t'))"
  have inv': "object_inv t'" using object_exec_step [OF inv, of "ObjFinishAttempt k a oc"] fin by (auto simp: refused_def)
  have "\<not> attempt_is_current i g a (ot_close_txn (fold object_step cs t'))" for cs
    using txn_after_stale [OF _ finished_attempt_stale [OF inv fin], of _ i] object_run_txn [OF inv', of cs]
      attempt_current_active [of i g a] by (auto simp: attempt_fence.stale_def)
  then show "TableClear \<in> set evs" using cur events_without_clear [of evs t'] by (cases "TableClear \<in> set evs") auto
qed

subsection \<open>Rolling back a child that was prepared\<close>




subsection \<open>A sample table\<close>

lemma reach_fold: "table_reach t \<Longrightarrow> table_reach (fold object_step cs t)"
proof (induction cs arbitrary: t)
  case (Cons c cs)
  obtain r t' where "object_exec c t = Some (r, t')"
    using object_exec_step [OF table_reach_inv [OF Cons.prems], of c] by (auto simp: refused_def)
  then show ?case using Cons reach_call by (simp add: object_step_def)
qed simp

definition sample_object :: "aidl_object_kind \<Rightarrow> i64 \<Rightarrow> runtime_owner_relation \<Rightarrow> runtime_object_entry" where
  "sample_object kind n owner = register_entry kind (AidlObjectId n) (AidlObjectGeneration n) n owner ObjLive"

definition sample_demux :: object_key where
  "sample_demux = (AidlObjectId 1, AidlObjectGeneration 1)"

definition sample_objects :: runtime_object_table where
  "sample_objects = fold object_step
     [ObjInsert (sample_object KindDemux 1 OwnerRoot),
      ObjInsert (sample_object KindFilter 2 (OwnerDemux (AidlObjectId 1) (AidlObjectGeneration 1)))] object_table_default"

definition sample_closing :: runtime_object_table where
  "sample_closing = fold object_step
     [ObjBeginClose sample_demux StopWorker, ObjBeginAttempt sample_demux (CloseCleanupAuthorityKey 1)] sample_objects"

definition sample_attempt :: close_cleanup_attempt_key where
  "sample_attempt = \<lparr>at_obligation_id = 1, at_attempt_id = 1\<rparr>"

lemma sample_reach: "table_reach sample_objects" "table_reach sample_closing"
  unfolding sample_objects_def sample_closing_def by (intro reach_fold reach_new)+

lemmas object_eval = object_step_def object_insert_def insert_with_lifecycle_def nonterminal_at_def runtime_bound_def
  walk_fuel_def register_entry_def sample_object_def sample_demux_def sample_attempt_def object_table_default_def
  close_txn_new_def clear_obligation_def begin_close_cascade_with_cleanup_authority_def entry_checked_any_def
  cascade_entries_def descendant_object_keys_def direct_children_def owns_def insert_all_def less_aidl_object_id_def
  issue_cleanup_authority_def next_nonzero_id_def checked_add_u64_def begin_close_cleanup_attempt_def
  begin_cleanup_attempt_def

lemma sample_objects_eval:
  "sample_objects = \<lparr>ot_entries = [(AidlObjectId 1, sample_object KindDemux 1 OwnerRoot),
     (AidlObjectId 2, sample_object KindFilter 2 (OwnerDemux (AidlObjectId 1) (AidlObjectGeneration 1)))],
     ot_close_txn = close_txn_new\<rparr>"
  by (simp add: sample_objects_def object_eval)

lemma sample_closing_facts:
  "attempt_is_current (fst sample_demux) (snd sample_demux) sample_attempt (ot_close_txn sample_closing)"
  "map_of (ot_entries sample_objects) (AidlObjectId 2) =
     Some (sample_object KindFilter 2 (OwnerDemux (AidlObjectId 1) (AidlObjectGeneration 1)))"
  by (simp_all add: sample_closing_def sample_objects_eval object_eval attempt_is_current_def)

theorem object_calls_return_witness:
  "\<exists>r t'. object_exec (ObjBeginClose sample_demux StopWorker) sample_objects = Some (r, t')"
  using object_calls_return [OF sample_reach(1), of "ObjBeginClose sample_demux StopWorker" sample_demux KindDemux] by blast

theorem cascades_exact_witness:
  "\<exists>t'. object_exec (ObjQuarantine sample_demux) sample_objects = Some (Ok (), t') \<and>
     obj_state (ot_entries t') = cascade_spec ObjQuarantined (ot_entries sample_objects) sample_demux"
proof -
  have "obj_state (ot_entries sample_objects) sample_demux \<noteq> None"
    by (simp add: sample_objects_eval obj_state_def sample_demux_def sample_object_def register_entry_def)
  with cascades_exact [OF sample_reach(1), of sample_demux StopWorker sample_attempt AttemptComplete] show ?thesis by blast
qed

lemma sample_orderly: "orderly_reach sample_objects"
proof -
  let ?t = "object_step (ObjInsert (sample_object KindDemux 1 OwnerRoot)) object_table_default"
  have 1: "object_exec (ObjInsert (sample_object KindDemux 1 OwnerRoot)) object_table_default = Some (Ok (), ?t)"
    by (simp add: object_eval)
  have 2: "object_exec (ObjInsert (sample_object KindFilter 2 (OwnerDemux (AidlObjectId 1) (AidlObjectGeneration 1)))) ?t =
      Some (Ok (), sample_objects)"
    by (simp add: sample_objects_eval object_eval)
  show ?thesis by (rule orderly_step [OF orderly_step [OF orderly_new _ 1] _ 2]) simp_all
qed

theorem live_object_usable_witness:
  "entry_for_kind (ot_entries sample_objects) (AidlObjectId 2, AidlObjectGeneration 2) KindFilter =
     Some (Ok (sample_object KindFilter 2 (OwnerDemux (AidlObjectId 1) (AidlObjectGeneration 1))))"
  using live_object_usable [OF sample_orderly sample_closing_facts(2)]
  by (simp add: sample_object_def register_entry_def)

theorem cleanup_attempt_exclusive_witness:
  "isl (fst (begin_close_cleanup_attempt (fst sample_demux, AidlObjectGeneration 1) (CloseCleanupAuthorityKey 1) sample_closing))"
  using cleanup_attempt_exclusive [OF sample_reach(2) sample_closing_facts(1),
      of "AidlObjectGeneration 1" "CloseCleanupAuthorityKey 1" StopWorker "AidlObjectId 1" AttemptComplete] by blast



end
