(* ===== verification/Si_Sections.thy ===== *)
theory Si_Sections
  imports Sections
begin

section \<open>Sections and section tracking in the SI engine\<close>

text \<open>
  \<open>arib_si_engine_rs/src/core/sections.rs\<close>: the section header, the CRC, the check of descriptor loops,
  and the tracker that decides whether all sections of a table version have arrived. The CRC is the
  same function as that of the demux, which the engine has a copy of.
\<close>

subsection \<open>Header and CRC\<close>

record si_section_header =
  ih_table_id :: u8
  ih_syntax :: bool
  ih_section_length :: nat
  ih_total_length :: nat
  ih_table_id_extension :: "u16 option"
  ih_version :: "u8 option"
  ih_current_next_indicator :: "bool option"
  ih_section_number :: "u8 option"
  ih_last_section_number :: "u8 option"

text \<open>\<open>((b & 0x0f) as usize) << 8 | c as usize\<close>\<close>

definition length12 :: "u8 \<Rightarrow> u8 \<Rightarrow> nat" where
  "length12 b c = push_bit 8 (unat (b AND 0x0f)) OR unat c"

definition si_parse_section_header :: "bytes \<Rightarrow> si_section_header option" where
  "si_parse_section_header sec =
     (if length sec < 3 then None
      else
        let section_length = length12 (sec ! 1) (sec ! 2);
            total_length = 3 + section_length
        in if length sec < total_length then None
           else
             let syntax = (sec ! 1 AND 0x80 \<noteq> 0)
             in if syntax then
                  if total_length < 8 then None
                  else Some \<lparr>ih_table_id = sec ! 0, ih_syntax = syntax, ih_section_length = section_length,
                         ih_total_length = total_length, ih_table_id_extension = Some (be16 (sec ! 3) (sec ! 4)),
                         ih_version = Some (drop_bit 1 (sec ! 5) AND 0x1f),
                         ih_current_next_indicator = Some (sec ! 5 AND 1 \<noteq> 0),
                         ih_section_number = Some (sec ! 6), ih_last_section_number = Some (sec ! 7)\<rparr>
                else Some \<lparr>ih_table_id = sec ! 0, ih_syntax = syntax, ih_section_length = section_length,
                       ih_total_length = total_length, ih_table_id_extension = None, ih_version = None,
                       ih_current_next_indicator = None, ih_section_number = None,
                       ih_last_section_number = None\<rparr>)"

definition si_crc32_bit :: "u32 \<Rightarrow> u32" where
  "si_crc32_bit crc =
     (if crc AND 0x80000000 \<noteq> 0 then push_bit 1 crc XOR 0x04c11db7 else push_bit 1 crc)"

definition si_crc32_mpeg :: "bytes \<Rightarrow> u32" where
  "si_crc32_mpeg bs =
     foldl (\<lambda>crc byte. (si_crc32_bit ^^ 8) (crc XOR push_bit 24 (ucast byte))) 0xffffffff bs"

definition section_crc_valid_with_header :: "bytes \<Rightarrow> si_section_header \<Rightarrow> bool" where
  "section_crc_valid_with_header sec header =
     (if ih_section_length header < 4 \<or> length sec < ih_total_length header then False
      else si_crc32_mpeg (take (ih_total_length header) sec) = 0)"

definition si_section_crc_valid :: "bytes \<Rightarrow> bool" where
  "si_section_crc_valid sec =
     (case si_parse_section_header sec of
        None \<Rightarrow> False
      | Some header \<Rightarrow> section_crc_valid_with_header sec header)"

lemma si_crc32_mpeg_eq: "si_crc32_mpeg = crc32_mpeg"
proof -
  have bit: "si_crc32_bit = crc32_bit" by (simp add: fun_eq_iff si_crc32_bit_def crc32_bit_def)
  have byte: "crc32_byte = (\<lambda>crc byte. (crc32_bit ^^ 8) (crc XOR push_bit 24 (ucast byte)))"
    by (intro ext) (simp add: crc32_byte_def)
  show ?thesis unfolding bit byte si_crc32_mpeg_def [abs_def] crc32_mpeg_def [abs_def] ..
qed

subsection \<open>Descriptor loops\<close>

text \<open>The cursor of the code is the part of the slice that is left.\<close>

fun descriptor_loop_well_formed :: "bytes \<Rightarrow> bool" where
  "descriptor_loop_well_formed [] = True"
| "descriptor_loop_well_formed [_] = False"
| "descriptor_loop_well_formed (tag # len # rest) =
     (unat len \<le> length rest \<and> descriptor_loop_well_formed (drop (unat len) rest))"

definition section_body_end :: "bytes \<Rightarrow> nat option" where
  "section_body_end sec =
     (case si_parse_section_header sec of
        None \<Rightarrow> None
      | Some header \<Rightarrow>
          if ih_section_length header < 4 \<or> length sec < ih_total_length header then None
          else Some (3 + ih_section_length header - 4))"

text \<open>
  The loops over the streams of a PMT, the transports of a NIT or BAT and the services of an SDT:
  each entry has some fixed bytes, a 12-bit length and a descriptor loop of that length.
\<close>

fun malformed_entries :: "nat \<Rightarrow> bytes \<Rightarrow> bool" where
  "malformed_entries fixed bs =
     (if bs = [] then False
      else if length bs < fixed + 2 then True
      else
        let desc_len = length12 (bs ! fixed) (bs ! (fixed + 1))
        in if length bs < fixed + 2 + desc_len \<or>
              \<not> descriptor_loop_well_formed (take desc_len (drop (fixed + 2) bs)) then True
           else malformed_entries fixed (drop (fixed + 2 + desc_len) bs))"

declare malformed_entries.simps [simp del]

definition malformed_pmt :: "bytes \<Rightarrow> nat \<Rightarrow> bool" where
  "malformed_pmt sec body_end =
     (if length sec < 12 \<or> body_end < 12 \<or> length sec < body_end then True
      else
        let program_info_end = 12 + length12 (sec ! 10) (sec ! 11)
        in if body_end < program_info_end \<or> \<not> descriptor_loop_well_formed (slice sec 12 program_info_end) then True
           else malformed_entries 3 (slice sec program_info_end body_end))"

text \<open>The NIT and the BAT have the same form.\<close>

definition malformed_network :: "bytes \<Rightarrow> nat \<Rightarrow> bool" where
  "malformed_network sec body_end =
     (if length sec < 10 \<or> body_end < 10 then True
      else
        let network_desc_end = 10 + length12 (sec ! 8) (sec ! 9)
        in if body_end < network_desc_end \<or> \<not> descriptor_loop_well_formed (slice sec 10 network_desc_end) then True
           else if body_end < network_desc_end + 2 then True
           else
             let cursor = network_desc_end + 2;
                 transport_end = cursor + length12 (sec ! network_desc_end) (sec ! (network_desc_end + 1))
             in if body_end < transport_end then True
                else malformed_entries 4 (slice sec cursor transport_end))"

definition malformed_sdt :: "bytes \<Rightarrow> nat \<Rightarrow> bool" where
  "malformed_sdt sec body_end =
     (if length sec < 11 \<or> body_end < 11 then True
      else malformed_entries 3 (slice sec 11 body_end))"

definition section_has_malformed_descriptor_loop :: "u16 \<Rightarrow> u8 \<Rightarrow> bytes \<Rightarrow> bool \<Rightarrow> bool" where
  "section_has_malformed_descriptor_loop pid table_id sec known_pmt_pid =
     (case section_body_end sec of
        None \<Rightarrow> True
      | Some body_end \<Rightarrow>
          if pid = 0x0001 \<and> table_id = 0x01 then
            length sec < 8 \<or> body_end < 8 \<or> \<not> descriptor_loop_well_formed (slice sec 8 body_end)
          else if table_id = 0x02 \<and> known_pmt_pid then malformed_pmt sec body_end
          else if pid = 0x0010 \<and> (table_id = 0x40 \<or> table_id = 0x41) then malformed_network sec body_end
          else if pid = 0x0011 \<and> (table_id = 0x42 \<or> table_id = 0x46) then malformed_sdt sec body_end
          else if pid = 0x0011 \<and> table_id = 0x4a then malformed_network sec body_end
          else False)"

subsection \<open>The section tracker\<close>

record section_tracker =
  st_version :: "u8 option"
  st_last_section_number :: "u8 option"
  st_seen_sections :: "u8 set"
  st_inconsistent :: bool
  st_payloads :: "u8 \<rightharpoonup> bytes"

definition section_tracker_default :: section_tracker where
  "section_tracker_default = \<lparr>st_version = None, st_last_section_number = None, st_seen_sections = {},
     st_inconsistent = False, st_payloads = Map.empty\<rparr>"

definition accepts_version :: "u8 \<Rightarrow> section_tracker \<Rightarrow> bool" where
  "accepts_version version t =
     (case st_version t of
        None \<Rightarrow> True
      | Some old \<Rightarrow> (ucast version + 32 - ucast old :: u16) mod 32 < 16)"

definition mark_seen :: "u8 \<Rightarrow> u8 \<Rightarrow> u8 \<Rightarrow> section_tracker \<Rightarrow> section_tracker" where
  "mark_seen version section_number last_section_number t =
     (let t = (if st_version t \<noteq> Some version
               then t\<lparr>st_version := Some version, st_last_section_number := None, st_seen_sections := {},
                      st_payloads := Map.empty, st_inconsistent := False\<rparr>
               else t)
      in if section_number > last_section_number then t\<lparr>st_inconsistent := True\<rparr>
         else
           (case st_last_section_number t of
              Some expected \<Rightarrow>
                if expected \<noteq> last_section_number then t\<lparr>st_inconsistent := True\<rparr>
                else t\<lparr>st_seen_sections := insert section_number (st_seen_sections t)\<rparr>
            | None \<Rightarrow> t\<lparr>st_last_section_number := Some last_section_number,
                        st_seen_sections := insert section_number (st_seen_sections t)\<rparr>))"

definition tracker_observe :: "u8 \<Rightarrow> u8 \<Rightarrow> u8 \<Rightarrow> bytes \<Rightarrow> section_tracker \<Rightarrow> bool \<times> section_tracker" where
  "tracker_observe version sec last_sec bytes t =
     (if \<not> accepts_version version t then (False, t)
      else
        let t = mark_seen version sec last_sec t
        in case st_payloads t sec of
             Some previous \<Rightarrow> (False, if previous \<noteq> bytes then t\<lparr>st_inconsistent := True\<rparr> else t)
           | None \<Rightarrow>
               if st_inconsistent t then (False, t)
               else (True, t\<lparr>st_payloads := (st_payloads t)(sec \<mapsto> bytes)\<rparr>))"

definition tracker_is_complete :: "section_tracker \<Rightarrow> bool" where
  "tracker_is_complete t =
     (if st_inconsistent t then False
      else
        (case st_last_section_number t of
           None \<Rightarrow> False
         | Some last_sec \<Rightarrow>
             list_all (\<lambda>n. word_of_nat n \<in> st_seen_sections t) [0..<Suc (unat last_sec)]))"

subsection \<open>A descriptor loop is well formed exactly when it is a sequence of descriptors\<close>

definition encode_descriptor :: "u8 \<times> bytes \<Rightarrow> bytes" where
  "encode_descriptor d = fst d # word_of_nat (length (snd d)) # snd d"

lemma encoded_loop_well_formed:
  "list_all (\<lambda>d. length (snd d) < 256) ds \<Longrightarrow> descriptor_loop_well_formed (concat (map encode_descriptor ds))"
  by (induction ds) (auto simp: encode_descriptor_def unat_of_nat)

lemma well_formed_loop_encoded:
  "descriptor_loop_well_formed bs \<Longrightarrow>
     \<exists>ds. list_all (\<lambda>d. length (snd d) < 256) ds \<and> bs = concat (map encode_descriptor ds)"
proof (induction bs rule: descriptor_loop_well_formed.induct)
  case 1
  then show ?case by (intro exI [of _ "[]"]) simp
next
  case (3 tag len rest)
  then obtain ds where ds: "list_all (\<lambda>d. length (snd d) < 256) ds"
      "drop (unat len) rest = concat (map encode_descriptor ds)"
    by auto
  let ?d = "(tag, take (unat len) rest)"
  have "unat len < 256" using unsigned_less [of len] by simp
  moreover have "unat len \<le> length rest" using 3 by simp
  ultimately have "list_all (\<lambda>d. length (snd d) < 256) (?d # ds)"
      and "tag # len # rest = concat (map encode_descriptor (?d # ds))"
    using ds by (simp_all add: encode_descriptor_def flip: ds(2))
  then show ?case by blast
qed simp

subsection \<open>What the tracker has collected\<close>

text \<open>
  A history is the list of the sections observed, each with its version, number, last number and
  bytes. What the tracker holds comes from the history, and as long as it sees no contradiction
  it has the bytes of exactly the sections it has marked.
\<close>

type_synonym observation = "u8 \<times> u8 \<times> u8 \<times> bytes"

fun track :: "section_tracker \<Rightarrow> observation list \<Rightarrow> section_tracker" where
  "track t [] = t"
| "track t ((v, n, l, b) # os) = track (snd (tracker_observe v n l b t)) os"

definition tracker_inv :: "observation set \<Rightarrow> section_tracker \<Rightarrow> bool" where
  "tracker_inv os t \<longleftrightarrow>
     (\<forall>n b. st_payloads t n = Some b \<longrightarrow>
        (\<exists>v l. st_version t = Some v \<and> st_last_section_number t = Some l \<and> n \<le> l \<and> (v, n, l, b) \<in> os)) \<and>
     dom (st_payloads t) \<subseteq> st_seen_sections t \<and>
     (\<not> st_inconsistent t \<longrightarrow> st_seen_sections t = dom (st_payloads t))"

lemma tracker_inv_default: "tracker_inv os section_tracker_default"
  by (simp add: tracker_inv_def section_tracker_default_def)

lemma tracker_inv_mono: "tracker_inv os t \<Longrightarrow> os \<subseteq> os' \<Longrightarrow> tracker_inv os' t"
  unfolding tracker_inv_def by blast

lemma tracker_inv_inconsistent: "tracker_inv os t \<Longrightarrow> tracker_inv os (t\<lparr>st_inconsistent := True\<rparr>)"
  unfolding tracker_inv_def by simp

lemma mark_seen_version [simp]: "st_version (mark_seen v n l t) = Some v"
  by (auto simp: mark_seen_def Let_def split: option.splits)

lemma mark_seen_payloads:
  "st_payloads (mark_seen v n l t) = (if st_version t = Some v then st_payloads t else Map.empty)"
  by (auto simp: mark_seen_def Let_def split: option.splits)

lemma mark_seen_consistent:
  assumes "\<not> st_inconsistent (mark_seen v n l t)"
  shows "n \<le> l" and "st_last_section_number (mark_seen v n l t) = Some l"
    and "st_seen_sections (mark_seen v n l t) =
           insert n (if st_version t = Some v then st_seen_sections t else {})"
    and "st_version t = Some v \<Longrightarrow> \<not> st_inconsistent t"
    and "st_version t = Some v \<Longrightarrow> st_last_section_number t \<in> {None, Some l}"
  using assms by (auto simp: mark_seen_def Let_def split: option.splits if_splits)

lemma mark_seen_kept:
  assumes "st_version t = Some v"
  shows "st_seen_sections t \<subseteq> st_seen_sections (mark_seen v n l t)"
    and "st_last_section_number t = Some m \<Longrightarrow> st_last_section_number (mark_seen v n l t) = Some m"
  using assms by (auto simp: mark_seen_def Let_def split: option.splits)

lemma tracker_observe_new:
  assumes "fst (tracker_observe v n l b t)"
  shows "accepts_version v t" and "\<not> st_inconsistent (mark_seen v n l t)"
    and "snd (tracker_observe v n l b t) =
           (mark_seen v n l t)\<lparr>st_payloads := (st_payloads (mark_seen v n l t))(n \<mapsto> b)\<rparr>"
  using assms by (auto simp: tracker_observe_def Let_def split: if_splits option.splits)

lemma tracker_observe_old:
  assumes "\<not> fst (tracker_observe v n l b t)"
  obtains (rejected) "\<not> accepts_version v t" "snd (tracker_observe v n l b t) = t"
  | (repeated) "accepts_version v t" "st_payloads (mark_seen v n l t) n = Some b"
      "snd (tracker_observe v n l b t) = mark_seen v n l t"
  | (contradicts) "accepts_version v t" "st_inconsistent (snd (tracker_observe v n l b t))"
      "snd (tracker_observe v n l b t) = (mark_seen v n l t)\<lparr>st_inconsistent := True\<rparr>"
proof (cases "accepts_version v t")
  case True
  show ?thesis
  proof (cases "st_payloads (mark_seen v n l t) n")
    case None
    then have "st_inconsistent (mark_seen v n l t)" "snd (tracker_observe v n l b t) = mark_seen v n l t"
      using assms True by (auto simp: tracker_observe_def Let_def split: if_splits)
    then show ?thesis using contradicts True by simp
  next
    case (Some previous)
    then show ?thesis
      using repeated contradicts True by (cases "previous = b") (simp_all add: tracker_observe_def Let_def)
  qed
qed (use rejected in \<open>simp add: tracker_observe_def\<close>)

text \<open>The part of the invariant that holds of a tracker right after \<open>mark_seen\<close>.\<close>

lemma mark_seen_sound:
  assumes "tracker_inv os t"
  shows "st_payloads (mark_seen v n l t) m = Some b \<Longrightarrow>
           \<exists>k. st_last_section_number (mark_seen v n l t) = Some k \<and> m \<le> k \<and> (v, m, k, b) \<in> os"
    and "dom (st_payloads (mark_seen v n l t)) \<subseteq> st_seen_sections (mark_seen v n l t)"
    and "\<not> st_inconsistent (mark_seen v n l t) \<Longrightarrow>
           st_seen_sections (mark_seen v n l t) = insert n (dom (st_payloads (mark_seen v n l t)))"
proof -
  show "\<exists>k. st_last_section_number (mark_seen v n l t) = Some k \<and> m \<le> k \<and> (v, m, k, b) \<in> os"
    if b: "st_payloads (mark_seen v n l t) m = Some b"
  proof -
    have same: "st_version t = Some v" using b by (simp add: mark_seen_payloads split: if_splits)
    then have "st_payloads t m = Some b" using b by (simp add: mark_seen_payloads)
    then obtain k where "st_last_section_number t = Some k" "m \<le> k" "(v, m, k, b) \<in> os"
      using assms same unfolding tracker_inv_def by force
    then show ?thesis using mark_seen_kept(2) [OF same] by blast
  qed
  show "dom (st_payloads (mark_seen v n l t)) \<subseteq> st_seen_sections (mark_seen v n l t)"
  proof (cases "st_version t = Some v")
    case True
    have "dom (st_payloads t) \<subseteq> st_seen_sections t" using assms unfolding tracker_inv_def by blast
    then show ?thesis using mark_seen_kept(1) [OF True, of n l] True by (simp add: mark_seen_payloads)
  qed (simp add: mark_seen_payloads)
  show "st_seen_sections (mark_seen v n l t) = insert n (dom (st_payloads (mark_seen v n l t)))"
    if "\<not> st_inconsistent (mark_seen v n l t)"
    using assms mark_seen_consistent(3,4) [OF that]
    by (simp add: tracker_inv_def mark_seen_payloads split: if_splits)
qed

lemma tracker_inv_observe:
  assumes "tracker_inv os t"
  shows "tracker_inv (insert (v, n, l, b) os) (snd (tracker_observe v n l b t))"
proof (cases "fst (tracker_observe v n l b t)")
  case True
  note new = tracker_observe_new [OF True]
  note seen = mark_seen_sound [OF assms, of v n l]
  have "\<exists>v' l'. Some v = Some v' \<and> st_last_section_number (mark_seen v n l t) = Some l' \<and> m \<le> l' \<and>
          (v', m, l', c) \<in> insert (v, n, l, b) os"
    if "((st_payloads (mark_seen v n l t))(n \<mapsto> b)) m = Some c" for m c
    using that seen(1) [of m c] mark_seen_consistent(1,2) [OF new(2)] by (cases "m = n") auto
  then show ?thesis using seen(2) seen(3) [OF new(2)] new(2) by (simp add: tracker_inv_def new(3))
next
  case False
  note seen = mark_seen_sound [OF assms, of v n l]
  show ?thesis
    using False
  proof (cases rule: tracker_observe_old)
    case rejected
    then show ?thesis using tracker_inv_mono [OF assms] by auto
  next
    case repeated
    then have "n \<in> dom (st_payloads (mark_seen v n l t))" by blast
    then show ?thesis
      using seen by (simp add: tracker_inv_def repeated(3) insert_absorb) blast
  next
    case contradicts
    then show ?thesis using seen by (simp add: tracker_inv_def) blast
  qed
qed

lemma track_append [simp]: "track t (xs @ ys) = track (track t xs) ys"
  by (induction t xs rule: track.induct) simp_all

lemma tracker_inv_track: "tracker_inv h t \<Longrightarrow> tracker_inv (h \<union> set os) (track t os)"
proof (induction t os arbitrary: h rule: track.induct)
  case (2 t v n l b os)
  then show ?case using tracker_inv_observe [OF "2.prems", of v n l b] by fastforce
qed simp

lemma all_section_numbers:
  "list_all (\<lambda>n. word_of_nat n \<in> S) [0..<Suc (unat (l :: u8))] \<longleftrightarrow> (\<forall>n \<le> l. n \<in> S)"
proof
  assume all: "list_all (\<lambda>n. word_of_nat n \<in> S) [0..<Suc (unat l)]"
  show "\<forall>n \<le> l. n \<in> S"
  proof (intro allI impI)
    fix n assume "n \<le> l"
    then have "unat n \<in> set [0..<Suc (unat l)]" by (simp add: word_le_nat_alt less_Suc_eq_le del: upt_Suc)
    then have "word_of_nat (unat n) \<in> S" using all unfolding list_all_iff by blast
    then show "n \<in> S" by simp
  qed
next
  assume all: "\<forall>n \<le> l. n \<in> S"
  have "word_of_nat n \<le> l" if "n \<le> unat l" for n
    using that unsigned_less [of l] by (simp add: word_le_nat_alt unat_of_nat)
  then show "list_all (\<lambda>n. word_of_nat n \<in> S) [0..<Suc (unat l)]"
    using all by (simp add: list_all_iff less_Suc_eq_le del: upt_Suc)
qed

lemma tracker_is_complete_iff:
  "tracker_is_complete t \<longleftrightarrow>
     \<not> st_inconsistent t \<and> (\<exists>l. st_last_section_number t = Some l \<and> (\<forall>n \<le> l. n \<in> st_seen_sections t))"
  unfolding tracker_is_complete_def all_section_numbers by (simp split: option.split)

text \<open>Two observations of a version agree when they have the same last number and, of one section, the same bytes.\<close>

definition agrees :: "u8 \<Rightarrow> u8 \<Rightarrow> (u8 \<rightharpoonup> bytes) \<Rightarrow> observation \<Rightarrow> bool" where
  "agrees v l B obs = (case obs of (v', n, l', b) \<Rightarrow> v' = v \<and> l' = l \<and> n \<le> l \<and> B n = Some b)"

definition collecting :: "u8 \<Rightarrow> u8 \<Rightarrow> (u8 \<rightharpoonup> bytes) \<Rightarrow> section_tracker \<Rightarrow> bool" where
  "collecting v l B t \<longleftrightarrow>
     (if st_version t = Some v
      then \<not> st_inconsistent t \<and> st_last_section_number t = Some l \<and> st_payloads t \<subseteq>\<^sub>m B
      else accepts_version v t)"

lemma accepts_same_version: "st_version t = Some v \<Longrightarrow> accepts_version v t"
  by (simp add: accepts_version_def)

lemma collecting_observe:
  assumes "collecting v l B t" and "n \<le> l" and "B n = Some b"
  shows "collecting v l B (snd (tracker_observe v n l b t))"
    and "st_version (snd (tracker_observe v n l b t)) = Some v"
    and "st_seen_sections (snd (tracker_observe v n l b t)) =
           insert n (if st_version t = Some v then st_seen_sections t else {})"
proof -
  have acc: "accepts_version v t"
    using assms(1) accepts_same_version by (auto simp: collecting_def split: if_splits)
  have consistent: "\<not> st_inconsistent (mark_seen v n l t)"
    using assms by (auto simp: collecting_def mark_seen_def Let_def split: if_splits)
  have held: "st_payloads (mark_seen v n l t) n \<in> {None, Some b}"
    using assms(1,3) by (auto simp: collecting_def mark_seen_payloads map_le_def dom_def split: if_splits)
  have le: "st_payloads (mark_seen v n l t) \<subseteq>\<^sub>m B"
    using assms(1) by (simp add: collecting_def mark_seen_payloads split: if_splits)
  then have le': "(st_payloads (mark_seen v n l t))(n \<mapsto> b) \<subseteq>\<^sub>m B"
    using assms(3) by (simp add: map_le_def)
  note last = mark_seen_consistent(2) [OF consistent]
  show "collecting v l B (snd (tracker_observe v n l b t))"
    using acc consistent held le le' last by (auto simp: collecting_def tracker_observe_def Let_def)
  show "st_version (snd (tracker_observe v n l b t)) = Some v"
    using acc consistent held by (auto simp: tracker_observe_def Let_def)
  show "st_seen_sections (snd (tracker_observe v n l b t)) =
          insert n (if st_version t = Some v then st_seen_sections t else {})"
    using acc consistent held mark_seen_consistent(3) [OF consistent]
    by (auto simp: tracker_observe_def Let_def)
qed

lemma track_collects:
  assumes "collecting v l B t" and "list_all (agrees v l B) os" and "os \<noteq> []"
  shows "collecting v l B (track t os) \<and> st_version (track t os) = Some v \<and>
         st_seen_sections (track t os) =
           (\<lambda>(v, n, l, b). n) ` set os \<union> (if st_version t = Some v then st_seen_sections t else {})"
  using assms
proof (induction t os rule: track.induct)
  case (2 t v' n l' b os)
  then have eq: "v' = v" "l' = l" "n \<le> l" "B n = Some b" by (auto simp: agrees_def)
  note step = collecting_observe [OF "2.prems"(1) eq(3,4)]
  show ?case
  proof (cases "os = []")
    case True
    then show ?thesis using step by (simp add: eq)
  next
    case False
    then show ?thesis using "2.IH" "2.prems" step by (simp add: eq)
  qed
qed simp

lemma observe_contradiction_kept:
  assumes "st_version t \<in> {None, Some v}" and "\<not> st_inconsistent (snd (tracker_observe v n l b t))"
  shows "st_version t = Some v \<Longrightarrow> \<not> st_inconsistent t"
    and "st_version t = Some v \<Longrightarrow> st_last_section_number t \<in> {None, Some l}"
    and "st_version t = Some v \<Longrightarrow> st_payloads t \<subseteq>\<^sub>m st_payloads (snd (tracker_observe v n l b t))"
    and "st_version (snd (tracker_observe v n l b t)) = Some v"
    and "st_last_section_number (snd (tracker_observe v n l b t)) = Some l"
    and "agrees v l (st_payloads (snd (tracker_observe v n l b t))) (v, n, l, b)"
proof -
  have acc: "accepts_version v t"
    using assms(1) accepts_same_version by (auto simp: accepts_version_def)
  have consistent: "\<not> st_inconsistent (mark_seen v n l t)"
    and held: "st_payloads (mark_seen v n l t) n \<in> {None, Some b}"
    using assms(2) acc by (auto simp: tracker_observe_def Let_def split: if_splits option.splits)
  note seen = mark_seen_consistent [OF consistent]
  show "st_version t = Some v \<Longrightarrow> \<not> st_inconsistent t"
    and "st_version t = Some v \<Longrightarrow> st_last_section_number t \<in> {None, Some l}"
    by (fact seen)+
  show "st_payloads t \<subseteq>\<^sub>m st_payloads (snd (tracker_observe v n l b t))" if "st_version t = Some v"
    using that acc held by (auto simp: tracker_observe_def Let_def mark_seen_payloads map_le_def)
  show "st_version (snd (tracker_observe v n l b t)) = Some v"
    and "st_last_section_number (snd (tracker_observe v n l b t)) = Some l"
    and "agrees v l (st_payloads (snd (tracker_observe v n l b t))) (v, n, l, b)"
    using acc consistent held seen(1,2) by (auto simp: tracker_observe_def Let_def agrees_def)
qed

lemma agrees_mono: "agrees v l B obs \<Longrightarrow> B \<subseteq>\<^sub>m B' \<Longrightarrow> agrees v l B' obs"
  by (auto simp: agrees_def map_le_def dom_def split: prod.splits)

lemma track_version:
  assumes "list_all (\<lambda>obs. fst obs = v) os" and "st_version t \<in> {None, Some v}"
  shows "st_version (track t os) = (if os = [] then st_version t else Some v)"
  using assms
proof (induction t os rule: track.induct)
  case (2 t v' n l b os)
  have "accepts_version v t" using "2.prems"(2) accepts_same_version by (auto simp: accepts_version_def)
  then have "st_version (snd (tracker_observe v n l b t)) = Some v"
    by (simp add: tracker_observe_def Let_def split: option.split)
  then show ?case using "2.IH" "2.prems"(1) by simp
qed simp

lemma consistent_track_agrees:
  assumes "list_all (\<lambda>obs. fst obs = v) os" and "os \<noteq> []"
    and "\<not> st_inconsistent (track section_tracker_default os)"
  shows "st_version (track section_tracker_default os) = Some v \<and>
         (\<exists>l. st_last_section_number (track section_tracker_default os) = Some l \<and>
              list_all (agrees v l (st_payloads (track section_tracker_default os))) os)"
  using assms
proof (induction os rule: rev_induct)
  case (snoc obs os)
  obtain n l b where obs: "obs = (v, n, l, b)" using snoc.prems(1) by (cases obs) auto
  let ?t = "track section_tracker_default os"
  show ?case
  proof (cases "os = []")
    case True
    have "st_version section_tracker_default \<in> {None, Some v}" by (simp add: section_tracker_default_def)
    from observe_contradiction_kept(4-6) [OF this, of n l b] show ?thesis
      using snoc.prems(3) by (simp add: obs True)
  next
    case False
    have all: "list_all (\<lambda>obs. fst obs = v) os" using snoc.prems(1) by simp
    then have version: "st_version ?t = Some v"
      using track_version [of v os section_tracker_default] False by (simp add: section_tracker_default_def)
    have consistent: "\<not> st_inconsistent (snd (tracker_observe v n l b ?t))"
      using snoc.prems(3) by (simp add: obs)
    have "st_version ?t \<in> {None, Some v}" using version by simp
    note step = observe_contradiction_kept [OF this consistent]
    obtain m where m: "st_last_section_number ?t = Some m" "list_all (agrees v m (st_payloads ?t)) os"
      using snoc.IH all False step(1) [OF version] by blast
    then have "m = l" using step(2) [OF version] by simp
    then have "list_all (agrees v l (st_payloads (snd (tracker_observe v n l b ?t)))) os"
      using m(2) agrees_mono [OF _ step(3) [OF version]] by (simp add: list_all_iff)
    then show ?thesis using step(4-6) by (simp add: obs)
  qed
qed simp

text \<open>
  C17. Of any sequence of sections of one version, with repetitions and in any order, the tracker
  reports the table as complete exactly when the sections all announce the same last section number,
  none is numbered above it, no two with one number have different bytes, and every number up to the
  last one occurs.
\<close>

theorem tracker_complete_iff:
  assumes "list_all (\<lambda>obs. fst obs = v) os"
  shows "tracker_is_complete (track section_tracker_default os) \<longleftrightarrow>
         (\<exists>l B. list_all (agrees v l B) os \<and> (\<forall>n \<le> l. \<exists>b. (v, n, l, b) \<in> set os))"
proof
  let ?t = "track section_tracker_default os"
  assume complete: "tracker_is_complete ?t"
  then have consistent: "\<not> st_inconsistent ?t" by (simp add: tracker_is_complete_iff)
  have "os \<noteq> []" using complete by (auto simp: tracker_is_complete_iff section_tracker_default_def)
  from consistent_track_agrees [OF assms this consistent] obtain l where
    l: "st_last_section_number ?t = Some l" "list_all (agrees v l (st_payloads ?t)) os"
       "st_version ?t = Some v" by blast
  have inv: "tracker_inv (set os) ?t" using tracker_inv_track [OF tracker_inv_default, of "{}" os] by simp
  have "\<exists>b. (v, n, l, b) \<in> set os" if "n \<le> l" for n
  proof -
    have "n \<in> dom (st_payloads ?t)"
      using complete that l(1) inv consistent unfolding tracker_is_complete_iff tracker_inv_def by auto
    then show ?thesis using inv l(1,3) unfolding tracker_inv_def by fastforce
  qed
  then show "\<exists>l B. list_all (agrees v l B) os \<and> (\<forall>n \<le> l. \<exists>b. (v, n, l, b) \<in> set os)" using l(2) by blast
next
  let ?t = "track section_tracker_default os"
  assume "\<exists>l B. list_all (agrees v l B) os \<and> (\<forall>n \<le> l. \<exists>b. (v, n, l, b) \<in> set os)"
  then obtain l B where lB: "list_all (agrees v l B) os" "\<forall>n \<le> l. \<exists>b. (v, n, l, b) \<in> set os" by blast
  have "collecting v l B section_tracker_default"
    by (simp add: collecting_def section_tracker_default_def accepts_version_def)
  moreover have "os \<noteq> []" using lB(2) by auto
  ultimately have t: "collecting v l B ?t" "st_version ?t = Some v"
      "st_seen_sections ?t = (\<lambda>(v, n, l, b). n) ` set os"
    using track_collects [OF _ lB(1)] by (auto simp: section_tracker_default_def)
  have "n \<in> st_seen_sections ?t" if "n \<le> l" for n using lB(2) that unfolding t(3) by force
  then show "tracker_is_complete ?t" using t(1,2) by (simp add: tracker_is_complete_iff collecting_def)
qed

text \<open>Two sections in reverse order with one repeated.\<close>

theorem tracker_complete_iff_witness:
  "tracker_is_complete (track section_tracker_default [(3, 1, 1, [6]), (3, 0, 1, [5]), (3, 1, 1, [6])])"
proof -
  let ?os = "[(3, 1, 1, [6]), (3, 0, 1, [5]), (3, 1, 1, [6])] :: observation list"
  have "n = 0 \<or> n = 1" if "n \<le> 1" for n :: u8
  proof -
    have "unat n \<le> 1" using that by (simp add: word_le_nat_alt)
    then consider "unat n = unat (0 :: u8)" | "unat n = unat (1 :: u8)" by fastforce
    then show ?thesis by cases (simp_all only: word_unat_eq_iff [symmetric], simp_all)
  qed
  then have "\<forall>n \<le> 1. \<exists>b. (3, n, 1, b) \<in> set ?os" by auto
  moreover have "list_all (agrees 3 1 [0 \<mapsto> [5], 1 \<mapsto> [6]]) ?os" by (simp add: agrees_def)
  ultimately have "\<exists>l B. list_all (agrees 3 l B) ?os \<and> (\<forall>n \<le> l. \<exists>b. (3, n, l, b) \<in> set ?os)" by blast
  moreover have "list_all (\<lambda>obs. fst obs = 3) ?os" by simp
  ultimately show ?thesis using tracker_complete_iff [of 3 ?os] by blast
qed

end
