(* ===== verification/Arib_String.thy ===== *)
theory Arib_String
  imports Arib_Tables
begin

section \<open>Decoding of ARIB strings\<close>

text \<open>
  \<open>arib_si_engine_rs/src/core/arib_string.rs\<close>: the decoder of the 8-bit character code of service information,
  with its designations \<open>G0\<close> to \<open>G3\<close>, invocations \<open>GL\<close> and \<open>GR\<close>, single shifts, control sequences
  and external characters. It runs under one of two policies: the strict one stops at the first
  error, the replacing one emits a replacement character and goes on. One turn of the loop of
  \<open>decode_arib_string_with_policy\<close> is \<open>arib_step\<close>, with one definition for each group of bytes. Counters of type
  \<open>usize\<close> that saturate are natural numbers: they never exceed the length of the input. The fixed
  texts of the \<open>reason\<close> of a diagnostic are the constructors of \<open>arib_reason\<close>.
\<close>

subsection \<open>Types\<close>

datatype arib_string_decode_error =
    TruncatedEscape | TruncatedGraphic | UnsupportedEscape | UnsupportedControl | MalformedCsi
  | MiddleSizeGraphic

datatype error_policy = Strict | Replace

datatype arib_reason =
    Middle_size_non_alphanumeric | Truncated_graphic | Unsupported_or_truncated_single_shift
  | Truncated_escape | Unsupported_escape | Malformed_or_truncated_csi | Bad_second_byte
  | Unsupported_byte | Replacement_policy_failure arib_string_decode_error

record arib_diagnostic_entry =
  ae_offset :: nat
  ae_input_prefix_hex :: string
  ae_code_set_or_control :: string
  ae_reason :: arib_reason
  ae_replacement_emitted :: bool

record arib_diagnostic =
  ad_replacement_count :: nat
  ad_unsupported_escape_count :: nat
  ad_truncated_escape_count :: nat
  ad_truncated_graphic_count :: nat
  ad_entries :: "arib_diagnostic_entry list"

definition arib_diagnostic_default :: arib_diagnostic where
  "arib_diagnostic_default = \<lparr>ad_replacement_count = 0, ad_unsupported_escape_count = 0,
     ad_truncated_escape_count = 0, ad_truncated_graphic_count = 0, ad_entries = []\<rparr>"

datatype graphic_set = Alnum | Hiragana | Katakana | Kanji | AdditionalSymbols

record invocation_state =
  is_g0 :: graphic_set
  is_g1 :: graphic_set
  is_g2 :: graphic_set
  is_g3 :: graphic_set
  is_gl :: graphic_set
  is_gr :: graphic_set
  is_middle_size :: bool

definition invocation_default :: invocation_state where
  "invocation_default = \<lparr>is_g0 = Kanji, is_g1 = Alnum, is_g2 = Hiragana, is_g3 = Katakana,
     is_gl = Kanji, is_gr = Hiragana, is_middle_size = False\<rparr>"

subsection \<open>Diagnostics\<close>

definition hex_digit :: "u8 \<Rightarrow> char" where
  "hex_digit nibble = ''0123456789abcdef'' ! unat nibble"

definition bytes_hex_lower :: "bytes \<Rightarrow> string" where
  "bytes_hex_lower bs = concat (map (\<lambda>byte. [hex_digit (drop_bit 4 byte), hex_digit (byte AND 0x0f)]) bs)"

definition record_entry :: "bytes \<Rightarrow> nat \<Rightarrow> string \<Rightarrow> arib_reason \<Rightarrow> bool \<Rightarrow> arib_diagnostic \<Rightarrow> arib_diagnostic" where
  "record_entry bs offset code reason emitted d =
     d\<lparr>ad_entries := ad_entries d @
         [\<lparr>ae_offset = offset, ae_input_prefix_hex = bytes_hex_lower (take 8 (drop offset bs)),
           ae_code_set_or_control = code, ae_reason = reason, ae_replacement_emitted = emitted\<rparr>]\<rparr>"

definition count_replacement :: "arib_diagnostic \<Rightarrow> arib_diagnostic" where
  "count_replacement d = d\<lparr>ad_replacement_count := ad_replacement_count d + 1\<rparr>"

definition count_truncated_graphic :: "arib_diagnostic \<Rightarrow> arib_diagnostic" where
  "count_truncated_graphic d = d\<lparr>ad_truncated_graphic_count := ad_truncated_graphic_count d + 1\<rparr>"

definition count_truncated_escape :: "arib_diagnostic \<Rightarrow> arib_diagnostic" where
  "count_truncated_escape d = d\<lparr>ad_truncated_escape_count := ad_truncated_escape_count d + 1\<rparr>"

definition count_unsupported_escape :: "arib_diagnostic \<Rightarrow> arib_diagnostic" where
  "count_unsupported_escape d = d\<lparr>ad_unsupported_escape_count := ad_unsupported_escape_count d + 1\<rparr>"

subsection \<open>Graphic sets and escapes\<close>

definition is_two_byte_graphic :: "graphic_set \<Rightarrow> bool" where
  "is_two_byte_graphic s \<longleftrightarrow> s = Kanji \<or> s = AdditionalSymbols"

definition two_byte_graphic_set :: "u8 \<Rightarrow> arib_string_decode_error + graphic_set" where
  "two_byte_graphic_set final_byte =
     (if final_byte = 0x42 \<or> final_byte = 0x40 then Inr Kanji
      else if final_byte = 0x3b then Inr AdditionalSymbols
      else Inl UnsupportedEscape)"

definition map_kanji :: "u8 \<Rightarrow> u8 \<Rightarrow> uchar" where
  "map_kanji first second = map_jis_x0208 first second"

definition map_two_byte_graphic :: "graphic_set \<Rightarrow> u8 \<Rightarrow> u8 \<Rightarrow> uchar" where
  "map_two_byte_graphic s first second =
     (case s of
        Kanji \<Rightarrow> map_kanji first second
      | AdditionalSymbols \<Rightarrow> map_arib_additional_symbol first second
      | _ \<Rightarrow> replacement_char)"

definition decode_single_shift :: "graphic_set \<Rightarrow> bytes \<Rightarrow> nat \<Rightarrow> arib_string_decode_error + uchar \<times> nat" where
  "decode_single_shift s bs index =
     (if length bs \<le> index + 1 then Inl TruncatedGraphic
      else
        let first = bs ! (index + 1)
        in case s of
             Alnum \<Rightarrow> Inr (unat first, 1)
           | Hiragana \<Rightarrow> Inr (map_hiragana first, 1)
           | Katakana \<Rightarrow> Inr (map_katakana first, 1)
           | _ \<Rightarrow>
               if length bs \<le> index + 2 then Inl TruncatedGraphic
               else Inr (map_two_byte_graphic s first (bs ! (index + 2)), 2))"

text \<open>The designation of a set to \<open>G0\<close> also invokes it in \<open>GL\<close>.\<close>

definition designate :: "u8 \<Rightarrow> graphic_set \<Rightarrow> invocation_state \<Rightarrow> invocation_state" where
  "designate intermediate s st =
     (if intermediate = 0x28 then st\<lparr>is_g0 := s, is_gl := s\<rparr>
      else if intermediate = 0x29 then st\<lparr>is_g1 := s\<rparr>
      else if intermediate = 0x2a then st\<lparr>is_g2 := s\<rparr>
      else st\<lparr>is_g3 := s\<rparr>)"

definition is_designator :: "u8 \<Rightarrow> bool" where
  "is_designator b \<longleftrightarrow> b = 0x28 \<or> b = 0x29 \<or> b = 0x2a \<or> b = 0x2b"

definition is_two_byte_final :: "u8 \<Rightarrow> bool" where
  "is_two_byte_final b \<longleftrightarrow> b = 0x42 \<or> b = 0x40 \<or> b = 0x3b"

definition one_byte_set :: "u8 \<Rightarrow> arib_string_decode_error + graphic_set" where
  "one_byte_set final_byte =
     (if final_byte = 0x42 \<or> final_byte = 0x4a then Inr Alnum
      else if final_byte = 0x49 then Inr Katakana
      else if final_byte = 0x30 then Inr Hiragana
      else Inl UnsupportedEscape)"

definition apply_escape :: "invocation_state \<Rightarrow> bytes \<Rightarrow> arib_string_decode_error + nat \<times> invocation_state" where
  "apply_escape st bs =
     (if length bs < 2 then Inl TruncatedEscape
      else if bs ! 1 = 0x6e then Inr (2, st\<lparr>is_gl := is_g2 st\<rparr>)
      else if bs ! 1 = 0x6f then Inr (2, st\<lparr>is_gl := is_g3 st\<rparr>)
      else if bs ! 1 = 0x7e then Inr (2, st\<lparr>is_gr := is_g1 st\<rparr>)
      else if bs ! 1 = 0x7d then Inr (2, st\<lparr>is_gr := is_g2 st\<rparr>)
      else if bs ! 1 = 0x7c then Inr (2, st\<lparr>is_gr := is_g3 st\<rparr>)
      else if length bs < 3 then Inl TruncatedEscape
      else if bs ! 1 = 0x24 \<and> is_designator (bs ! 2) \<and> length bs < 4 then Inl TruncatedEscape
      else if is_designator (bs ! 1) then
        (case one_byte_set (bs ! 2) of
           Inl e \<Rightarrow> Inl e
         | Inr s \<Rightarrow> Inr (3, designate (bs ! 1) s st))
      else if bs ! 1 = 0x24 \<and> is_two_byte_final (bs ! 2) then
        (case two_byte_graphic_set (bs ! 2) of
           Inl e \<Rightarrow> Inl e
         | Inr s \<Rightarrow> Inr (3, designate 0x28 s st))
      else if bs ! 1 = 0x24 \<and> is_designator (bs ! 2) \<and> 4 \<le> length bs \<and> is_two_byte_final (bs ! 3) then
        (case two_byte_graphic_set (bs ! 3) of
           Inl e \<Rightarrow> Inl e
         | Inr s \<Rightarrow> Inr (4, designate (bs ! 2) s st))
      else Inl UnsupportedEscape)"

definition unsupported_escape_sequence_length :: "bytes \<Rightarrow> nat" where
  "unsupported_escape_sequence_length bs =
     (if length bs < 2 then 1
      else if bs ! 1 = 0x24 \<and> 2 < length bs \<and> is_designator (bs ! 2) then min (length bs) 4
      else if bs ! 1 = 0x24 \<or> is_designator (bs ! 1) then min (length bs) 3
      else min (length bs) 2)"

subsection \<open>Control sequences and external characters\<close>

fun csi_end :: "nat \<Rightarrow> bytes \<Rightarrow> arib_string_decode_error + nat" where
  "csi_end index [] = Inl MalformedCsi"
| "csi_end index (byte # bs) =
     (if 0x40 \<le> byte \<and> byte \<le> 0x7e then Inr (index + 1)
      else if \<not> (0x20 \<le> byte \<and> byte \<le> 0x3f) then Inl MalformedCsi
      else csi_end (index + 1) bs)"

definition consume_csi :: "bytes \<Rightarrow> arib_string_decode_error + nat" where
  "consume_csi bs =
     (case bs of
        [] \<Rightarrow> Inl MalformedCsi
      | b # rest \<Rightarrow> if b \<noteq> 0x9b then Inl MalformedCsi else csi_end 1 rest)"

datatype xcs_marker = Xcs_Start | Xcs_End

definition csi_xcs_marker :: "bytes \<Rightarrow> arib_string_decode_error + nat \<times> xcs_marker option" where
  "csi_xcs_marker bs =
     (case consume_csi bs of
        Inl e \<Rightarrow> Inl e
      | Inr consumed \<Rightarrow>
          Inr (consumed,
            if consumed = 4 \<and> bs ! 2 = 0x20 \<and> bs ! 3 = 0x66 then
              if bs ! 1 = 0x30 then Some Xcs_Start else if bs ! 1 = 0x31 then Some Xcs_End else None
            else None))"

lemma csi_end_bounds: "csi_end i bs = Inr n \<Longrightarrow> i < n \<and> n \<le> i + length bs"
  by (induction i bs rule: csi_end.induct) (fastforce split: if_splits)+

lemma consume_csi_bounds: "consume_csi bs = Inr n \<Longrightarrow> 1 < n \<and> n \<le> length bs"
  by (auto simp: consume_csi_def dest: csi_end_bounds split: list.splits if_splits)

lemma csi_xcs_marker_bounds: "csi_xcs_marker bs = Inr (n, m) \<Longrightarrow> 1 < n \<and> n \<le> length bs"
  by (auto simp: csi_xcs_marker_def dest: consume_csi_bounds split: sum.splits)

text \<open>The loop of \<open>consume_xcs_block\<close>; \<open>rest\<close> is the slice from \<open>cursor\<close> on.\<close>

function xcs_scan :: "nat \<Rightarrow> bytes \<Rightarrow> arib_string_decode_error + nat option" where
  "xcs_scan cursor rest =
     (case rest of
        [] \<Rightarrow> Inl MalformedCsi
      | b # tail \<Rightarrow>
          if b \<noteq> 0x9b then xcs_scan (cursor + 1) tail
          else
            (case csi_xcs_marker rest of
               Inl e \<Rightarrow> Inl e
             | Inr (consumed, marker) \<Rightarrow>
                 (case marker of
                    Some Xcs_End \<Rightarrow> Inr (Some (cursor + consumed))
                  | Some Xcs_Start \<Rightarrow> Inl MalformedCsi
                  | None \<Rightarrow> xcs_scan (cursor + consumed) (drop consumed rest))))"
  by pat_completeness auto
termination
  by (relation "measure (\<lambda>(cursor, rest). length rest)") (auto dest: csi_xcs_marker_bounds)

declare xcs_scan.simps [simp del]

definition consume_xcs_block :: "bytes \<Rightarrow> arib_string_decode_error + nat option" where
  "consume_xcs_block bs =
     (case csi_xcs_marker bs of
        Inl e \<Rightarrow> Inl e
      | Inr (start_len, marker) \<Rightarrow>
          if marker \<noteq> Some Xcs_Start then Inr None else xcs_scan start_len (drop start_len bs))"

subsection \<open>One turn of the decoding loop\<close>

text \<open>
  A turn goes on at an index with the state, output and diagnostics so far, leaves the loop, or
  returns an error. The index of \<open>Next\<close> includes the increment at the end of the loop body.
\<close>

datatype arib_outcome =
    Next nat invocation_state ustring arib_diagnostic
  | Stop invocation_state ustring arib_diagnostic
  | Fail arib_string_decode_error

definition strict_or :: "error_policy \<Rightarrow> arib_string_decode_error \<Rightarrow> arib_outcome \<Rightarrow> arib_outcome" where
  "strict_or policy e r = (if policy = Strict then Fail e else r)"

definition replaced :: "bytes \<Rightarrow> nat \<Rightarrow> string \<Rightarrow> arib_reason \<Rightarrow> arib_diagnostic \<Rightarrow> arib_diagnostic" where
  "replaced bs index code reason d = record_entry bs index code reason True (count_replacement d)"

definition step_single_shift ::
  "error_policy \<Rightarrow> bytes \<Rightarrow> nat \<Rightarrow> invocation_state \<Rightarrow> ustring \<Rightarrow> arib_diagnostic \<Rightarrow> arib_outcome" where
  "step_single_shift policy bs index st out d =
     (let s = (if bs ! index = 0x19 then is_g2 st else is_g3 st)
      in if is_middle_size st \<and> s \<noteq> Alnum then
           strict_or policy MiddleSizeGraphic
             (Next (index + (if is_two_byte_graphic s then 3 else 2)) st (out @ [replacement_char])
               (replaced bs index ''MSZ/single_shift'' Middle_size_non_alphanumeric d))
         else
           (case decode_single_shift s bs index of
              Inr (v, consumed) \<Rightarrow> Next (index + consumed + 1) st (out @ [v]) d
            | Inl TruncatedGraphic \<Rightarrow>
                strict_or policy TruncatedGraphic
                  (Stop st (out @ [replacement_char])
                    (replaced bs index ''graphic'' Truncated_graphic (count_truncated_graphic d)))
            | Inl e \<Rightarrow>
                strict_or policy e
                  (Stop st (out @ [replacement_char])
                    (replaced bs index ''single_shift'' Unsupported_or_truncated_single_shift d))))"

definition step_escape ::
  "error_policy \<Rightarrow> bytes \<Rightarrow> nat \<Rightarrow> invocation_state \<Rightarrow> ustring \<Rightarrow> arib_diagnostic \<Rightarrow> arib_outcome" where
  "step_escape policy bs index st out d =
     (case apply_escape st (drop index bs) of
        Inr (consumed, st') \<Rightarrow> Next (index + (consumed - 1) + 1) st' out d
      | Inl TruncatedEscape \<Rightarrow>
          strict_or policy TruncatedEscape
            (Stop st (out @ [replacement_char])
              (replaced bs index ''ESC'' Truncated_escape (count_truncated_escape d)))
      | Inl TruncatedGraphic \<Rightarrow>
          strict_or policy TruncatedGraphic
            (Stop st (out @ [replacement_char])
              (replaced bs index ''ESC/graphic'' Truncated_graphic (count_truncated_graphic d)))
      | Inl e \<Rightarrow>
          strict_or policy e
            (Next (index + (unsupported_escape_sequence_length (drop index bs) - 1) + 1) st
              (out @ [replacement_char])
              (replaced bs index ''ESC'' Unsupported_escape (count_unsupported_escape d))))"

definition malformed_csi ::
  "error_policy \<Rightarrow> arib_string_decode_error \<Rightarrow> bytes \<Rightarrow> nat \<Rightarrow> invocation_state \<Rightarrow> ustring \<Rightarrow>
     arib_diagnostic \<Rightarrow> arib_outcome" where
  "malformed_csi policy e bs index st out d =
     strict_or policy e
       (Stop st (out @ [replacement_char]) (replaced bs index ''CSI/XCS'' Malformed_or_truncated_csi d))"

definition step_csi ::
  "error_policy \<Rightarrow> bytes \<Rightarrow> nat \<Rightarrow> invocation_state \<Rightarrow> ustring \<Rightarrow> arib_diagnostic \<Rightarrow> arib_outcome" where
  "step_csi policy bs index st out d =
     (case consume_xcs_block (drop index bs) of
        Inr (Some consumed) \<Rightarrow> Next (index + (consumed - 1) + 1) st out d
      | Inr None \<Rightarrow>
          (case consume_csi (drop index bs) of
             Inr consumed \<Rightarrow> Next (index + (consumed - 1) + 1) st out d
           | Inl e \<Rightarrow> malformed_csi policy e bs index st out d)
      | Inl e \<Rightarrow> malformed_csi policy e bs index st out d)"

definition in_range :: "u8 \<Rightarrow> u8 \<Rightarrow> u8 \<Rightarrow> bool" where
  "in_range lo hi b \<longleftrightarrow> lo \<le> b \<and> b \<le> hi"

text \<open>
  The arms for \<open>GL\<close> (bytes \<open>0x21\<close> to \<open>0x7e\<close>) and \<open>GR\<close> (bytes \<open>0xa1\<close> to \<open>0xfe\<close>) differ in the set, the
  texts of the diagnostics, the range of a second byte and in that \<open>GR\<close> clears the high bit.
\<close>

definition step_middle_size ::
  "string \<Rightarrow> graphic_set \<Rightarrow> error_policy \<Rightarrow> bytes \<Rightarrow> nat \<Rightarrow> invocation_state \<Rightarrow> ustring \<Rightarrow>
     arib_diagnostic \<Rightarrow> arib_outcome" where
  "step_middle_size code s policy bs index st out d =
     strict_or policy MiddleSizeGraphic
       (Next (index + (if is_two_byte_graphic s \<and> index + 1 < length bs then 1 else 0) + 1) st
         (out @ [replacement_char]) (replaced bs index code Middle_size_non_alphanumeric d))"

definition step_graphic ::
  "string \<Rightarrow> graphic_set \<Rightarrow> u8 \<Rightarrow> (u8 \<Rightarrow> bool) \<Rightarrow> (u8 \<Rightarrow> u8) \<Rightarrow> error_policy \<Rightarrow> bytes \<Rightarrow> nat \<Rightarrow>
     invocation_state \<Rightarrow> ustring \<Rightarrow> arib_diagnostic \<Rightarrow> arib_outcome" where
  "step_graphic code s byte second_ok norm policy bs index st out d =
     (case s of
        Alnum \<Rightarrow> Next (index + 1) st (out @ [unat byte]) d
      | Hiragana \<Rightarrow> Next (index + 1) st (out @ [map_hiragana byte]) d
      | Katakana \<Rightarrow> Next (index + 1) st (out @ [map_katakana byte]) d
      | _ \<Rightarrow>
          if length bs \<le> index + 1 then
            strict_or policy TruncatedGraphic
              (Stop st (out @ [replacement_char])
                (replaced bs index code Truncated_graphic (count_truncated_graphic d)))
          else if \<not> second_ok (bs ! (index + 1)) then
            strict_or policy UnsupportedControl
              (Next (index + 1) st (out @ [replacement_char]) (replaced bs index code Bad_second_byte d))
          else Next (index + 1 + 1) st (out @ [map_two_byte_graphic s byte (norm (bs ! (index + 1)))]) d)"

definition arib_step ::
  "error_policy \<Rightarrow> bytes \<Rightarrow> nat \<Rightarrow> invocation_state \<Rightarrow> ustring \<Rightarrow> arib_diagnostic \<Rightarrow> arib_outcome" where
  "arib_step policy bs index st out d =
     (let byte = bs ! index
      in if byte = 0x00 then Next (index + 1) st out d
         else if byte = 0x0d then Next (index + 1) st (out @ [10]) d
         else if byte = 0x0e then Next (index + 1) (st\<lparr>is_gl := is_g1 st\<rparr>) out d
         else if byte = 0x0f then Next (index + 1) (st\<lparr>is_gl := is_g0 st\<rparr>) out d
         else if byte = 0x19 \<or> byte = 0x1d then step_single_shift policy bs index st out d
         else if byte = 0x1b then step_escape policy bs index st out d
         else if byte = 0x20 then Next (index + 1) st (out @ [32]) d
         else if byte = 0x89 then Next (index + 1) (st\<lparr>is_middle_size := True\<rparr>) out d
         else if byte = 0x8a then Next (index + 1) (st\<lparr>is_middle_size := False\<rparr>) out d
         else if byte = 0x9b then step_csi policy bs index st out d
         else if in_range 0x21 0x7e byte then
           if is_middle_size st \<and> is_gl st \<noteq> Alnum then
             step_middle_size ''MSZ/GL'' (is_gl st) policy bs index st out d
           else step_graphic ''GL/Kanji'' (is_gl st) byte (in_range 0x21 0x7e) (\<lambda>n. n) policy bs index st out d
         else if in_range 0xa1 0xfe byte then
           if is_middle_size st \<and> is_gr st \<noteq> Alnum then
             step_middle_size ''MSZ/GR'' (is_gr st) policy bs index st out d
           else step_graphic ''GR/Kanji'' (is_gr st) (byte AND 0x7f)
                  (\<lambda>n. in_range 0xa1 0xfe n \<or> in_range 0x21 0x7e n) (\<lambda>n. n AND 0x7f) policy bs index st out d
         else strict_or policy UnsupportedControl
                (Next (index + 1) st (out @ [replacement_char])
                  (replaced bs index ''control_or_private'' Unsupported_byte d)))"

lemma arib_step_advances: "arib_step policy bs index st out d = Next i st' out' d' \<Longrightarrow> index < i"
  by (auto simp: arib_step_def step_single_shift_def step_escape_def step_csi_def step_middle_size_def
        step_graphic_def malformed_csi_def strict_or_def Let_def
        split: if_splits sum.splits prod.splits option.splits graphic_set.splits
          arib_string_decode_error.splits)

subsection \<open>The loop and its entry points\<close>

function decode_loop ::
  "error_policy \<Rightarrow> bytes \<Rightarrow> nat \<Rightarrow> invocation_state \<Rightarrow> ustring \<Rightarrow> arib_diagnostic \<Rightarrow>
     arib_string_decode_error + ustring \<times> arib_diagnostic \<times> invocation_state" where
  "decode_loop policy bs index st out d =
     (if index < length bs then
        (case arib_step policy bs index st out d of
           Next index' st' out' d' \<Rightarrow> decode_loop policy bs index' st' out' d'
         | Stop st' out' d' \<Rightarrow> Inr (out', d', st')
         | Fail e \<Rightarrow> Inl e)
      else Inr (out, d, st))"
  by pat_completeness auto
termination
  by (relation "measure (\<lambda>(policy, bs, index, st, out, d). length bs - index)")
    (auto dest!: arib_step_advances)

declare decode_loop.simps [simp del]

text \<open>\<open>trim_matches('\0')\<close>\<close>

definition trim_nul :: "ustring \<Rightarrow> ustring" where
  "trim_nul out = rev (dropWhile (\<lambda>c. c = 0) (rev (dropWhile (\<lambda>c. c = 0) out)))"

definition decode_arib_string_with_policy ::
  "bytes \<Rightarrow> invocation_state \<Rightarrow> error_policy \<Rightarrow>
     arib_string_decode_error + ustring \<times> arib_diagnostic \<times> invocation_state" where
  "decode_arib_string_with_policy bs st policy =
     (case decode_loop policy bs 0 st [] arib_diagnostic_default of
        Inl e \<Rightarrow> Inl e
      | Inr (out, d, st') \<Rightarrow> Inr (trim_nul out, d, st'))"

definition arib_decode :: "invocation_state \<Rightarrow> bytes \<Rightarrow> arib_string_decode_error + ustring \<times> invocation_state" where
  "arib_decode st bs =
     (case decode_arib_string_with_policy bs st Strict of
        Inl e \<Rightarrow> Inl e
      | Inr (decoded, _, next_state) \<Rightarrow> Inr (decoded, next_state))"

definition decode_arib_string_replacing :: "bytes \<Rightarrow> invocation_state \<Rightarrow> ustring \<times> arib_diagnostic" where
  "decode_arib_string_replacing bs st =
     (case decode_arib_string_with_policy bs st Replace of
        Inr (decoded, d, _) \<Rightarrow> (decoded, d)
      | Inl e \<Rightarrow>
          ([replacement_char],
           record_entry bs 0 ''decoder'' (Replacement_policy_failure e) True
             (arib_diagnostic_default\<lparr>ad_replacement_count := 1\<rparr>)))"

definition lossy_diagnostic :: "invocation_state \<Rightarrow> bytes \<Rightarrow> arib_diagnostic" where
  "lossy_diagnostic st bs = snd (decode_arib_string_replacing bs st)"

definition decode_arib_string_lossy :: "bytes \<Rightarrow> ustring \<times> arib_diagnostic" where
  "decode_arib_string_lossy bs = decode_arib_string_replacing bs invocation_default"

subsection \<open>Strict and replacing decoding agree\<close>

text \<open>
  Where the strict decoder goes on the replacing one does the same and records nothing; where it
  fails the replacing one counts one more replacement.
\<close>

definition agree :: "arib_outcome \<Rightarrow> arib_outcome \<Rightarrow> arib_diagnostic \<Rightarrow> bool" where
  "agree strict replacing d =
     (case strict of
        Next i st out d' \<Rightarrow> d' = d \<and> replacing = strict
      | Stop st out d' \<Rightarrow> False
      | Fail e \<Rightarrow>
          (case replacing of
             Next i st out d' \<Rightarrow> ad_replacement_count d' = ad_replacement_count d + 1
           | Stop st out d' \<Rightarrow> ad_replacement_count d' = ad_replacement_count d + 1
           | Fail e \<Rightarrow> False))"

lemma replaced_count [simp]: "ad_replacement_count (replaced bs i c r d) = ad_replacement_count d + 1"
  by (simp add: replaced_def record_entry_def count_replacement_def)

lemma count_other [simp]:
  "ad_replacement_count (count_truncated_graphic d) = ad_replacement_count d"
  "ad_replacement_count (count_truncated_escape d) = ad_replacement_count d"
  "ad_replacement_count (count_unsupported_escape d) = ad_replacement_count d"
  by (simp_all add: count_truncated_graphic_def count_truncated_escape_def count_unsupported_escape_def)

lemma agree_intros [simp]:
  "agree (Next i st out d) (Next i st out d) d"
  "ad_replacement_count d' = ad_replacement_count d + 1 \<Longrightarrow>
     agree (strict_or Strict e (Next i st out d')) (strict_or Replace e (Next i st out d')) d"
  "ad_replacement_count d' = ad_replacement_count d + 1 \<Longrightarrow>
     agree (strict_or Strict e (Stop st out d')) (strict_or Replace e (Stop st out d')) d"
  by (simp_all add: agree_def strict_or_def)

lemma arib_step_agree: "agree (arib_step Strict bs i st out d) (arib_step Replace bs i st out d) d"
proof -
  have "agree (step_single_shift Strict bs i st out d) (step_single_shift Replace bs i st out d) d"
    by (simp add: step_single_shift_def Let_def split: sum.split prod.split arib_string_decode_error.split)
  moreover have "agree (step_escape Strict bs i st out d) (step_escape Replace bs i st out d) d"
    by (simp add: step_escape_def split: sum.split prod.split arib_string_decode_error.split)
  moreover have "agree (step_csi Strict bs i st out d) (step_csi Replace bs i st out d) d"
    by (simp add: step_csi_def malformed_csi_def split: sum.split option.split)
  moreover have "agree (step_middle_size c s Strict bs i st out d) (step_middle_size c s Replace bs i st out d) d"
    for c s by (simp add: step_middle_size_def)
  moreover have "agree (step_graphic c s b ok norm Strict bs i st out d)
      (step_graphic c s b ok norm Replace bs i st out d) d" for c s b ok norm
    by (simp add: step_graphic_def split: graphic_set.split)
  ultimately show ?thesis by (simp add: arib_step_def Let_def)
qed

lemma replace_never_fails: "arib_step Replace bs i st out d \<noteq> Fail e"
  using arib_step_agree [of bs i st out d] by (auto simp: agree_def split: arib_outcome.splits)

lemma replace_step_count:
  "arib_step Replace bs i st out d = Next i' st' out' d' \<Longrightarrow> ad_replacement_count d \<le> ad_replacement_count d'"
  using arib_step_agree [of bs i st out d] by (auto simp: agree_def split: arib_outcome.splits)

lemma replace_loop_count:
  "\<exists>out' d' st'. decode_loop Replace bs i st out d = Inr (out', d', st') \<and>
     ad_replacement_count d \<le> ad_replacement_count d'"
proof (induction Replace bs i st out d rule: decode_loop.induct)
  case (1 bs i st out d)
  show ?case
  proof (cases "i < length bs")
    case True
    show ?thesis
    proof (cases "arib_step Replace bs i st out d")
      case (Next i' st' out' d')
      then show ?thesis
        using "1" [OF True Next] replace_step_count [OF Next]
        by (subst decode_loop.simps) (auto simp: True intro: order_trans)
    next
      case (Stop st' out' d')
      then have "ad_replacement_count d \<le> ad_replacement_count d'"
        using arib_step_agree [of bs i st out d] by (auto simp: agree_def split: arib_outcome.splits)
      then show ?thesis by (subst decode_loop.simps) (simp add: True Stop)
    qed (simp add: replace_never_fails)
  qed (simp add: decode_loop.simps)
qed

lemma strict_loop_agrees:
  "case decode_loop Strict bs i st out d of
     Inr (out', d', st') \<Rightarrow> d' = d \<and> decode_loop Replace bs i st out d = Inr (out', d, st')
   | Inl e \<Rightarrow>
       (\<exists>out' d' st'. decode_loop Replace bs i st out d = Inr (out', d', st') \<and>
          ad_replacement_count d < ad_replacement_count d')"
proof (induction Strict bs i st out d rule: decode_loop.induct)
  case (1 bs i st out d)
  note ag = arib_step_agree [of bs i st out d]
  show ?case
  proof (cases "i < length bs")
    case True
    show ?thesis
    proof (cases "arib_step Strict bs i st out d")
      case (Next i' st' out' d')
      then have step: "arib_step Replace bs i st out d = Next i' st' out' d'" and same: "d' = d"
        using ag by (simp_all add: agree_def)
      have "decode_loop Strict bs i st out d = decode_loop Strict bs i' st' out' d'"
        "decode_loop Replace bs i st out d = decode_loop Replace bs i' st' out' d'"
        using True Next step by (simp_all add: decode_loop.simps [of _ bs i])
      then show ?thesis using "1" [OF True Next] same by (simp only:)
    next
      case (Stop st' out' d')
      then show ?thesis using ag by (simp add: agree_def)
    next
      case (Fail e)
      then show ?thesis
      proof (cases "arib_step Replace bs i st out d")
        case (Next i' st' out' d')
        then have "ad_replacement_count d < ad_replacement_count d'" using ag Fail by (simp add: agree_def)
        then show ?thesis
          using replace_loop_count [of bs i' st' out' d'] True Fail Next
          by (auto simp: decode_loop.simps [of _ bs i])
      next
        case (Stop st' out' d')
        then show ?thesis using ag Fail True by (simp add: agree_def decode_loop.simps [of _ bs i])
      qed (simp add: replace_never_fails)
    qed
  qed (simp add: decode_loop.simps)
qed

text \<open>
  C18. The two decoders of a text agree. The strict decoder accepts a byte string exactly when the
  replacing decoder counts no replacement in its diagnostic, and then both give the same text; and decoding
  under the replacing policy never fails, so the fallback for its failure is never taken.
  What is counted are the defects of the coding: truncation, and controls and escapes that are not
  supported. A code that is well formed but missing in a character table is not counted: both decoders
  give the replacement character for it and go on, as the next lemma shows.
\<close>

theorem arib_strict_iff_uncounted:
  "((\<exists>st'. arib_decode st bs = Inr (text, st')) \<longleftrightarrow>
     fst (decode_arib_string_replacing bs st) = text \<and> ad_replacement_count (lossy_diagnostic st bs) = 0) \<and>
   \<not> isl (decode_arib_string_with_policy bs st Replace)"
  using strict_loop_agrees [of bs 0 st "[]" arib_diagnostic_default]
  by (auto simp: arib_decode_def decode_arib_string_replacing_def lossy_diagnostic_def
        decode_arib_string_with_policy_def arib_diagnostic_default_def split: sum.splits)

subsection \<open>Single characters\<close>

text \<open>The begin of a text, where kanji are invoked to the left and hiragana to the right.\<close>

lemma graphic_bytes:
  fixes b :: u8
  assumes "in_range 0x21 0x7e b"
  shows "b \<notin> {0x00, 0x0d, 0x0e, 0x0f, 0x19, 0x1d, 0x1b, 0x20, 0x89, 0x8a, 0x9b}"
    and "0x80 + b \<notin> {0x00, 0x0d, 0x0e, 0x0f, 0x19, 0x1d, 0x1b, 0x20, 0x89, 0x8a, 0x9b}"
    and "\<not> in_range 0x21 0x7e (0x80 + b)" and "in_range 0xa1 0xfe (0x80 + b)" and "(0x80 + b) AND 0x7f = b"
proof -
  have b: "0x21 \<le> unat b" "unat b \<le> 0x7e" using assms by (simp_all add: in_range_def word_le_nat_alt)
  then have shifted: "unat (0x80 + b) = 0x80 + unat b" by (simp add: unat_word_ariths)
  show "b \<notin> {0x00, 0x0d, 0x0e, 0x0f, 0x19, 0x1d, 0x1b, 0x20, 0x89, 0x8a, 0x9b}"
    using b by (auto simp: word_unat_eq_iff)
  show "0x80 + b \<notin> {0x00, 0x0d, 0x0e, 0x0f, 0x19, 0x1d, 0x1b, 0x20, 0x89, 0x8a, 0x9b}"
    using b unfolding insert_iff empty_iff word_unat_eq_iff [where 'a = 8] shifted by simp
  show "\<not> in_range 0x21 0x7e (0x80 + b)" "in_range 0xa1 0xfe (0x80 + b)"
    using b unfolding in_range_def word_le_nat_alt shifted by simp_all
  have "unat ((0x80 + b) AND 0x7f) = unat b"
    using b by (simp add: and_mask_lits unsigned_take_bit_eq take_bit_nat_def shifted)
  then show "(0x80 + b) AND 0x7f = b" by (simp only: word_unat_eq_iff)
qed

text \<open>A code of two bytes is read from the kanji table, in both policies.\<close>

lemma decode_kanji_code:
  assumes "in_range 0x21 0x7e f" and "in_range 0x21 0x7e n"
  shows "decode_loop policy [f, n] 0 invocation_default [] arib_diagnostic_default =
           Inr ([map_jis_x0208 f n], arib_diagnostic_default, invocation_default)"
  using assms graphic_bytes(1) [OF assms(1)]
  by (simp add: decode_loop.simps arib_step_def invocation_default_def step_graphic_def map_two_byte_graphic_def
      map_kanji_def)

lemma trim_nul_single [simp]: "c \<noteq> 0 \<Longrightarrow> trim_nul [c] = [c]"
  by (simp add: trim_nul_def)

lemma unmapped_code_accepted:
  assumes "in_range 0x21 0x7e f" and "in_range 0x21 0x7e n" and "map_jis_x0208 f n = replacement_char"
  shows "arib_decode invocation_default [f, n] = Inr ([replacement_char], invocation_default)"
    and "ad_replacement_count (lossy_diagnostic invocation_default [f, n]) = 0"
  unfolding arib_decode_def lossy_diagnostic_def decode_arib_string_replacing_def
    decode_arib_string_with_policy_def decode_kanji_code [OF assms(1,2)] assms(3)
  by (simp_all add: replacement_char_def arib_diagnostic_default_def)

text \<open>
  C39. Kana are decoded to themselves, however they are coded. At the begin of a text, the code \<open>n\<close> of a kana
  gives the hiragana at this place of the Unicode block as a single byte with the high bit set and behind a
  single shift to G2, and the katakana behind a single shift to G3; the row 5 of the kanji set gives
  the same katakana, and its row 4 the same hiragana as far as this row goes, to the code \<open>0x73\<close>. Unicode has the kana in the order of these codes, from U+3041 and
  from U+30A1 on. The decoder's state is as before.
\<close>

theorem kana_decoded:
  assumes "0x21 \<le> n" and "n \<le> 0x76"
  shows "let hiragana = Inr ([0x3041 + (unat n - 0x21)], invocation_default);
             katakana = Inr ([0x30a1 + (unat n - 0x21)], invocation_default)
         in arib_decode invocation_default [0x80 + n] = hiragana \<and>
            arib_decode invocation_default [0x19, n] = hiragana \<and>
            arib_decode invocation_default [0x1d, n] = katakana \<and>
            arib_decode invocation_default [0x25, n] = katakana \<and>
            (n \<le> 0x73 \<longrightarrow> arib_decode invocation_default [0x24, n] = hiragana)"
proof -
  note kana = kana_codes [OF assms]
  have "n \<le> 0x7e" by (rule order_trans [OF assms(2)]) simp
  then have n: "in_range 0x21 0x7e n" using assms(1) by (simp add: in_range_def)
  note b = graphic_bytes(2-5) [OF n]
  have one: "decode_loop Strict [0x80 + n] 0 invocation_default [] arib_diagnostic_default =
      Inr ([map_hiragana n], arib_diagnostic_default, invocation_default)"
    using b by (simp add: decode_loop.simps arib_step_def invocation_default_def step_graphic_def)
  have shifts: "decode_loop Strict [0x19, n] 0 invocation_default [] arib_diagnostic_default =
      Inr ([map_hiragana n], arib_diagnostic_default, invocation_default)"
    "decode_loop Strict [0x1d, n] 0 invocation_default [] arib_diagnostic_default =
      Inr ([map_katakana n], arib_diagnostic_default, invocation_default)"
    by (simp_all add: decode_loop.simps arib_step_def invocation_default_def step_single_shift_def
        decode_single_shift_def)
  have "in_range 0x21 0x7e (0x24 :: u8)" "in_range 0x21 0x7e (0x25 :: u8)" by (simp_all add: in_range_def)
  note two = decode_kanji_code [OF this(1) n] decode_kanji_code [OF this(2) n]
  show ?thesis
    unfolding Let_def arib_decode_def decode_arib_string_with_policy_def one shifts two kana(1-3)
    using kana(4) by simp
qed

theorem kana_decoded_witness:
  "arib_decode invocation_default [0xa2] = Inr ([0x3042], invocation_default) \<and>
   arib_decode invocation_default [0x24, 0x22] = Inr ([0x3042], invocation_default) \<and>
   arib_decode invocation_default [0x25, 0x22] = Inr ([0x30a2], invocation_default)"
  using kana_decoded [of "0x22"] by (simp add: Let_def)

subsection \<open>Strict decoding in parts\<close>

text \<open>A step of the strict decoder depends only on the bytes from its index on, and only appends to the output.\<close>

definition shifted :: "nat \<Rightarrow> ustring \<Rightarrow> arib_diagnostic \<Rightarrow> arib_outcome \<Rightarrow> arib_outcome" where
  "shifted i out d r =
     (case r of
        Next n st o' d' \<Rightarrow> Next (i + n) st (out @ o') d
      | Stop st o' d' \<Rightarrow> Stop st (out @ o') d
      | Fail e \<Rightarrow> Fail e)"

lemma shifted_simps [simp]:
  "shifted i out d (Next n st o' d') = Next (i + n) st (out @ o') d"
  "shifted i out d (Fail e) = Fail e"
  "shifted i out d (strict_or Strict e r) = Fail e"
  by (simp_all add: shifted_def strict_or_def)

lemma strict_or_strict [simp]: "strict_or Strict e r = Fail e"
  by (simp add: strict_or_def)

lemma single_shift_drop: "decode_single_shift s bs i = decode_single_shift s (drop i bs) 0"
proof (cases "i + 1 < length bs")
  case True
  then have "length bs \<le> i + 2 \<longleftrightarrow> length (drop i bs) \<le> 2" "\<not> length (drop i bs) \<le> 1" by auto
  then show ?thesis using True by (simp add: decode_single_shift_def Let_def split: graphic_set.split)
next
  case False
  then have "length (drop i bs) \<le> 1" by auto
  then show ?thesis using False by (simp add: decode_single_shift_def)
qed

lemma arib_step_shift:
  assumes "i < length bs"
  shows "arib_step Strict bs i st out d = shifted i out d (arib_step Strict (drop i bs) 0 st [] d0)"
proof -
  have b: "drop i bs ! 0 = bs ! i" using assms by simp
  have "step_single_shift Strict bs i st out d =
      shifted i out d (step_single_shift Strict (drop i bs) 0 st [] d0)"
    using assms single_shift_drop [of _ bs i]
    by (simp add: step_single_shift_def Let_def b split: sum.split arib_string_decode_error.split)
  moreover have "step_escape Strict bs i st out d = shifted i out d (step_escape Strict (drop i bs) 0 st [] d0)"
    by (simp add: step_escape_def split: sum.split arib_string_decode_error.split)
  moreover have "step_csi Strict bs i st out d = shifted i out d (step_csi Strict (drop i bs) 0 st [] d0)"
    by (simp add: step_csi_def malformed_csi_def split: sum.split option.split)
  moreover have "step_middle_size c s Strict bs i st out d =
      shifted i out d (step_middle_size c' s Strict (drop i bs) 0 st [] d0)" for c c' s
    by (simp add: step_middle_size_def)
  moreover have "step_graphic c s x ok norm Strict bs i st out d =
      shifted i out d (step_graphic c s x ok norm Strict (drop i bs) 0 st [] d0)" for c s x ok norm
    using assms by (auto simp: step_graphic_def split: graphic_set.split)
  ultimately show ?thesis by (simp add: arib_step_def Let_def b)
qed

text \<open>A step that succeeds does not depend on what follows the bytes it has used.\<close>

lemma csi_end_append: "csi_end i bs = Inr n \<Longrightarrow> csi_end i (bs @ cs) = Inr n"
  by (induction i bs rule: csi_end.induct) (auto split: if_splits)

lemma consume_csi_append: "consume_csi bs = Inr n \<Longrightarrow> consume_csi (bs @ cs) = Inr n"
  by (auto simp: consume_csi_def csi_end_append split: list.splits if_splits)

lemma csi_xcs_marker_append: "csi_xcs_marker bs = Inr r \<Longrightarrow> csi_xcs_marker (bs @ cs) = Inr r"
proof -
  assume r: "csi_xcs_marker bs = Inr r"
  then obtain n where n: "consume_csi bs = Inr n" by (auto simp: csi_xcs_marker_def split: sum.splits)
  then show ?thesis
    using r consume_csi_append [OF n, of cs] consume_csi_bounds [OF n]
    by (auto simp: csi_xcs_marker_def nth_append)
qed

lemma xcs_scan_Nil: "xcs_scan c [] = Inl MalformedCsi"
  by (simp add: xcs_scan.simps)

lemma xcs_scan_skip: "b \<noteq> 0x9b \<Longrightarrow> xcs_scan c (b # bs) = xcs_scan (c + 1) bs"
  by (subst xcs_scan.simps) simp

lemma xcs_scan_csi:
  "bs \<noteq> [] \<Longrightarrow> bs ! 0 = 0x9b \<Longrightarrow>
     xcs_scan c bs =
       (case csi_xcs_marker bs of
          Inl e \<Rightarrow> Inl e
        | Inr (k, Some Xcs_End) \<Rightarrow> Inr (Some (c + k))
        | Inr (k, Some Xcs_Start) \<Rightarrow> Inl MalformedCsi
        | Inr (k, None) \<Rightarrow> xcs_scan (c + k) (drop k bs))"
  by (subst xcs_scan.simps) (cases bs; simp split: sum.split option.split xcs_marker.split)

lemma xcs_scan_extends:
  "xcs_scan c bs = Inr n \<Longrightarrow> xcs_scan c (bs @ cs) = Inr n \<and> (\<exists>k. n = Some k \<and> k \<le> c + length bs)"
proof (induction "length bs" arbitrary: c bs rule: less_induct)
  case less
  show ?case
  proof (cases bs)
    case (Cons b tail)
    show ?thesis
    proof (cases "b = 0x9b")
      case True
      then have bs: "bs \<noteq> []" "bs ! 0 = 0x9b" "bs @ cs \<noteq> []" "(bs @ cs) ! 0 = 0x9b" using Cons by simp_all
      note scan = xcs_scan_csi [OF bs(1,2), of c] xcs_scan_csi [OF bs(3,4), of c]
      obtain k m where km: "csi_xcs_marker bs = Inr (k, m)"
        using less.prems scan(1) by (cases "csi_xcs_marker bs") auto
      note bounds = csi_xcs_marker_bounds [OF km]
      show ?thesis
      proof (cases m)
        case None
        have "length (drop k bs) < length bs" using bounds by auto
        moreover have "xcs_scan (c + k) (drop k bs) = Inr n" using less.prems scan(1) km None by simp
        ultimately have "xcs_scan (c + k) (drop k bs @ cs) = Inr n \<and>
            (\<exists>j. n = Some j \<and> j \<le> c + k + length (drop k bs))"
          by (rule less.hyps)
        then show ?thesis
          using scan(2) csi_xcs_marker_append [OF km, of cs] None bounds by auto
      next
        case (Some x)
        then show ?thesis
          using less.prems scan csi_xcs_marker_append [OF km, of cs] km bounds
          by (cases x) auto
      qed
    next
      case False
      then have "xcs_scan (c + 1) tail = Inr n" using less.prems Cons by (simp add: xcs_scan_skip)
      from less.hyps [OF _ this] show ?thesis using False Cons by (auto simp: xcs_scan_skip)
    qed
  qed (use less.prems in \<open>simp add: xcs_scan_Nil\<close>)
qed

lemma consume_xcs_block_extends:
  assumes "consume_xcs_block bs = Inr n"
  shows "consume_xcs_block (bs @ cs) = Inr n" and "n = Some k \<Longrightarrow> k \<le> length bs"
proof -
  obtain l m where lm: "csi_xcs_marker bs = Inr (l, m)"
    using assms by (cases "csi_xcs_marker bs") (auto simp: consume_xcs_block_def)
  note bounds = csi_xcs_marker_bounds [OF lm]
  have "consume_xcs_block (bs @ cs) = Inr n \<and> (n = Some k \<longrightarrow> k \<le> length bs)"
  proof (cases "m = Some Xcs_Start")
    case True
    then have "xcs_scan l (drop l bs) = Inr n" using assms lm by (simp add: consume_xcs_block_def)
    from xcs_scan_extends [OF this, of cs] show ?thesis
      using True csi_xcs_marker_append [OF lm, of cs] bounds by (auto simp: consume_xcs_block_def)
  next
    case False
    then show ?thesis using assms lm csi_xcs_marker_append [OF lm, of cs] by (auto simp: consume_xcs_block_def)
  qed
  then show "consume_xcs_block (bs @ cs) = Inr n" and "n = Some k \<Longrightarrow> k \<le> length bs" by simp_all
qed

lemma apply_escape_bounds: "apply_escape st bs = Inr (n, st') \<Longrightarrow> 0 < n \<and> n \<le> length bs"
  by (auto simp: apply_escape_def split: if_splits sum.splits)

lemma apply_escape_extends:
  assumes "apply_escape st bs = Inr (n, st')"
  shows "apply_escape st (bs @ cs) = Inr (n, st')"
proof -
  have "2 \<le> length bs" using assms by (simp add: apply_escape_def split: if_splits)
  then obtain a b rest where bs: "bs = a # b # rest" by (cases bs; cases "tl bs") auto
  consider "rest = []" | c where "rest = [c]" | c e rest' where "rest = c # e # rest'"
    by (cases rest; cases "tl rest") auto
  then show ?thesis
  proof cases
    case 1
    then show ?thesis using assms bs by (simp add: apply_escape_def split: if_splits)
  next
    case 2
    then have "\<not> (b = 0x24 \<and> is_designator c)"
      using assms bs by (simp add: apply_escape_def is_designator_def split: if_splits)
    then have "apply_escape st (a # b # c # cs) = apply_escape st [a, b, c]"
      by (cases "b = 0x24") (simp_all add: apply_escape_def split: sum.split)
    then show ?thesis using assms bs 2 by simp
  next
    case 3
    have "apply_escape st (a # b # c # e # rest' @ cs) = apply_escape st (a # b # c # e # rest')"
      by (simp add: apply_escape_def split: sum.split)
    then show ?thesis using assms bs 3 by simp
  qed
qed

lemma single_shift_extends:
  assumes "bs \<noteq> []" and "step_single_shift Strict bs 0 st [] d = Next n st' out d'"
  shows "step_single_shift Strict (bs @ cs) 0 st [] d = Next n st' out d' \<and> n \<le> length bs"
proof -
  have b: "(bs @ cs) ! 0 = bs ! 0" using assms(1) by (simp add: nth_append)
  define s where "s = (if bs ! 0 = 0x19 then is_g2 st else is_g3 st)"
  have ms: "\<not> (is_middle_size st \<and> s \<noteq> Alnum)"
    using assms(2) unfolding step_single_shift_def Let_def s_def [symmetric] by (simp split: if_splits)
  obtain v k where dec: "decode_single_shift s bs 0 = Inr (v, k)"
    and res: "n = k + 1" "st' = st" "out = [v]" "d' = d"
    using assms(2) ms unfolding step_single_shift_def Let_def s_def [symmetric]
    by (cases "decode_single_shift s bs 0") (auto split: arib_string_decode_error.splits)
  have "decode_single_shift s (bs @ cs) 0 = Inr (v, k) \<and> k + 1 \<le> length bs"
    using dec by (cases s) (auto simp: decode_single_shift_def Let_def nth_append split: if_splits)
  then show ?thesis using ms res unfolding step_single_shift_def Let_def b s_def [symmetric] by auto
qed

lemma escape_extends:
  assumes "step_escape Strict bs 0 st [] d = Next n st' out d'"
  shows "step_escape Strict (bs @ cs) 0 st [] d = Next n st' out d' \<and> n \<le> length bs"
proof -
  obtain k s where k: "apply_escape st bs = Inr (k, s)" and res: "n = k - 1 + 1" "st' = s" "out = []" "d' = d"
    using assms by (cases "apply_escape st bs") (auto simp: step_escape_def split: arib_string_decode_error.splits)
  show ?thesis
    using apply_escape_extends [OF k, of cs] apply_escape_bounds [OF k] res by (simp add: step_escape_def)
qed

lemma csi_extends:
  assumes "bs \<noteq> []" and "step_csi Strict bs 0 st [] d = Next n st' out d'"
  shows "step_csi Strict (bs @ cs) 0 st [] d = Next n st' out d' \<and> n \<le> length bs"
proof -
  obtain m where m: "consume_xcs_block bs = Inr m"
    using assms(2) by (cases "consume_xcs_block bs") (auto simp: step_csi_def malformed_csi_def)
  note ext = consume_xcs_block_extends(1) [OF m, of cs]
  have len: "Suc 0 \<le> length bs" using assms(1) by (simp add: Suc_le_eq)
  show ?thesis
  proof (cases m)
    case None
    obtain k where k: "consume_csi bs = Inr k"
      using assms(2) m None by (cases "consume_csi bs") (auto simp: step_csi_def malformed_csi_def)
    show ?thesis
      using assms(2) m ext None k consume_csi_append [OF k, of cs] consume_csi_bounds [OF k]
      by (auto simp: step_csi_def)
  next
    case (Some k)
    then show ?thesis
      using assms(2) m ext consume_xcs_block_extends(2) [OF m Some] len by (auto simp: step_csi_def)
  qed
qed

lemma graphic_extends:
  assumes "bs \<noteq> []" and "step_graphic c s x ok norm Strict bs 0 st [] d = Next n st' out d'"
  shows "step_graphic c s x ok norm Strict (bs @ cs) 0 st [] d = Next n st' out d' \<and> n \<le> length bs"
proof -
  have "Suc 0 \<le> length bs" using assms(1) by (simp add: Suc_le_eq)
  then show ?thesis
    using assms(2) by (cases s) (auto simp: step_graphic_def nth_append Suc_le_eq split: if_splits)
qed

definition extends :: "nat \<Rightarrow> arib_outcome \<Rightarrow> arib_outcome \<Rightarrow> bool" where
  "extends l r r' \<longleftrightarrow> (\<forall>n st out d. r = Next n st out d \<longrightarrow> r' = r \<and> n \<le> l)"

lemma extends_if:
  "(c \<Longrightarrow> extends l a a') \<Longrightarrow> (\<not> c \<Longrightarrow> extends l b b') \<Longrightarrow>
     extends l (if c then a else b) (if c then a' else b')"
  by simp

lemma extends_next: "n \<le> l \<Longrightarrow> extends l (Next n st out d) (Next n st out d)"
  by (simp add: extends_def)

lemma extends_fail: "extends l (Fail e) r"
  by (simp add: extends_def)

lemma arib_step_extends:
  assumes "bs \<noteq> []"
  shows "extends (length bs) (arib_step Strict bs 0 st [] d) (arib_step Strict (bs @ cs) 0 st [] d)"
proof -
  have b: "(bs @ cs) ! 0 = bs ! 0" using assms by (simp add: nth_append)
  have "0 + 1 \<le> length bs" using assms by (simp add: Suc_le_eq)
  note one = extends_next [OF this]
  have "extends (length bs) (step_single_shift Strict bs 0 st [] d) (step_single_shift Strict (bs @ cs) 0 st [] d)"
    "extends (length bs) (step_escape Strict bs 0 st [] d) (step_escape Strict (bs @ cs) 0 st [] d)"
    "extends (length bs) (step_csi Strict bs 0 st [] d) (step_csi Strict (bs @ cs) 0 st [] d)"
    "extends (length bs) (step_graphic c s x ok norm Strict bs 0 st [] d)
       (step_graphic c s x ok norm Strict (bs @ cs) 0 st [] d)" for c s x ok norm
    unfolding extends_def
    using single_shift_extends [OF assms] escape_extends csi_extends [OF assms] graphic_extends [OF assms]
    by presburger+
  note steps = this one extends_fail
  show ?thesis
    unfolding arib_step_def Let_def b step_middle_size_def strict_or_strict by (intro extends_if steps)
qed

text \<open>The strict decoder on two parts, the second starting in the state the first leaves.\<close>

lemma strict_loop_shift:
  "decode_loop Strict (as @ bs) (length as + i) st (out @ o') d =
     map_sum id (\<lambda>(t, _, st'). (out @ t, d, st')) (decode_loop Strict bs i st o' d0)"
proof (induction "length bs - i" arbitrary: i st o' rule: less_induct)
  case less
  show ?case
  proof (cases "i < length bs")
    case True
    then have in_range: "length as + i < length (as @ bs)" by simp
    let ?r = "arib_step Strict (drop i bs) 0 st [] d0"
    have l: "arib_step Strict (as @ bs) (length as + i) st (out @ o') d = shifted (length as + i) (out @ o') d ?r"
      using arib_step_shift [OF in_range] by simp
    have r: "arib_step Strict bs i st o' d0 = shifted i o' d0 ?r" by (rule arib_step_shift [OF True])
    show ?thesis
    proof (cases ?r)
      case (Next n st' o'' d')
      then have "arib_step Strict bs i st o' d0 = Next (i + n) st' (o' @ o'') d0" using r by simp
      then have "length bs - (i + n) < length bs - i" using arib_step_advances True by fastforce
      from less [OF this, of st' "o' @ o''"] show ?thesis
        using True in_range l r Next
        by (subst (1 2) decode_loop.simps) (simp add: add.assoc)
    next
      case (Stop st' o'' d')
      then show ?thesis using arib_step_agree [of "drop i bs" 0 st "[]" d0] by (simp add: agree_def)
    next
      case (Fail e)
      then show ?thesis using True in_range l r by (subst (1 2) decode_loop.simps) simp
    qed
  qed (simp add: decode_loop.simps)
qed

lemma strict_loop_prefix:
  assumes "i \<le> length as" and "decode_loop Strict as i st out d = Inr (o1, d1, st1)"
  shows "decode_loop Strict (as @ bs) i st out d = decode_loop Strict (as @ bs) (length as) st1 o1 d1"
  using assms
proof (induction "length as - i" arbitrary: i st out d rule: less_induct)
  case less
  show ?case
  proof (cases "i < length as")
    case True
    let ?r = "arib_step Strict (drop i as) 0 st [] d"
    have r: "arib_step Strict as i st out d = shifted i out d ?r" by (rule arib_step_shift [OF True])
    have l: "arib_step Strict (as @ bs) i st out d =
        shifted i out d (arib_step Strict (drop i as @ bs) 0 st [] d)"
      using arib_step_shift [of i "as @ bs" st out d d] True by simp
    obtain n st' o' where n: "?r = Next n st' o' d"
      using arib_step_agree [of "drop i as" 0 st "[]" d] less.prems(2) True r
      by (subst (asm) decode_loop.simps) (auto simp: agree_def split: arib_outcome.splits)
    have "drop i as \<noteq> []" using True by simp
    from arib_step_extends [OF this, of st d bs]
    have ext: "arib_step Strict (drop i as @ bs) 0 st [] d = Next n st' o' d" and le: "i + n \<le> length as"
      using n True by (auto simp: extends_def)
    have "arib_step Strict as i st out d = Next (i + n) st' (out @ o') d" using r n by simp
    note dec = this arib_step_advances [OF this]
    have "decode_loop Strict as (i + n) st' (out @ o') d = Inr (o1, d1, st1)"
      using less.prems(2) True dec(1) by (subst (asm) decode_loop.simps) simp
    moreover have "length as - (i + n) < length as - i" using dec(2) True by simp
    ultimately have "decode_loop Strict (as @ bs) (i + n) st' (out @ o') d =
        decode_loop Strict (as @ bs) (length as) st1 o1 d1"
      using less.hyps le by blast
    then show ?thesis using True l ext by (subst decode_loop.simps) simp
  next
    case False
    then have "decode_loop Strict as i st out d = Inr (out, d, st)" by (simp add: decode_loop.simps)
    then show ?thesis using less.prems False by simp
  qed
qed

lemma decode_loop_append:
  assumes "decode_loop Strict as 0 st [] d = Inr (text1, d1, st1)"
  shows "decode_loop Strict (as @ bs) 0 st [] d =
         (case decode_loop Strict bs 0 st1 [] d of
            Inl e \<Rightarrow> Inl e
          | Inr (text2, d2, st2) \<Rightarrow> Inr (text1 @ text2, d1, st2))"
proof -
  have "decode_loop Strict (as @ bs) 0 st [] d = decode_loop Strict (as @ bs) (length as + 0) st1 (text1 @ []) d1"
    using strict_loop_prefix [OF _ assms, of bs] by simp
  also have "\<dots> = map_sum id (\<lambda>(t, _, st'). (text1 @ t, d1, st')) (decode_loop Strict bs 0 st1 [] d)"
    by (rule strict_loop_shift)
  finally show ?thesis by (simp split: sum.split prod.split)
qed

text \<open>
  C40. A text that is carried in parts, as an item of an extended event is, decodes to the same
  characters as in one piece: if the strict decoder accepts the first part, then its result on the
  whole is what it made of the first part followed by what it makes of the second one, started in
  the state of designations and invocations that the first part left, and it fails on the whole with
  the error it has on the second part.
\<close>

theorem arib_text_in_parts:
  assumes "decode_loop Strict as 0 st [] d = Inr (text1, d1, st1)"
  shows "decode_loop Strict (as @ bs) 0 st [] d =
         (case decode_loop Strict bs 0 st1 [] d of
            Inl e \<Rightarrow> Inl e
          | Inr (text2, d2, st2) \<Rightarrow> Inr (text1 @ text2, d1, st2))"
  by (rule decode_loop_append [OF assms])

text \<open>The definitions that katakana designated to \<open>G0\<close> go through, for evaluation by the simplifier.\<close>

lemmas katakana_eval = decode_loop.simps arib_step_def step_escape_def apply_escape_def is_designator_def
  one_byte_set_def designate_def in_range_def step_graphic_def map_katakana_def kana_lookup_def
  katakana_table_def invocation_default_def Let_def

text \<open>A text in two parts: the first part designates and invokes katakana, the second one relies on it.\<close>

theorem arib_text_in_parts_witness:
  "decode_loop Strict [0x1b, 0x28, 0x49, 0x22] 0 invocation_default [] arib_diagnostic_default =
     Inr ([0x30a2], arib_diagnostic_default, invocation_default\<lparr>is_g0 := Katakana, is_gl := Katakana\<rparr>) \<and>
   decode_loop Strict ([0x1b, 0x28, 0x49, 0x22] @ [0x24]) 0 invocation_default [] arib_diagnostic_default =
     Inr ([0x30a2, 0x30a4], arib_diagnostic_default,
       invocation_default\<lparr>is_g0 := Katakana, is_gl := Katakana\<rparr>)"
proof -
  have first: "decode_loop Strict [0x1b, 0x28, 0x49, 0x22] 0 invocation_default [] arib_diagnostic_default =
      Inr ([0x30a2], arib_diagnostic_default, invocation_default\<lparr>is_g0 := Katakana, is_gl := Katakana\<rparr>)"
    by (simp add: katakana_eval)
  have "decode_loop Strict [0x24] 0 (invocation_default\<lparr>is_g0 := Katakana, is_gl := Katakana\<rparr>) []
      arib_diagnostic_default =
      Inr ([0x30a4], arib_diagnostic_default, invocation_default\<lparr>is_g0 := Katakana, is_gl := Katakana\<rparr>)"
    by (simp add: katakana_eval)
  then show ?thesis using first arib_text_in_parts [OF first, of "[0x24]"] by simp
qed

subsection \<open>Decoding a list of parts\<close>

text \<open>The texts of the parts, each decoded in the state that the one before has left.\<close>

fun decode_parts :: "invocation_state \<Rightarrow> bytes list \<Rightarrow> ustring option" where
  "decode_parts st [] = Some []"
| "decode_parts st (part # parts) =
     (case arib_decode st part of
        Inl e \<Rightarrow> None
      | Inr (text, st') \<Rightarrow> map_option ((@) text) (decode_parts st' parts))"

lemma strict_loop_diagnostic: "decode_loop Strict bs i st out d = Inr (t, d', st') \<Longrightarrow> d' = d"
  using strict_loop_agrees [of bs i st out d] by simp

lemma trim_nul_id: "0 \<notin> set out \<Longrightarrow> trim_nul out = out"
proof -
  have same: "dropWhile (\<lambda>c. c = 0) xs = xs" if "0 \<notin> set xs" for xs :: ustring
    using that by (cases xs) auto
  show "0 \<notin> set out \<Longrightarrow> trim_nul out = out" by (simp add: trim_nul_def same)
qed

lemma decode_parts_loop:
  assumes "decode_loop Strict (concat parts) 0 st [] d = Inr (whole, d', st')" and "0 \<notin> set whole"
    and "decode_parts st parts = Some glued"
  shows "glued = whole"
  using assms
proof (induction parts arbitrary: st whole glued d')
  case Nil
  then show ?case by (simp add: decode_loop.simps)
next
  case (Cons part parts)
  obtain t st1 where first: "arib_decode st part = Inr (t, st1)"
    using Cons.prems(3) by (auto split: sum.splits)
  then obtain t1 d1 where loop: "decode_loop Strict part 0 st [] arib_diagnostic_default = Inr (t1, d1, st1)"
      and t: "t = trim_nul t1"
    by (auto simp: arib_decode_def decode_arib_string_with_policy_def split: sum.splits)
  have "decode_loop Strict part 0 st [] d = Inr (t1, d, st1)"
    using strict_loop_shift [of "[]" part 0 st "[]" "[]" d arib_diagnostic_default] loop by simp
  note split_whole = decode_loop_append [OF this, of "concat parts"]
  obtain t2 d2 where rest: "decode_loop Strict (concat parts) 0 st1 [] d = Inr (t2, d2, st')" and whole: "whole = t1 @ t2"
    using split_whole Cons.prems(1) by (auto split: sum.splits)
  obtain t2' where rest': "decode_parts st1 parts = Some t2'" and glued: "glued = t @ t2'"
    using Cons.prems(3) first by auto
  have "t2' = t2" using Cons.IH [OF rest _ rest'] Cons.prems(2) whole by simp
  moreover have "t = t1" using t whole Cons.prems(2) by (simp add: trim_nul_id)
  ultimately show ?case using whole glued by simp
qed

lemma decode_parts_whole:
  assumes "arib_decode st (concat parts) = Inr (text, st')" and "decode_parts st parts = Some text'"
    and "decode_loop Strict (concat parts) 0 st [] arib_diagnostic_default = Inr (raw, d, st')" and "0 \<notin> set raw"
  shows "text' = text"
  using decode_parts_loop [OF assms(3,4,2)] assms(1,3,4)
  by (simp add: arib_decode_def decode_arib_string_with_policy_def trim_nul_id)

end
