(* ===== verification/Si_Descriptors.thy ===== *)
theory Si_Descriptors
  imports Si_Sections Arib_String
begin

section \<open>Event descriptors\<close>

text \<open>
  \<open>arib_si_engine_rs/src/core/descriptors.rs\<close>: the parser of the descriptor loop of an event. It keeps every
  descriptor it understands, keeps the others as bytes, and records a diagnostic for whatever is
  damaged; extended event descriptors are collected first and put together per language at the end.
  A function that has \<open>out: &mut EventDescriptors\<close> takes \<open>out\<close> and returns it. The messages of
  diagnostics, which are fixed texts for a reader, are left out. Sums of offsets that the code forms with
  \<open>checked_add\<close> or \<open>saturating_add\<close> are far below the limit of \<open>usize\<close>, so they are plain sums.
\<close>

subsection \<open>Data\<close>

datatype descriptor_parse_status =
  Parsed_Ok | MalformedLength | TruncatedDescriptor | UnsupportedValue | InvalidSequence

definition is_structural_error :: "descriptor_parse_status \<Rightarrow> bool" where
  "is_structural_error s \<longleftrightarrow> s = MalformedLength \<or> s = TruncatedDescriptor \<or> s = InvalidSequence"

record descriptor_diag =
  dd_parse_status :: descriptor_parse_status
  dd_descriptor_tag :: u8
  dd_offset :: nat
  dd_declared_length :: nat
  dd_remaining_length :: nat
  dd_raw_prefix :: bytes

record truncated_descriptor_loop =
  tl_declared_length :: nat
  tl_raw_bytes :: bytes

record extended_event_item =
  xi_language_code :: ustring
  xi_item_description :: ustring
  xi_item_text :: ustring

record short_event_text =
  se_language_code :: ustring
  se_title :: ustring
  se_text :: ustring

record extended_event_text =
  xt_language_code :: ustring
  xt_text :: ustring

record content_descriptor_item =
  ci_content_nibble_level_1 :: u8
  ci_content_nibble_level_2 :: u8
  ci_user_nibble_1 :: u8
  ci_user_nibble_2 :: u8
  ci_arib_display_name :: ustring

record component_descriptor =
  cd_stream_content :: u8
  cd_component_type :: u8
  cd_component_tag :: u8
  cd_language_code :: ustring
  cd_text :: ustring

record audio_component_descriptor =
  au_stream_content :: u8
  au_component_type :: u8
  au_component_tag :: u8
  au_stream_type :: u8
  au_simulcast_group_tag :: u8
  au_es_multi_lingual_flag :: bool
  au_main_component_flag :: bool
  au_quality_indicator :: u8
  au_sampling_rate :: u8
  au_language_code :: ustring
  au_language_code_2 :: "ustring option"
  au_text :: ustring

record parental_rating =
  pr_country_code :: ustring
  pr_raw_rating_byte :: u8

record parental_rating_descriptor =
  pd_entries :: "parental_rating list"
  pd_raw_descriptor_bytes :: bytes
  pd_parse_status :: descriptor_parse_status

record series_descriptor =
  sd_series_id :: u16
  sd_repeat_label :: u8
  sd_program_pattern :: u8
  sd_expire_date_valid :: bool
  sd_expire_date :: u16
  sd_episode_number :: u16
  sd_last_episode_number :: u16
  sd_series_name :: ustring

record event_group_reference =
  gr_service_id :: u16
  gr_event_id :: u16

record other_network_event_group_reference =
  gn_original_network_id :: u16
  gn_transport_stream_id :: u16
  gn_service_id :: u16
  gn_event_id :: u16

record event_group_descriptor =
  eg_group_type :: u8
  eg_events :: "event_group_reference list"
  eg_other_network_events :: "other_network_event_group_reference list"
  eg_private_data :: bytes

record component_group =
  cg_component_group_id :: u8
  cg_component_tags :: bytes

record component_group_descriptor =
  cgd_component_group_type :: u8
  cgd_groups :: "component_group list"

record linkage_descriptor =
  ld_transport_stream_id :: u16
  ld_original_network_id :: u16
  ld_service_id :: u16
  ld_linkage_type :: u8
  ld_private_data :: bytes

record event_descriptors =
  ed_truncated_loop :: "truncated_descriptor_loop option"
  ed_diagnostics :: "descriptor_diag list"
  ed_title :: ustring
  ed_description :: ustring
  ed_extended_description :: ustring
  ed_short_events :: "short_event_text list"
  ed_extended_texts :: "extended_event_text list"
  ed_contents :: "content_descriptor_item list"
  ed_components :: "component_descriptor list"
  ed_audio_components :: "audio_component_descriptor list"
  ed_parental_ratings :: "parental_rating list"
  ed_parental_rating_descriptors :: "parental_rating_descriptor list"
  ed_series :: "series_descriptor list"
  ed_event_groups :: "event_group_descriptor list"
  ed_component_groups :: "component_group_descriptor list"
  ed_linkages :: "linkage_descriptor list"
  ed_extended_items :: "extended_event_item list"
  ed_unknown :: "(u8 \<times> bytes) list"

definition event_descriptors_default :: event_descriptors where
  "event_descriptors_default = \<lparr>ed_truncated_loop = None, ed_diagnostics = [], ed_title = [],
     ed_description = [], ed_extended_description = [], ed_short_events = [], ed_extended_texts = [],
     ed_contents = [], ed_components = [], ed_audio_components = [], ed_parental_ratings = [],
     ed_parental_rating_descriptors = [], ed_series = [], ed_event_groups = [],
     ed_component_groups = [], ed_linkages = [], ed_extended_items = [], ed_unknown = []\<rparr>"

subsection \<open>Diagnostics and text\<close>

text \<open>The bytes kept with a diagnostic start with tag and length unless the slice has them already.\<close>

definition descriptor_diagnostic ::
  "descriptor_parse_status \<Rightarrow> u8 \<Rightarrow> nat \<Rightarrow> nat \<Rightarrow> nat \<Rightarrow> bytes \<Rightarrow> descriptor_diag" where
  "descriptor_diagnostic status tag offset declared_length remaining_length raw_prefix =
     (let len = word_of_nat declared_length :: u8
      in \<lparr>dd_parse_status = status, dd_descriptor_tag = tag, dd_offset = offset,
          dd_declared_length = declared_length, dd_remaining_length = remaining_length,
          dd_raw_prefix =
            (if tag \<noteq> 0xff \<and> take 2 raw_prefix \<noteq> [tag, len] then take 16 ([tag, len] @ raw_prefix)
             else take 16 raw_prefix)\<rparr>)"

definition event_descriptor_loop_truncated_diagnostic :: "nat \<Rightarrow> nat \<Rightarrow> nat \<Rightarrow> bytes \<Rightarrow> descriptor_diag" where
  "event_descriptor_loop_truncated_diagnostic offset declared_length remaining_length raw_prefix =
     descriptor_diagnostic TruncatedDescriptor 0xff offset declared_length remaining_length raw_prefix"

definition push_diagnostic ::
  "descriptor_parse_status \<Rightarrow> u8 \<Rightarrow> nat \<Rightarrow> nat \<Rightarrow> nat \<Rightarrow> bytes \<Rightarrow> event_descriptors \<Rightarrow> event_descriptors" where
  "push_diagnostic status tag offset declared_length remaining_length raw_prefix out =
     out\<lparr>ed_diagnostics := ed_diagnostics out @
       [descriptor_diagnostic status tag offset declared_length remaining_length raw_prefix]\<rparr>"

text \<open>Rust's \<open>str::trim\<close> removes the characters with the Unicode property \<open>White_Space\<close>.\<close>

definition is_whitespace :: "uchar \<Rightarrow> bool" where
  "is_whitespace c \<longleftrightarrow> 0x9 \<le> c \<and> c \<le> 0xd \<or> c = 0x20 \<or> c = 0x85 \<or> c = 0xa0 \<or> c = 0x1680 \<or>
     0x2000 \<le> c \<and> c \<le> 0x200a \<or> c = 0x2028 \<or> c = 0x2029 \<or> c = 0x202f \<or> c = 0x205f \<or> c = 0x3000"

definition trim_text :: "ustring \<Rightarrow> ustring" where
  "trim_text text = rev (dropWhile is_whitespace (rev (dropWhile is_whitespace text)))"

definition is_ascii_alphabetic :: "u8 \<Rightarrow> bool" where
  "is_ascii_alphabetic b \<longleftrightarrow> in_range 0x41 0x5a b \<or> in_range 0x61 0x7a b"

text \<open>ASCII bytes as text.\<close>

definition ascii_text :: "bytes \<Rightarrow> ustring" where
  "ascii_text bs = map unat bs"

definition decode_descriptor_text_lossy ::
  "bytes \<Rightarrow> event_descriptors \<Rightarrow> u8 \<Rightarrow> nat \<Rightarrow> nat \<Rightarrow> bytes \<Rightarrow> ustring \<times> event_descriptors" where
  "decode_descriptor_text_lossy bs out tag descriptor_offset declared_length descriptor_body =
     (let (decoded, diagnostic) = decode_arib_string_lossy bs
      in (decoded,
          if ad_replacement_count diagnostic \<noteq> 0
          then push_diagnostic UnsupportedValue tag descriptor_offset declared_length
                 (length descriptor_body) descriptor_body out
          else out))"

definition validated_language :: "bytes \<Rightarrow> descriptor_parse_status + ustring" where
  "validated_language bs =
     (if length bs \<noteq> 3 \<or> \<not> list_all is_ascii_alphabetic bs then Inl UnsupportedValue
      else Inr (ascii_text bs))"

definition si_u16_at :: "bytes \<Rightarrow> nat \<Rightarrow> u16" where
  "si_u16_at bs offset = be16 (bs ! offset) (bs ! (offset + 1))"

subsection \<open>Short events\<close>

text \<open>
  The code takes the language by \<open>from_utf8_lossy\<close> and \<open>trim\<close> and then requires three ASCII letters. As it
  starts from three bytes, that is the case exactly when each of them is a letter.
\<close>

definition parse_short_event :: "bytes \<Rightarrow> event_descriptors \<Rightarrow> u8 \<Rightarrow> nat \<Rightarrow> nat \<Rightarrow> event_descriptors" where
  "parse_short_event body out tag offset declared_length =
     (let bad = (\<lambda>status remaining. push_diagnostic status tag offset declared_length remaining body out)
      in if length body < 4 then bad MalformedLength (length body)
         else
           let name_end = 4 + unat (body ! 3)
           in if length body < name_end then bad MalformedLength (length body - 4)
              else if length body \<le> name_end then bad MalformedLength 0
              else
                let text_start = name_end + 1;
                    text_end = text_start + unat (body ! name_end)
                in if text_end \<noteq> length body then bad MalformedLength (length body - text_start)
                   else if \<not> list_all is_ascii_alphabetic (take 3 body) then bad UnsupportedValue (length body)
                   else
                     let language_code = ascii_text (take 3 body)
                     in if list_ex (\<lambda>candidate. se_language_code candidate = language_code) (ed_short_events out)
                        then bad InvalidSequence (length body)
                        else
                          let (title, out) = decode_descriptor_text_lossy (slice body 4 name_end) out tag offset
                                declared_length body;
                              (text, out) = decode_descriptor_text_lossy (slice body text_start text_end) out tag
                                offset declared_length body;
                              out = out\<lparr>ed_short_events := ed_short_events out @
                                [\<lparr>se_language_code = language_code, se_title = trim_text title,
                                  se_text = trim_text text\<rparr>]\<rparr>
                          in if length (ed_short_events out) = 1
                             then out\<lparr>ed_title := trim_text title, ed_description := trim_text text\<rparr>
                             else out)"

subsection \<open>Content\<close>

definition content_major_names :: "(u8 \<times> ustring) list" where
  "content_major_names =
    [(0x0, [0x30cb, 0x30e5, 0x30fc, 0x30b9, 0x002f, 0x5831, 0x9053]),
     (0x1, [0x30b9, 0x30dd, 0x30fc, 0x30c4]),
     (0x2, [0x60c5, 0x5831, 0x002f, 0x30ef, 0x30a4, 0x30c9, 0x30b7, 0x30e7, 0x30fc]),
     (0x3, [0x30c9, 0x30e9, 0x30de]),
     (0x4, [0x97f3, 0x697d]),
     (0x5, [0x30d0, 0x30e9, 0x30a8, 0x30c6, 0x30a3]),
     (0x6, [0x6620, 0x753b]),
     (0x7, [0x30a2, 0x30cb, 0x30e1, 0x002f, 0x7279, 0x64ae]),
     (0x8, [0x30c9, 0x30ad, 0x30e5, 0x30e1, 0x30f3, 0x30bf, 0x30ea, 0x30fc, 0x002f, 0x6559, 0x990a]),
     (0x9, [0x5287, 0x5834, 0x002f, 0x516c, 0x6f14]),
     (0xa, [0x8da3, 0x5473, 0x002f, 0x6559, 0x80b2]),
     (0xb, [0x798f, 0x7949])]"

definition content_other_name :: ustring where
  "content_other_name = [0x305d, 0x306e, 0x4ed6]"

definition content_undefined_name :: ustring where
  "content_undefined_name = [0x672a, 0x5b9a, 0x7fa9]"

definition content_minor_names :: "(u8 \<times> u8 \<times> ustring) list" where
  "content_minor_names =
    [(0x0, 0x0, [0x5b9a, 0x6642, 0x30fb, 0x7dcf, 0x5408]),
     (0x0, 0x1, [0x5929, 0x6c17]),
     (0x0, 0x2, [0x7279, 0x96c6, 0x30fb, 0x30c9, 0x30ad, 0x30e5, 0x30e1, 0x30f3, 0x30c8]),
     (0x0, 0x3, [0x653f, 0x6cbb, 0x30fb, 0x56fd, 0x4f1a]),
     (0x0, 0x4, [0x7d4c, 0x6e08, 0x30fb, 0x5e02, 0x6cc1]),
     (0x0, 0x5, [0x6d77, 0x5916, 0x30fb, 0x56fd, 0x969b]),
     (0x0, 0x6, [0x89e3, 0x8aac]),
     (0x0, 0x7, [0x8a0e, 0x8ad6, 0x30fb, 0x4f1a, 0x8ac7]),
     (0x0, 0x8, [0x5831, 0x9053, 0x7279, 0x756a]),
     (0x0, 0x9, [0x30ed, 0x30fc, 0x30ab, 0x30eb, 0x30fb, 0x5730, 0x57df]),
     (0x0, 0xa, [0x4ea4, 0x901a]),
     (0x1, 0x0, [0x30b9, 0x30dd, 0x30fc, 0x30c4, 0x30cb, 0x30e5, 0x30fc, 0x30b9]),
     (0x1, 0x1, [0x91ce, 0x7403]),
     (0x1, 0x2, [0x30b5, 0x30c3, 0x30ab, 0x30fc]),
     (0x1, 0x3, [0x30b4, 0x30eb, 0x30d5]),
     (0x1, 0x4, [0x305d, 0x306e, 0x4ed6, 0x306e, 0x7403, 0x6280]),
     (0x1, 0x5, [0x76f8, 0x64b2, 0x30fb, 0x683c, 0x95d8, 0x6280]),
     (0x1, 0x6, [0x30aa, 0x30ea, 0x30f3, 0x30d4, 0x30c3, 0x30af, 0x30fb, 0x56fd, 0x969b, 0x5927, 0x4f1a]),
     (0x1, 0x7, [0x30de, 0x30e9, 0x30bd, 0x30f3, 0x30fb, 0x9678, 0x4e0a, 0x30fb, 0x6c34, 0x6cf3]),
     (0x1, 0x8, [0x30e2, 0x30fc, 0x30bf, 0x30fc, 0x30b9, 0x30dd, 0x30fc, 0x30c4]),
     (0x1, 0x9, [0x30de, 0x30ea, 0x30f3, 0x30fb, 0x30a6, 0x30a3, 0x30f3, 0x30bf, 0x30fc, 0x30b9, 0x30dd,
        0x30fc, 0x30c4]),
     (0x1, 0xa, [0x7af6, 0x99ac, 0x30fb, 0x516c, 0x55b6, 0x7af6, 0x6280]),
     (0x2, 0x0, [0x82b8, 0x80fd, 0x30fb, 0x30ef, 0x30a4, 0x30c9, 0x30b7, 0x30e7, 0x30fc]),
     (0x2, 0x1, [0x30d5, 0x30a1, 0x30c3, 0x30b7, 0x30e7, 0x30f3]),
     (0x2, 0x2, [0x66ae, 0x3089, 0x3057, 0x30fb, 0x4f4f, 0x307e, 0x3044]),
     (0x2, 0x3, [0x5065, 0x5eb7, 0x30fb, 0x533b, 0x7642]),
     (0x2, 0x4, [0x30b7, 0x30e7, 0x30c3, 0x30d4, 0x30f3, 0x30b0, 0x30fb, 0x901a, 0x8ca9]),
     (0x2, 0x5, [0x30b0, 0x30eb, 0x30e1, 0x30fb, 0x6599, 0x7406]),
     (0x2, 0x6, [0x30a4, 0x30d9, 0x30f3, 0x30c8]),
     (0x2, 0x7, [0x756a, 0x7d44, 0x7d39, 0x4ecb, 0x30fb, 0x304a, 0x77e5, 0x3089, 0x305b]),
     (0x3, 0x0, [0x56fd, 0x5185, 0x30c9, 0x30e9, 0x30de]),
     (0x3, 0x1, [0x6d77, 0x5916, 0x30c9, 0x30e9, 0x30de]),
     (0x3, 0x2, [0x6642, 0x4ee3, 0x5287]),
     (0x4, 0x0, [0x56fd, 0x5185, 0x30ed, 0x30c3, 0x30af, 0x30fb, 0x30dd, 0x30c3, 0x30d7, 0x30b9]),
     (0x4, 0x1, [0x6d77, 0x5916, 0x30ed, 0x30c3, 0x30af, 0x30fb, 0x30dd, 0x30c3, 0x30d7, 0x30b9]),
     (0x4, 0x2, [0x30af, 0x30e9, 0x30b7, 0x30c3, 0x30af, 0x30fb, 0x30aa, 0x30da, 0x30e9]),
     (0x4, 0x3, [0x30b8, 0x30e3, 0x30ba, 0x30fb, 0x30d5, 0x30e5, 0x30fc, 0x30b8, 0x30e7, 0x30f3]),
     (0x4, 0x4, [0x6b4c, 0x8b21, 0x66f2, 0x30fb, 0x6f14, 0x6b4c]),
     (0x4, 0x5, [0x30e9, 0x30a4, 0x30d6, 0x30fb, 0x30b3, 0x30f3, 0x30b5, 0x30fc, 0x30c8]),
     (0x4, 0x6, [0x30e9, 0x30f3, 0x30ad, 0x30f3, 0x30b0, 0x30fb, 0x30ea, 0x30af, 0x30a8, 0x30b9, 0x30c8]),
     (0x4, 0x7, [0x30ab, 0x30e9, 0x30aa, 0x30b1, 0x30fb, 0x306e, 0x3069, 0x81ea, 0x6162]),
     (0x4, 0x8, [0x6c11, 0x8b21, 0x30fb, 0x90a6, 0x697d]),
     (0x4, 0x9, [0x7ae5, 0x8b21, 0x30fb, 0x30ad, 0x30c3, 0x30ba]),
     (0x4, 0xa, [0x6c11, 0x65cf, 0x97f3, 0x697d, 0x30fb, 0x30ef, 0x30fc, 0x30eb, 0x30c9, 0x30df, 0x30e5,
        0x30fc, 0x30b8, 0x30c3, 0x30af]),
     (0x5, 0x0, [0x30af, 0x30a4, 0x30ba]),
     (0x5, 0x1, [0x30b2, 0x30fc, 0x30e0]),
     (0x5, 0x2, [0x30c8, 0x30fc, 0x30af, 0x30d0, 0x30e9, 0x30a8, 0x30c6, 0x30a3]),
     (0x5, 0x3, [0x304a, 0x7b11, 0x3044, 0x30fb, 0x30b3, 0x30e1, 0x30c7, 0x30a3]),
     (0x5, 0x4, [0x97f3, 0x697d, 0x30d0, 0x30e9, 0x30a8, 0x30c6, 0x30a3]),
     (0x5, 0x5, [0x65c5, 0x30d0, 0x30e9, 0x30a8, 0x30c6, 0x30a3]),
     (0x5, 0x6, [0x6599, 0x7406, 0x30d0, 0x30e9, 0x30a8, 0x30c6, 0x30a3]),
     (0x6, 0x0, [0x6d0b, 0x753b]),
     (0x6, 0x1, [0x90a6, 0x753b]),
     (0x6, 0x2, [0x30a2, 0x30cb, 0x30e1]),
     (0x7, 0x0, [0x56fd, 0x5185, 0x30a2, 0x30cb, 0x30e1]),
     (0x7, 0x1, [0x6d77, 0x5916, 0x30a2, 0x30cb, 0x30e1]),
     (0x7, 0x2, [0x7279, 0x64ae]),
     (0x8, 0x0, [0x793e, 0x4f1a, 0x30fb, 0x6642, 0x4e8b]),
     (0x8, 0x1, [0x6b74, 0x53f2, 0x30fb, 0x7d00, 0x884c]),
     (0x8, 0x2, [0x81ea, 0x7136, 0x30fb, 0x52d5, 0x7269, 0x30fb, 0x74b0, 0x5883]),
     (0x8, 0x3, [0x5b87, 0x5b99, 0x30fb, 0x79d1, 0x5b66, 0x30fb, 0x533b, 0x5b66]),
     (0x8, 0x4, [0x30ab, 0x30eb, 0x30c1, 0x30e3, 0x30fc, 0x30fb, 0x4f1d, 0x7d71, 0x6587, 0x5316]),
     (0x8, 0x5, [0x6587, 0x5b66, 0x30fb, 0x6587, 0x82b8]),
     (0x8, 0x6, [0x30b9, 0x30dd, 0x30fc, 0x30c4]),
     (0x8, 0x7, [0x30c9, 0x30ad, 0x30e5, 0x30e1, 0x30f3, 0x30bf, 0x30ea, 0x30fc, 0x5168, 0x822c]),
     (0x8, 0x8, [0x30a4, 0x30f3, 0x30bf, 0x30d3, 0x30e5, 0x30fc, 0x30fb, 0x8a0e, 0x8ad6]),
     (0x9, 0x0, [0x73fe, 0x4ee3, 0x5287, 0x30fb, 0x65b0, 0x5287]),
     (0x9, 0x1, [0x30df, 0x30e5, 0x30fc, 0x30b8, 0x30ab, 0x30eb]),
     (0x9, 0x2, [0x30c0, 0x30f3, 0x30b9, 0x30fb, 0x30d0, 0x30ec, 0x30a8]),
     (0x9, 0x3, [0x843d, 0x8a9e, 0x30fb, 0x6f14, 0x82b8]),
     (0x9, 0x4, [0x6b4c, 0x821e, 0x4f0e, 0x30fb, 0x53e4, 0x5178]),
     (0xa, 0x0, [0x65c5, 0x30fb, 0x91e3, 0x308a, 0x30fb, 0x30a2, 0x30a6, 0x30c8, 0x30c9, 0x30a2]),
     (0xa, 0x1, [0x5712, 0x82b8, 0x30fb, 0x30da, 0x30c3, 0x30c8, 0x30fb, 0x624b, 0x82b8]),
     (0xa, 0x2, [0x97f3, 0x697d, 0x30fb, 0x7f8e, 0x8853, 0x30fb, 0x5de5, 0x82b8]),
     (0xa, 0x3, [0x56f2, 0x7881, 0x30fb, 0x5c06, 0x68cb]),
     (0xa, 0x4, [0x9ebb, 0x96c0, 0x30fb, 0x30d1, 0x30c1, 0x30f3, 0x30b3]),
     (0xa, 0x5, [0x8eca, 0x30fb, 0x30aa, 0x30fc, 0x30c8, 0x30d0, 0x30a4]),
     (0xa, 0x6, [0x30b3, 0x30f3, 0x30d4, 0x30e5, 0x30fc, 0x30bf, 0x30fb, 0x0054, 0x0056, 0x30b2, 0x30fc, 0x30e0]),
     (0xa, 0x7, [0x4f1a, 0x8a71, 0x30fb, 0x8a9e, 0x5b66]),
     (0xa, 0x8, [0x5e7c, 0x5150, 0x30fb, 0x5c0f, 0x5b66, 0x751f]),
     (0xa, 0x9, [0x4e2d, 0x5b66, 0x751f, 0x30fb, 0x9ad8, 0x6821, 0x751f]),
     (0xa, 0xa, [0x5927, 0x5b66, 0x751f, 0x30fb, 0x53d7, 0x9a13]),
     (0xa, 0xb, [0x751f, 0x6daf, 0x6559, 0x80b2, 0x30fb, 0x8cc7, 0x683c]),
     (0xa, 0xc, [0x6559, 0x80b2, 0x554f, 0x984c]),
     (0xb, 0x0, [0x9ad8, 0x9f62, 0x8005]),
     (0xb, 0x1, [0x969c, 0x5bb3, 0x8005]),
     (0xb, 0x2, [0x793e, 0x4f1a, 0x798f, 0x7949]),
     (0xb, 0x3, [0x30dc, 0x30e9, 0x30f3, 0x30c6, 0x30a3, 0x30a2]),
     (0xb, 0x4, [0x624b, 0x8a71]),
     (0xb, 0x5, [0x6587, 0x5b57, 0xff08, 0x5b57, 0x5e55, 0xff09]),
     (0xb, 0x6, [0x97f3, 0x58f0, 0x89e3, 0x8aac])]"

definition arib_content_major_name :: "u8 \<Rightarrow> ustring" where
  "arib_content_major_name level1 =
     (case map_of content_major_names level1 of Some name \<Rightarrow> name | None \<Rightarrow> content_other_name)"

definition arib_content_minor_name :: "u8 \<Rightarrow> u8 \<Rightarrow> ustring" where
  "arib_content_minor_name level1 level2 =
     (case map_of (map (\<lambda>(l1, l2, name). ((l1, l2), name)) content_minor_names) (level1, level2) of
        Some name \<Rightarrow> name
      | None \<Rightarrow> if level2 = 0xf then content_other_name else content_undefined_name)"

definition arib_content_to_display_name :: "u8 \<Rightarrow> u8 \<Rightarrow> ustring" where
  "arib_content_to_display_name level1 level2 =
     arib_content_major_name level1 @ [0x2f] @ arib_content_minor_name level1 level2"

fun content_items :: "bytes \<Rightarrow> content_descriptor_item list" where
  "content_items (a # b # rest) =
     (let level1 = drop_bit 4 a; level2 = a AND 0x0f
      in \<lparr>ci_content_nibble_level_1 = level1, ci_content_nibble_level_2 = level2,
          ci_user_nibble_1 = drop_bit 4 b, ci_user_nibble_2 = b AND 0x0f,
          ci_arib_display_name = arib_content_to_display_name level1 level2\<rparr>) # content_items rest"
| "content_items _ = []"

definition parse_content_descriptor :: "bytes \<Rightarrow> event_descriptors \<Rightarrow> u8 \<Rightarrow> nat \<Rightarrow> nat \<Rightarrow> event_descriptors" where
  "parse_content_descriptor body out tag offset declared_length =
     (if length body mod 2 \<noteq> 0 then push_diagnostic MalformedLength tag offset declared_length (length body) body out
      else out\<lparr>ed_contents := ed_contents out @ content_items body\<rparr>)"

subsection \<open>Components, ratings and series\<close>

definition parse_component_descriptor ::
  "bytes \<Rightarrow> event_descriptors \<Rightarrow> u8 \<Rightarrow> nat \<Rightarrow> nat \<Rightarrow> (descriptor_parse_status + component_descriptor) \<times> event_descriptors" where
  "parse_component_descriptor body out tag offset declared_length =
     (if length body < 6 then (Inl MalformedLength, out)
      else
        (case validated_language (slice body 3 6) of
           Inl e \<Rightarrow> (Inl e, out)
         | Inr language_code \<Rightarrow>
             let (text, out) = decode_descriptor_text_lossy (drop 6 body) out tag offset declared_length body
             in (Inr \<lparr>cd_stream_content = body ! 0 AND 0x0f, cd_component_type = body ! 1,
                      cd_component_tag = body ! 2, cd_language_code = language_code,
                      cd_text = trim_text text\<rparr>, out)))"

definition parse_audio_component_descriptor ::
  "bytes \<Rightarrow> event_descriptors \<Rightarrow> u8 \<Rightarrow> nat \<Rightarrow> nat \<Rightarrow>
     (descriptor_parse_status + audio_component_descriptor) \<times> event_descriptors" where
  "parse_audio_component_descriptor body out tag offset declared_length =
     (if length body < 9 then (Inl MalformedLength, out)
      else
        let flags = body ! 5;
            second_language = (flags AND 0x80 \<noteq> 0)
        in if second_language \<and> length body < 12 then (Inl MalformedLength, out)
           else
             (case (if second_language then map_sum id Some (validated_language (slice body 9 12)) else Inr None) of
                Inl e \<Rightarrow> (Inl e, out)
              | Inr lang2 \<Rightarrow>
                  (case validated_language (slice body 6 9) of
                     Inl e \<Rightarrow> (Inl e, out)
                   | Inr language_code \<Rightarrow>
                       let cursor = (if second_language then 12 else 9);
                           (text, out) = decode_descriptor_text_lossy (drop cursor body) out tag offset
                             declared_length body
                       in (Inr \<lparr>au_stream_content = body ! 0 AND 0x0f, au_component_type = body ! 1,
                                au_component_tag = body ! 2, au_stream_type = body ! 3,
                                au_simulcast_group_tag = body ! 4, au_es_multi_lingual_flag = second_language,
                                au_main_component_flag = (flags AND 0x40 \<noteq> 0),
                                au_quality_indicator = drop_bit 4 flags AND 0x03,
                                au_sampling_rate = drop_bit 1 flags AND 0x07,
                                au_language_code = language_code, au_language_code_2 = lang2,
                                au_text = trim_text text\<rparr>, out))))"

text \<open>The entries of a rating descriptor, and whether all country codes are letters.\<close>

fun rating_entries :: "bytes \<Rightarrow> parental_rating list" where
  "rating_entries (a # b # c # rating # rest) =
     \<lparr>pr_country_code = ascii_text [a, b, c], pr_raw_rating_byte = rating\<rparr> # rating_entries rest"
| "rating_entries _ = []"

fun rating_countries_ok :: "bytes \<Rightarrow> bool" where
  "rating_countries_ok (a # b # c # rating # rest) =
     (list_all is_ascii_alphabetic [a, b, c] \<and> rating_countries_ok rest)"
| "rating_countries_ok _ = True"

definition parse_parental_rating_descriptor ::
  "bytes \<Rightarrow> event_descriptors \<Rightarrow> u8 \<Rightarrow> nat \<Rightarrow> nat \<Rightarrow> parental_rating_descriptor \<times> event_descriptors" where
  "parse_parental_rating_descriptor body out tag offset declared_length =
     (let parse_status = (if length body mod 4 \<noteq> 0 then MalformedLength
                          else if \<not> rating_countries_ok body then UnsupportedValue else Parsed_Ok);
          entries = (if length body mod 4 \<noteq> 0 then [] else rating_entries body);
          out = (if parse_status = Parsed_Ok then out
                 else push_diagnostic parse_status tag offset declared_length (length body) body out)
      in (\<lparr>pd_entries = entries, pd_raw_descriptor_bytes = tag # word_of_nat declared_length # body,
           pd_parse_status = parse_status\<rparr>, out))"

definition parse_series_descriptor ::
  "bytes \<Rightarrow> event_descriptors \<Rightarrow> u8 \<Rightarrow> nat \<Rightarrow> nat \<Rightarrow> series_descriptor option \<times> event_descriptors" where
  "parse_series_descriptor body out tag offset declared_length =
     (if length body < 9 then (None, out)
      else
        let (series_name, out) =
              (if 9 < length body
               then (let (text, out) = decode_descriptor_text_lossy (drop 9 body) out tag offset declared_length body
                     in (trim_text text, out))
               else ([], out))
        in (Some \<lparr>sd_series_id = si_u16_at body 0, sd_repeat_label = drop_bit 4 (body ! 2) AND 0x0f,
                  sd_program_pattern = body ! 2 AND 0x07, sd_expire_date_valid = (body ! 2 AND 0x08 \<noteq> 0),
                  sd_expire_date = be16 (body ! 3) (body ! 4),
                  sd_episode_number = push_bit 8 (ucast (body ! 5 AND 0x0f)) OR ucast (body ! 6),
                  sd_last_episode_number = push_bit 8 (ucast (body ! 7 AND 0x0f)) OR ucast (body ! 8),
                  sd_series_name = series_name\<rparr>, out))"

subsection \<open>Event groups, component groups and linkage\<close>

text \<open>The \<open>n\<close> references after the first byte, and the bytes behind them.\<close>

fun group_references :: "nat \<Rightarrow> bytes \<Rightarrow> (event_group_reference list \<times> bytes) option" where
  "group_references 0 bs = Some ([], bs)"
| "group_references (Suc n) bs =
     (if length bs < 4 then None
      else
        (case group_references n (drop 4 bs) of
           None \<Rightarrow> None
         | Some (refs, rest) \<Rightarrow>
             Some (\<lparr>gr_service_id = si_u16_at bs 0, gr_event_id = si_u16_at bs 2\<rparr> # refs, rest)))"

fun other_network_references :: "bytes \<Rightarrow> other_network_event_group_reference list" where
  "other_network_references (a # b # c # d # e # f # g # h # rest) =
     \<lparr>gn_original_network_id = be16 a b, gn_transport_stream_id = be16 c d, gn_service_id = be16 e f,
      gn_event_id = be16 g h\<rparr> # other_network_references rest"
| "other_network_references _ = []"

definition parse_event_group_descriptor :: "bytes \<Rightarrow> event_group_descriptor option" where
  "parse_event_group_descriptor body =
     (if body = [] then None
      else
        let group_type = drop_bit 4 (body ! 0) AND 0x0f;
            event_count = unat (body ! 0 AND 0x0f)
        in case group_references event_count (drop 1 body) of
             None \<Rightarrow> None
           | Some (events, rest) \<Rightarrow>
               if group_type = 0x4 \<or> group_type = 0x5 then
                 if length rest mod 8 \<noteq> 0 then None
                 else Some \<lparr>eg_group_type = group_type, eg_events = events,
                        eg_other_network_events = other_network_references rest, eg_private_data = []\<rparr>
               else Some \<lparr>eg_group_type = group_type, eg_events = events, eg_other_network_events = [],
                      eg_private_data = rest\<rparr>)"

text \<open>The CA units of a group, then the groups; both return the bytes that are left.\<close>

fun ca_units :: "nat \<Rightarrow> bytes \<Rightarrow> (bytes \<times> bytes) option" where
  "ca_units 0 bs = Some ([], bs)"
| "ca_units (Suc n) bs =
     (case bs of
        [] \<Rightarrow> None
      | ca_header # rest \<Rightarrow>
          let num_of_component = unat (ca_header AND 0x0f)
          in if length rest < num_of_component then None
             else
               (case ca_units n (drop num_of_component rest) of
                  None \<Rightarrow> None
                | Some (tags, rest') \<Rightarrow> Some (take num_of_component rest @ tags, rest')))"

fun component_groups :: "bool \<Rightarrow> nat \<Rightarrow> bytes \<Rightarrow> (component_group list \<times> bytes) option" where
  "component_groups total_bit_rate_flag 0 bs = Some ([], bs)"
| "component_groups total_bit_rate_flag (Suc n) bs =
     (case bs of
        [] \<Rightarrow> None
      | group_header # rest \<Rightarrow>
          (case ca_units (unat (group_header AND 0x0f)) rest of
             None \<Rightarrow> None
           | Some (component_tags, rest) \<Rightarrow>
               if total_bit_rate_flag \<and> rest = [] then None
               else
                 (case (if total_bit_rate_flag then drop 1 rest else rest) of
                    [] \<Rightarrow> None
                  | text_length # rest \<Rightarrow>
                      if length rest < unat text_length then None
                      else
                        (case component_groups total_bit_rate_flag n (drop (unat text_length) rest) of
                           None \<Rightarrow> None
                         | Some (groups, rest) \<Rightarrow>
                             Some (\<lparr>cg_component_group_id = drop_bit 4 group_header AND 0x0f,
                                    cg_component_tags = component_tags\<rparr> # groups, rest)))))"

definition parse_component_group_descriptor :: "bytes \<Rightarrow> component_group_descriptor option" where
  "parse_component_group_descriptor body =
     (case body of
        [] \<Rightarrow> None
      | first # rest \<Rightarrow>
          (case component_groups (first AND 0x10 \<noteq> 0) (unat (first AND 0x0f)) rest of
             None \<Rightarrow> None
           | Some (groups, rest) \<Rightarrow>
               if rest \<noteq> [] then None
               else Some \<lparr>cgd_component_group_type = drop_bit 5 first AND 0x07, cgd_groups = groups\<rparr>))"

definition parse_linkage_descriptor :: "bytes \<Rightarrow> linkage_descriptor option" where
  "parse_linkage_descriptor body =
     (if length body < 7 then None
      else Some \<lparr>ld_transport_stream_id = si_u16_at body 0, ld_original_network_id = si_u16_at body 2,
             ld_service_id = si_u16_at body 4, ld_linkage_type = body ! 6, ld_private_data = drop 7 body\<rparr>)"

subsection \<open>Fragments of extended events\<close>

record extended_event_item_fragment =
  xf_description :: bytes
  xf_text :: bytes
  xf_description_offset :: nat
  xf_text_offset :: nat

record extended_event_fragment =
  ef_descriptor_number :: u8
  ef_last_descriptor_number :: u8
  ef_language_code :: ustring
  ef_items :: "extended_event_item_fragment list"
  ef_text :: bytes
  ef_text_offset :: nat
  ef_descriptor_offset :: nat
  ef_declared_length :: nat
  ef_raw_body :: bytes

record raw_extended_event_descriptor =
  rx_body :: bytes
  rx_tag :: u8
  rx_offset :: nat
  rx_declared_length :: nat

text \<open>
  The loop over the items; on a bad length it gives the remaining length of the diagnostic. The check of
  \<open>cursor + 1\<close> against the end, first in the body of the loop, cannot fail there.
\<close>

function fragment_items ::
  "bytes \<Rightarrow> nat \<Rightarrow> nat \<Rightarrow> nat \<Rightarrow> extended_event_item_fragment list \<Rightarrow>
     nat + extended_event_item_fragment list" where
  "fragment_items body offset items_end cursor items =
     (if cursor < items_end then
        let desc_start = cursor + 1;
            desc_end = desc_start + unat (body ! cursor)
        in if items_end \<le> desc_end then Inl (items_end - desc_start)
           else
             let item_start = desc_end + 1;
                 item_end = item_start + unat (body ! desc_end)
             in if items_end < item_end then Inl (items_end - item_start)
                else fragment_items body offset items_end item_end
                       (items @ [\<lparr>xf_description = slice body desc_start desc_end,
                                  xf_text = slice body item_start item_end,
                                  xf_description_offset = offset + 2 + desc_start,
                                  xf_text_offset = offset + 2 + item_start\<rparr>])
      else Inr items)"
  by pat_completeness auto
termination
  by (relation "measure (\<lambda>(body, offset, items_end, cursor, items). items_end - cursor)") auto

declare fragment_items.simps [simp del]

definition parse_extended_event_fragment ::
  "bytes \<Rightarrow> event_descriptors \<Rightarrow> u8 \<Rightarrow> nat \<Rightarrow> nat \<Rightarrow> extended_event_fragment option \<times> event_descriptors" where
  "parse_extended_event_fragment body out tag offset declared_length =
     (let bad = (\<lambda>status remaining. (None, push_diagnostic status tag offset declared_length remaining body out))
      in if length body < 6 then bad MalformedLength (length body)
         else if \<not> list_all is_ascii_alphabetic (slice body 1 4) then bad UnsupportedValue (length body)
         else
           let items_end = 5 + unat (body ! 4)
           in if length body \<le> items_end then bad MalformedLength (length body - 5)
              else
                (case fragment_items body offset items_end 5 [] of
                   Inl remaining \<Rightarrow> bad MalformedLength remaining
                 | Inr items \<Rightarrow>
                     let text_start = items_end + 1;
                         text_end = text_start + unat (body ! items_end)
                     in if text_end \<noteq> length body then bad MalformedLength (length body - text_start)
                        else
                          (Some \<lparr>ef_descriptor_number = drop_bit 4 (body ! 0) AND 0x0f,
                                 ef_last_descriptor_number = body ! 0 AND 0x0f,
                                 ef_language_code = ascii_text (slice body 1 4), ef_items = items,
                                 ef_text = slice body text_start text_end,
                                 ef_text_offset = offset + 2 + text_start, ef_descriptor_offset = offset,
                                 ef_declared_length = declared_length, ef_raw_body = body\<rparr>,
                           out)))"

fun parse_fragments ::
  "raw_extended_event_descriptor list \<Rightarrow> event_descriptors \<Rightarrow>
     extended_event_fragment list \<times> event_descriptors" where
  "parse_fragments [] out = ([], out)"
| "parse_fragments (raw # bodies) out =
     (let (fragment, out) = parse_extended_event_fragment (rx_body raw) out (rx_tag raw) (rx_offset raw)
            (rx_declared_length raw);
          (fragments, out) = parse_fragments bodies out
      in (case fragment of None \<Rightarrow> fragments | Some f \<Rightarrow> f # fragments, out))"

subsection \<open>Extended events of one language\<close>

definition decode_extended_event_field ::
  "invocation_state \<Rightarrow> bytes \<Rightarrow> extended_event_fragment \<Rightarrow> event_descriptors \<Rightarrow>
     ustring option \<times> invocation_state \<times> event_descriptors" where
  "decode_extended_event_field decoder bs fragment out =
     (case arib_decode decoder bs of
        Inr (text, decoder') \<Rightarrow> (Some text, decoder', out)
      | Inl e \<Rightarrow>
          (None, decoder,
           push_diagnostic UnsupportedValue 0x4e (ef_descriptor_offset fragment) (ef_declared_length fragment)
             (length (ef_raw_body fragment)) (ef_raw_body fragment) out))"

text \<open>The item that is being put together: the variables \<open>current_item_...\<close> of the code.\<close>

record current_item =
  it_description :: ustring
  it_text :: ustring
  it_decoder :: "invocation_state option"
  it_active :: bool
  it_valid :: bool

definition no_item :: current_item where
  "no_item = \<lparr>it_description = [], it_text = [], it_decoder = None, it_active = False, it_valid = True\<rparr>"

definition flush_item :: "ustring \<Rightarrow> current_item \<Rightarrow> event_descriptors \<Rightarrow> event_descriptors" where
  "flush_item language_code it out =
     (if it_active it \<and> it_valid it \<and> (it_description it \<noteq> [] \<or> it_text it \<noteq> [])
      then out\<lparr>ed_extended_items := ed_extended_items out @
        [\<lparr>xi_language_code = language_code, xi_item_description = trim_text (it_description it),
          xi_item_text = trim_text (it_text it)\<rparr>]\<rparr>
      else out)"

definition begin_item ::
  "extended_event_fragment \<Rightarrow> extended_event_item_fragment \<Rightarrow> event_descriptors \<Rightarrow>
     current_item \<times> event_descriptors" where
  "begin_item fragment item out =
     (let it = no_item\<lparr>it_decoder := Some invocation_default, it_active := True\<rparr>
      in if xf_description item \<noteq> [] then
           (case decode_extended_event_field invocation_default (xf_description item) fragment out of
              (Some description, _, out) \<Rightarrow> (it\<lparr>it_description := description\<rparr>, out)
            | (None, _, out) \<Rightarrow> (it\<lparr>it_valid := False\<rparr>, out))
         else (it, out))"

definition append_item_text ::
  "extended_event_fragment \<Rightarrow> extended_event_item_fragment \<Rightarrow> current_item \<Rightarrow> event_descriptors \<Rightarrow>
     current_item \<times> event_descriptors" where
  "append_item_text fragment item it out =
     (case it_decoder it of
        None \<Rightarrow> (it, out)
      | Some decoder \<Rightarrow>
          (case decode_extended_event_field decoder (xf_text item) fragment out of
             (Some text, decoder', out) \<Rightarrow> (it\<lparr>it_text := it_text it @ text, it_decoder := Some decoder'\<rparr>, out)
           | (None, decoder', out) \<Rightarrow> (it\<lparr>it_valid := False, it_decoder := Some decoder'\<rparr>, out)))"

text \<open>Whether the first item of a fragment continues the last item of the fragment before.\<close>

definition follows_on :: "u8 option \<Rightarrow> bool \<Rightarrow> extended_event_fragment \<Rightarrow> bool" where
  "follows_on previous_number previous_had_item fragment =
     (previous_had_item \<and>
      (case previous_number of
         None \<Rightarrow> False
       | Some n \<Rightarrow> n \<noteq> 0xff \<and> n + 1 = ef_descriptor_number fragment))"

fun fragment_item_loop ::
  "bool \<Rightarrow> extended_event_fragment \<Rightarrow> extended_event_item_fragment list \<Rightarrow> current_item \<Rightarrow>
     event_descriptors \<Rightarrow> current_item \<times> event_descriptors" where
  "fragment_item_loop may_continue fragment [] it out = (it, out)"
| "fragment_item_loop may_continue fragment (item # items) it out =
     (let continues_previous =
            (may_continue \<and> xf_description item = [] \<and> it_active it \<and> it_decoder it \<noteq> None);
          (it, out) =
            (if continues_previous then (it, out)
             else begin_item fragment item (flush_item (ef_language_code fragment) it out));
          (it, out) = append_item_text fragment item it out
      in fragment_item_loop False fragment items it out)"

definition fragment_text ::
  "extended_event_fragment \<Rightarrow> event_descriptors \<Rightarrow> ustring list \<times> event_descriptors" where
  "fragment_text fragment out =
     (case decode_extended_event_field invocation_default (ef_text fragment) fragment out of
        (Some text, _, out) \<Rightarrow> (if trim_text text = [] then [] else [trim_text text], out)
      | (None, _, out) \<Rightarrow> ([], out))"

fun fragment_loop ::
  "extended_event_fragment list \<Rightarrow> u8 option \<Rightarrow> bool \<Rightarrow> current_item \<Rightarrow> ustring list \<Rightarrow>
     event_descriptors \<Rightarrow> current_item \<times> ustring list \<times> event_descriptors" where
  "fragment_loop [] previous_number previous_had_item it texts out = (it, texts, out)"
| "fragment_loop (fragment # fragments) previous_number previous_had_item it texts out =
     (let (text, out) = fragment_text fragment out;
          (it, out) = fragment_item_loop (follows_on previous_number previous_had_item fragment) fragment
            (ef_items fragment) it out
      in fragment_loop fragments (Some (ef_descriptor_number fragment)) (ef_items fragment \<noteq> []) it
           (texts @ text) out)"

definition sequence_ok :: "extended_event_fragment list \<Rightarrow> bool" where
  "sequence_ok fragments =
     (let expected_last = ef_last_descriptor_number (hd fragments);
          numbers = map ef_descriptor_number fragments
      in list_all (\<lambda>f. ef_last_descriptor_number f = expected_last) fragments \<and>
         unat expected_last + 1 = length fragments \<and> distinct numbers \<and>
         list_all (\<lambda>n. word_of_nat n \<in> set numbers) [0..<Suc (unat expected_last)])"

definition parse_extended_language ::
  "ustring \<Rightarrow> extended_event_fragment list \<Rightarrow> event_descriptors \<Rightarrow> event_descriptors" where
  "parse_extended_language language_code fragments out =
     (let fragments = sort_key ef_descriptor_number fragments
      in if \<not> sequence_ok fragments then
           push_diagnostic InvalidSequence 0x4e (ef_descriptor_offset (hd fragments))
             (ef_declared_length (hd fragments)) (length (ef_raw_body (hd fragments)))
             (ef_raw_body (hd fragments)) out
         else
           let (it, texts, out) = fragment_loop fragments None False no_item [] out;
               out = flush_item language_code it out;
               text = concat texts
           in if text \<noteq> []
              then out\<lparr>ed_extended_texts := ed_extended_texts out @
                [\<lparr>xt_language_code = language_code, xt_text = text\<rparr>]\<rparr>
              else out)"

subsection \<open>Extended events of all languages\<close>

definition language_order :: "extended_event_fragment list \<Rightarrow> ustring list" where
  "language_order fragments =
     foldl (\<lambda>order f. if ef_language_code f \<in> set order then order else order @ [ef_language_code f]) [] fragments"

definition find_text :: "ustring \<Rightarrow> extended_event_text list \<Rightarrow> ustring option" where
  "find_text language_code texts =
     map_option xt_text (List.find (\<lambda>t. xt_language_code t = language_code) texts)"

definition select_extended_description :: "event_descriptors \<Rightarrow> ustring" where
  "select_extended_description out =
     (case ed_short_events out of
        first # _ \<Rightarrow>
          (case find_text (se_language_code first) (ed_extended_texts out) of Some text \<Rightarrow> text | None \<Rightarrow> [])
      | [] \<Rightarrow>
          (case find_text [0x6a, 0x70, 0x6e] (ed_extended_texts out) of
             Some text \<Rightarrow> text
           | None \<Rightarrow> (case ed_extended_texts out of t # _ \<Rightarrow> xt_text t | [] \<Rightarrow> [])))"

definition parse_extended_event_fragments ::
  "raw_extended_event_descriptor list \<Rightarrow> event_descriptors \<Rightarrow> event_descriptors" where
  "parse_extended_event_fragments bodies out =
     (let (fragments, out) = parse_fragments bodies out
      in if fragments = [] then out
         else
           let out = foldl (\<lambda>out language_code.
                 parse_extended_language language_code
                   (filter (\<lambda>f. ef_language_code f = language_code) fragments) out)
                 out (language_order fragments)
           in out\<lparr>ed_extended_description := select_extended_description out\<rparr>)"

subsection \<open>The loop over the descriptors\<close>

definition parse_descriptor ::
  "u8 \<Rightarrow> bytes \<Rightarrow> nat \<Rightarrow> nat \<Rightarrow> event_descriptors \<Rightarrow> event_descriptors" where
  "parse_descriptor tag body cursor len out =
     (let bad = (\<lambda>status. push_diagnostic status tag cursor len (length body) body)
      in if tag = 0x4d then parse_short_event body out tag cursor len
         else if tag = 0x54 then parse_content_descriptor body out tag cursor len
         else if tag = 0x50 then
           (case parse_component_descriptor body out tag cursor len of
              (Inr v, out) \<Rightarrow> out\<lparr>ed_components := ed_components out @ [v]\<rparr>
            | (Inl status, out) \<Rightarrow> bad status out)
         else if tag = 0xc4 then
           (case parse_audio_component_descriptor body out tag cursor len of
              (Inr v, out) \<Rightarrow> out\<lparr>ed_audio_components := ed_audio_components out @ [v]\<rparr>
            | (Inl status, out) \<Rightarrow> bad status out)
         else if tag = 0x55 then
           (case parse_parental_rating_descriptor body out tag cursor len of
              (descriptor, out) \<Rightarrow>
                let out = (if pd_parse_status descriptor = Parsed_Ok
                           then out\<lparr>ed_parental_ratings := ed_parental_ratings out @ pd_entries descriptor\<rparr>
                           else out)
                in out\<lparr>ed_parental_rating_descriptors := ed_parental_rating_descriptors out @ [descriptor]\<rparr>)
         else if tag = 0xd5 then
           (case parse_series_descriptor body out tag cursor len of
              (Some v, out) \<Rightarrow> out\<lparr>ed_series := ed_series out @ [v]\<rparr>
            | (None, out) \<Rightarrow> bad MalformedLength out)
         else if tag = 0xd6 then
           (case parse_event_group_descriptor body of
              Some v \<Rightarrow> out\<lparr>ed_event_groups := ed_event_groups out @ [v]\<rparr>
            | None \<Rightarrow> bad MalformedLength out)
         else if tag = 0xd9 then
           (case parse_component_group_descriptor body of
              Some v \<Rightarrow> out\<lparr>ed_component_groups := ed_component_groups out @ [v]\<rparr>
            | None \<Rightarrow> bad MalformedLength out)
         else if tag = 0x4a then
           (case parse_linkage_descriptor body of
              Some v \<Rightarrow> out\<lparr>ed_linkages := ed_linkages out @ [v]\<rparr>
            | None \<Rightarrow> bad MalformedLength out)
         else bad UnsupportedValue (out\<lparr>ed_unknown := ed_unknown out @ [(tag, body)]\<rparr>))"

text \<open>\<open>rest\<close> is the slice from \<open>cursor\<close> on. The bodies of extended events are set aside.\<close>

fun descriptor_loop ::
  "nat \<Rightarrow> bytes \<Rightarrow> event_descriptors \<Rightarrow> raw_extended_event_descriptor list \<Rightarrow>
     event_descriptors \<times> raw_extended_event_descriptor list" where
  "descriptor_loop cursor [] out bodies = (out, bodies)"
| "descriptor_loop cursor [b] out bodies = (push_diagnostic TruncatedDescriptor 0xff cursor 0 1 [b] out, bodies)"
| "descriptor_loop cursor (tag # len # rest) out bodies =
     (if length rest < unat len then
        let out = push_diagnostic TruncatedDescriptor tag cursor (unat len) (length rest) (tag # len # rest) out
        in (if tag = 0x55
            then out\<lparr>ed_parental_rating_descriptors := ed_parental_rating_descriptors out @
              [\<lparr>pd_entries = [], pd_raw_descriptor_bytes = tag # len # rest,
                pd_parse_status = TruncatedDescriptor\<rparr>]\<rparr>
            else out, bodies)
      else
        let body = take (unat len) rest;
            cursor' = cursor + 2 + unat len
        in if tag = 0x4e
           then descriptor_loop cursor' (drop (unat len) rest) out
                  (bodies @ [\<lparr>rx_body = body, rx_tag = tag, rx_offset = cursor, rx_declared_length = unat len\<rparr>])
           else descriptor_loop cursor' (drop (unat len) rest) (parse_descriptor tag body cursor (unat len) out) bodies)"

definition parse_event_descriptors :: "bytes \<Rightarrow> event_descriptors" where
  "parse_event_descriptors bs =
     (let (out, bodies) = descriptor_loop 0 bs event_descriptors_default []
      in parse_extended_event_fragments bodies out)"

end
