(* ===== verification/Si_Descriptor_Facts.thy ===== *)
theory Si_Descriptor_Facts
  imports Si_Descriptors
begin

section \<open>What the descriptor parser keeps\<close>

text \<open>
  Properties of \<open>parse_event_descriptors\<close>: which fields each part of the parser touches, that a truncated
  descriptor is reported exactly when the loop is not well formed, that the descriptors of a loop end up in
  their lists in the order of the loop, and that an item of an extended event that is spread over
  descriptors is put together again.
\<close>

subsection \<open>Fields left alone\<close>

text \<open>
  The diagnostics of truncated descriptors, and the fields that only \<open>parse_descriptor\<close> fills, from the bytes of
  one descriptor each. The extended events leave them alone.
\<close>

definition truncations :: "event_descriptors \<Rightarrow> descriptor_diag list" where
  "truncations out = filter (\<lambda>d. dd_parse_status d = TruncatedDescriptor) (ed_diagnostics out)"

definition plain_facts ::
  "event_descriptors \<Rightarrow> descriptor_diag list \<times> content_descriptor_item list \<times> event_group_descriptor list \<times>
     component_group_descriptor list \<times> linkage_descriptor list \<times> (u8 \<times> bytes) list" where
  "plain_facts out = (truncations out, ed_contents out, ed_event_groups out, ed_component_groups out,
     ed_linkages out, ed_unknown out)"

lemma truncations_push [simp]:
  "truncations (push_diagnostic status tag offset l r raw out) =
     truncations out @
       (if status = TruncatedDescriptor then [descriptor_diagnostic status tag offset l r raw] else [])"
  by (simp add: truncations_def push_diagnostic_def descriptor_diagnostic_def Let_def)

lemma plain_facts_push [simp]:
  "status \<noteq> TruncatedDescriptor \<Longrightarrow> plain_facts (push_diagnostic status tag offset l r raw out) = plain_facts out"
  by (simp add: plain_facts_def) (simp add: push_diagnostic_def)

lemma plain_facts_text [simp]:
  "plain_facts (snd (decode_descriptor_text_lossy bs out tag offset l body)) = plain_facts out"
  by (simp add: decode_descriptor_text_lossy_def case_prod_beta)

lemma plain_facts_text_pair:
  "decode_descriptor_text_lossy bs out tag offset l body = (t, out') \<Longrightarrow> plain_facts out' = plain_facts out"
  using plain_facts_text [of bs out tag offset l body] by simp

lemma plain_facts_fields [simp]:
  "plain_facts (out\<lparr>ed_title := x1\<rparr>) = plain_facts out"
  "plain_facts (out\<lparr>ed_description := x1\<rparr>) = plain_facts out"
  "plain_facts (out\<lparr>ed_extended_description := x1\<rparr>) = plain_facts out"
  "plain_facts (out\<lparr>ed_short_events := x2\<rparr>) = plain_facts out"
  "plain_facts (out\<lparr>ed_extended_texts := x3\<rparr>) = plain_facts out"
  "plain_facts (out\<lparr>ed_components := x4\<rparr>) = plain_facts out"
  "plain_facts (out\<lparr>ed_audio_components := x5\<rparr>) = plain_facts out"
  "plain_facts (out\<lparr>ed_parental_ratings := x6\<rparr>) = plain_facts out"
  "plain_facts (out\<lparr>ed_parental_rating_descriptors := x7\<rparr>) = plain_facts out"
  "plain_facts (out\<lparr>ed_series := x8\<rparr>) = plain_facts out"
  "plain_facts (out\<lparr>ed_extended_items := x9\<rparr>) = plain_facts out"
  by (simp_all add: plain_facts_def truncations_def)

lemma plain_facts_short_event [simp]: "plain_facts (parse_short_event body out tag offset l) = plain_facts out"
  by (simp add: parse_short_event_def Let_def case_prod_beta)

lemma plain_facts_component [simp]:
  "plain_facts (snd (parse_component_descriptor body out tag offset l)) = plain_facts out"
  by (simp add: parse_component_descriptor_def Let_def case_prod_beta split: sum.split)

lemma plain_facts_audio [simp]:
  "plain_facts (snd (parse_audio_component_descriptor body out tag offset l)) = plain_facts out"
  by (simp add: parse_audio_component_descriptor_def Let_def case_prod_beta split: sum.split)

lemma plain_facts_rating [simp]:
  "plain_facts (snd (parse_parental_rating_descriptor body out tag offset l)) = plain_facts out"
  by (simp add: parse_parental_rating_descriptor_def Let_def)

lemma plain_facts_series [simp]:
  "plain_facts (snd (parse_series_descriptor body out tag offset l)) = plain_facts out"
  by (simp add: parse_series_descriptor_def Let_def case_prod_beta)

text \<open>An error of these parsers is never that of a truncated descriptor.\<close>

lemma component_status:
  "fst (parse_component_descriptor body out tag offset l) = Inl status \<Longrightarrow> status \<noteq> TruncatedDescriptor"
  "fst (parse_audio_component_descriptor body out tag offset l) = Inl status \<Longrightarrow> status \<noteq> TruncatedDescriptor"
  by (auto simp: parse_component_descriptor_def parse_audio_component_descriptor_def validated_language_def
        Let_def case_prod_beta split: if_splits sum.splits)

subsection \<open>Extended events\<close>

lemma plain_facts_fragment [simp]:
  "plain_facts (snd (parse_extended_event_fragment body out tag offset l)) = plain_facts out"
  by (simp add: parse_extended_event_fragment_def Let_def split: sum.split)

lemma plain_facts_fragments [simp]: "plain_facts (snd (parse_fragments bodies out)) = plain_facts out"
  by (induction bodies arbitrary: out) (simp_all add: Let_def case_prod_beta)

lemma plain_facts_field [simp]:
  "plain_facts (snd (snd (decode_extended_event_field decoder bs fragment out))) = plain_facts out"
  by (simp add: decode_extended_event_field_def split: sum.split prod.split)

lemma plain_facts_field_pair:
  "decode_extended_event_field decoder bs fragment out = (t, d, out') \<Longrightarrow> plain_facts out' = plain_facts out"
  using plain_facts_field [of decoder bs fragment out] by simp

lemma plain_facts_flush [simp]: "plain_facts (flush_item language_code it out) = plain_facts out"
  by (simp add: flush_item_def)

lemma plain_facts_begin [simp]: "plain_facts (snd (begin_item fragment item out)) = plain_facts out"
  by (auto simp: begin_item_def Let_def dest: plain_facts_field_pair split: prod.split option.split)

lemma plain_facts_append [simp]: "plain_facts (snd (append_item_text fragment item it out)) = plain_facts out"
  by (auto simp: append_item_text_def dest: plain_facts_field_pair split: prod.split option.split)

lemma plain_facts_items [simp]:
  "plain_facts (snd (fragment_item_loop may_continue fragment items it out)) = plain_facts out"
  by (induction items arbitrary: may_continue it out) (simp_all add: Let_def case_prod_beta)

lemma plain_facts_fragment_text [simp]: "plain_facts (snd (fragment_text fragment out)) = plain_facts out"
  by (auto simp: fragment_text_def dest: plain_facts_field_pair split: prod.split option.split)

lemma plain_facts_loop [simp]:
  "plain_facts (snd (snd (fragment_loop fragments n had it texts out))) = plain_facts out"
  by (induction fragments arbitrary: n had it texts out) (simp_all add: Let_def case_prod_beta)

lemma plain_facts_language [simp]: "plain_facts (parse_extended_language l fragments out) = plain_facts out"
  by (simp add: parse_extended_language_def Let_def case_prod_beta)

lemma plain_facts_extended [simp]: "plain_facts (parse_extended_event_fragments bodies out) = plain_facts out"
proof -
  have "plain_facts (foldl (\<lambda>out l. parse_extended_language l (fs l) out) o' ls) = plain_facts o'" for fs ls o'
    by (induction ls arbitrary: o') simp_all
  then show ?thesis by (simp add: parse_extended_event_fragments_def Let_def case_prod_beta)
qed

subsection \<open>One descriptor\<close>

definition known_tags :: "u8 set" where
  "known_tags = {0x4d, 0x4e, 0x54, 0x50, 0xc4, 0x55, 0xd5, 0xd6, 0xd9, 0x4a}"

text \<open>What a descriptor adds to each of the fields.\<close>

definition adds :: "u8 \<times> bytes \<Rightarrow> descriptor_diag list \<times> content_descriptor_item list \<times>
    event_group_descriptor list \<times> component_group_descriptor list \<times> linkage_descriptor list \<times>
    (u8 \<times> bytes) list" where
  "adds d = (case d of (tag, body) \<Rightarrow>
     ([], if tag = 0x54 \<and> even (length body) then content_items body else [],
      if tag = 0xd6 then (case parse_event_group_descriptor body of None \<Rightarrow> [] | Some v \<Rightarrow> [v]) else [],
      if tag = 0xd9 then (case parse_component_group_descriptor body of None \<Rightarrow> [] | Some v \<Rightarrow> [v]) else [],
      if tag = 0x4a then (case parse_linkage_descriptor body of None \<Rightarrow> [] | Some v \<Rightarrow> [v]) else [],
      if tag \<in> known_tags then [] else [(tag, body)]))"

fun append_all where
  "append_all (a, b, c, d, e, f) (a', b', c', d', e', f') = (a @ a', b @ b', c @ c', d @ d', e @ e', f @ f')"

lemma append_none [simp]: "append_all x ([], [], [], [], [], []) = x"
  by (cases x rule: prod_cases6) simp

lemma append_all_assoc: "append_all (append_all x y) z = append_all x (append_all y z)"
  by (cases x rule: prod_cases6; cases y rule: prod_cases6; cases z rule: prod_cases6) simp

lemma truncations_fields [simp]:
  "truncations (out\<lparr>ed_contents := x1\<rparr>) = truncations out"
  "truncations (out\<lparr>ed_event_groups := x2\<rparr>) = truncations out"
  "truncations (out\<lparr>ed_component_groups := x3\<rparr>) = truncations out"
  "truncations (out\<lparr>ed_linkages := x4\<rparr>) = truncations out"
  "truncations (out\<lparr>ed_unknown := x5\<rparr>) = truncations out"
  by (simp_all add: truncations_def)

lemma pushed_fields:
  "ed_contents (push_diagnostic st t k l r raw x) = ed_contents x"
  "ed_event_groups (push_diagnostic st t k l r raw x) = ed_event_groups x"
  "ed_component_groups (push_diagnostic st t k l r raw x) = ed_component_groups x"
  "ed_linkages (push_diagnostic st t k l r raw x) = ed_linkages x"
  "ed_unknown (push_diagnostic st t k l r raw x) = ed_unknown x"
  by (simp_all add: push_diagnostic_def)

text \<open>Tags whose descriptors add to other fields only.\<close>

lemma parse_descriptor_other:
  assumes "tag \<in> {0x4d, 0x50, 0xc4, 0x55, 0xd5}"
  shows "plain_facts (parse_descriptor tag body cursor len out) = plain_facts out"
proof -
  consider "tag = 0x4d" | "tag = 0x50" | "tag = 0xc4" | "tag = 0x55" | "tag = 0xd5" using assms by blast
  then show ?thesis
  proof cases
    case 2
    obtain r out' where r: "parse_component_descriptor body out tag cursor len = (r, out')" by fastforce
    have "plain_facts out' = plain_facts out" using plain_facts_component [of body out tag cursor len] unfolding r by simp
    moreover have "status \<noteq> TruncatedDescriptor" if "r = Inl status" for status
      using component_status(1) [of body out tag cursor len] that unfolding r by simp
    ultimately show ?thesis using r by (cases r) (simp_all add: parse_descriptor_def 2)
  next
    case 3
    obtain r out' where r: "parse_audio_component_descriptor body out tag cursor len = (r, out')" by fastforce
    have "plain_facts out' = plain_facts out" using plain_facts_audio [of body out tag cursor len] unfolding r by simp
    moreover have "status \<noteq> TruncatedDescriptor" if "r = Inl status" for status
      using component_status(2) [of body out tag cursor len] that unfolding r by simp
    ultimately show ?thesis using r by (cases r) (simp_all add: parse_descriptor_def 3)
  next
    case 4
    obtain r out' where r: "parse_parental_rating_descriptor body out tag cursor len = (r, out')" by fastforce
    have "plain_facts out' = plain_facts out" using plain_facts_rating [of body out tag cursor len] unfolding r by simp
    then show ?thesis using r by (simp add: parse_descriptor_def 4 Let_def)
  next
    case 5
    obtain r out' where r: "parse_series_descriptor body out tag cursor len = (r, out')" by fastforce
    have "plain_facts out' = plain_facts out" using plain_facts_series [of body out tag cursor len] unfolding r by simp
    then show ?thesis using r by (cases r) (simp_all add: parse_descriptor_def 5)
  qed (simp add: parse_descriptor_def)
qed

lemma parse_descriptor_adds:
  assumes "tag \<noteq> 0x4e"
  shows "plain_facts (parse_descriptor tag body cursor len out) = append_all (plain_facts out) (adds (tag, body))"
proof (cases "tag \<in> {0x4d, 0x50, 0xc4, 0x55, 0xd5}")
  case True
  then have "adds (tag, body) = ([], [], [], [], [], [])" by (auto simp: adds_def known_tags_def)
  then show ?thesis using parse_descriptor_other [OF True] by simp
next
  case False
  consider "tag = 0x54" | "tag = 0xd6" | "tag = 0xd9" | "tag = 0x4a" | "tag \<notin> known_tags"
    using False assms by (auto simp: known_tags_def)
  then show ?thesis
  proof cases
    case 1
    then show ?thesis
      by (simp add: parse_descriptor_def parse_content_descriptor_def adds_def known_tags_def plain_facts_def
            pushed_fields even_iff_mod_2_eq_zero)
  next
    case 5
    then show ?thesis
      by (simp add: parse_descriptor_def adds_def known_tags_def plain_facts_def pushed_fields)
  qed (simp_all add: parse_descriptor_def adds_def known_tags_def plain_facts_def pushed_fields
        split: option.split)
qed

subsection \<open>The whole loop\<close>

lemma descriptor_loop_adds:
  assumes "list_all (\<lambda>d. length (snd d) < 256) ds"
  shows "plain_facts (fst (descriptor_loop cursor (concat (map encode_descriptor ds)) out bodies)) =
         foldl append_all (plain_facts out) (map adds ds)"
  using assms
proof (induction ds arbitrary: cursor out bodies)
  case (Cons d ds)
  obtain tag body where d: "d = (tag, body)" by fastforce
  have len: "unat (word_of_nat (length body) :: u8) = length body" using Cons.prems d by (simp add: unat_of_nat)
  show ?case
  proof (cases "tag = 0x4e")
    case True
    then have "adds d = ([], [], [], [], [], [])" by (simp add: d adds_def known_tags_def)
    then show ?thesis using Cons True by (simp add: d encode_descriptor_def len Let_def)
  next
    case False
    then show ?thesis
      using Cons parse_descriptor_adds [OF False] by (simp add: d encode_descriptor_def len Let_def)
  qed
qed simp

lemma fold_adds:
  "foldl append_all (a, b, c, d, e, f) (map adds ds) =
     (a,
      b @ concat (map (\<lambda>(tag, body). if tag = 0x54 \<and> even (length body) then content_items body else []) ds),
      c @ List.map_filter (\<lambda>(tag, body). if tag = 0xd6 then parse_event_group_descriptor body else None) ds,
      d @ List.map_filter (\<lambda>(tag, body). if tag = 0xd9 then parse_component_group_descriptor body else None) ds,
      e @ List.map_filter (\<lambda>(tag, body). if tag = 0x4a then parse_linkage_descriptor body else None) ds,
      f @ filter (\<lambda>(tag, body). tag \<notin> known_tags) ds)"
proof (induction ds arbitrary: a b c d e f)
  case (Cons x ds)
  obtain tag body where x: "x = (tag, body)" by fastforce
  note this_adds = adds_def [of "(tag, body)", unfolded prod.case]
  show ?case by (simp add: x this_adds Cons.IH map_filter_simps split: option.split)
qed (simp add: map_filter_simps)

text \<open>
  C21. A loop of descriptors is taken apart completely and in order: whatever mixture of descriptors is
  encoded, the linkages, event groups, component groups and genres found are those of the descriptors with
  these tags, in the order of the loop, every descriptor with an unknown tag is kept with its bytes, and no
  truncated descriptor is reported.
\<close>

theorem descriptors_kept_in_order:
  assumes "list_all (\<lambda>d. length (snd d) < 256) ds"
  shows "let out = parse_event_descriptors (concat (map encode_descriptor ds)) in
     ed_unknown out = filter (\<lambda>(tag, body). tag \<notin> known_tags) ds \<and>
     ed_linkages out =
       List.map_filter (\<lambda>(tag, body). if tag = 0x4a then parse_linkage_descriptor body else None) ds \<and>
     ed_event_groups out =
       List.map_filter (\<lambda>(tag, body). if tag = 0xd6 then parse_event_group_descriptor body else None) ds \<and>
     ed_component_groups out =
       List.map_filter (\<lambda>(tag, body). if tag = 0xd9 then parse_component_group_descriptor body else None) ds \<and>
     ed_contents out =
       concat (map (\<lambda>(tag, body). if tag = 0x54 \<and> even (length body) then content_items body else []) ds) \<and>
     truncations out = []"
proof -
  have "plain_facts event_descriptors_default = ([], [], [], [], [], [])"
    by (simp add: plain_facts_def event_descriptors_default_def truncations_def)
  then have "plain_facts (parse_event_descriptors (concat (map encode_descriptor ds))) =
      foldl append_all ([], [], [], [], [], []) (map adds ds)"
    using descriptor_loop_adds [OF assms, of 0 event_descriptors_default "[]"]
    by (simp add: parse_event_descriptors_def Let_def case_prod_beta)
  then show ?thesis by (simp add: fold_adds) (simp add: plain_facts_def)
qed

text \<open>A linkage descriptor, one with an unknown tag and a linkage descriptor that is too short.\<close>

theorem descriptors_kept_in_order_witness:
  "let out = parse_event_descriptors [0x4a, 7, 0, 1, 0, 4, 0, 0x65, 3, 0xc1, 1, 0x84, 0x4a, 1, 9] in
     ed_unknown out = [(0xc1, [0x84])] \<and>
     ed_linkages out = [\<lparr>ld_transport_stream_id = 1, ld_original_network_id = 4, ld_service_id = 0x65,
       ld_linkage_type = 3, ld_private_data = []\<rparr>]"
proof -
  have "concat (map encode_descriptor [(0x4a, [0, 1, 0, 4, 0, 0x65, 3]), (0xc1, [0x84]), (0x4a, [9])]) =
      [0x4a, 7, 0, 1, 0, 4, 0, 0x65, 3, 0xc1, 1, 0x84, 0x4a, 1, 9]"
    by (simp add: encode_descriptor_def)
  then show ?thesis
    using descriptors_kept_in_order [of "[(0x4a, [0, 1, 0, 4, 0, 0x65, 3]), (0xc1, [0x84]), (0x4a, [9])]"]
    by (simp add: known_tags_def map_filter_simps parse_linkage_descriptor_def si_u16_at_def be16_def Let_def)
qed

subsection \<open>Truncated descriptors\<close>

lemma descriptor_loop_truncations:
  "truncations (fst (descriptor_loop cursor bs out bodies)) = [] \<longleftrightarrow>
     truncations out = [] \<and> descriptor_loop_well_formed bs"
proof (induction cursor bs out bodies rule: descriptor_loop.induct)
  case (3 cursor tag len rest out bodies)
  show ?case
  proof (cases "length rest < unat len")
    case True
    have "truncations (out'\<lparr>ed_parental_rating_descriptors := x\<rparr>) = truncations out'" for out' x
      by (simp add: truncations_def)
    then show ?thesis using True by (simp add: Let_def)
  next
    case False
    have "truncations (parse_descriptor tag body cursor n out) = truncations out" if "tag \<noteq> 0x4e" for body n
      using parse_descriptor_adds [OF that, of body cursor n out] by (simp add: plain_facts_def adds_def)
    then show ?thesis using 3 False by (simp add: Let_def)
  qed
qed simp_all

text \<open>
  C20. The parser and the check of descriptor loops agree about truncation: \<open>parse_event_descriptors\<close> reports a
  truncated descriptor exactly for the loops that \<open>descriptor_loop_well_formed\<close> rejects.
\<close>

theorem truncation_reported_iff_malformed:
  "descriptor_loop_well_formed bs \<longleftrightarrow>
     list_all (\<lambda>d. dd_parse_status d \<noteq> TruncatedDescriptor) (ed_diagnostics (parse_event_descriptors bs))"
proof -
  have default: "truncations event_descriptors_default = []"
    by (simp add: event_descriptors_default_def truncations_def)
  obtain out bodies where loop: "descriptor_loop 0 bs event_descriptors_default [] = (out, bodies)" by fastforce
  have "truncations (parse_event_descriptors bs) = truncations out"
    using plain_facts_extended [of bodies out]
    by (simp add: parse_event_descriptors_def loop plain_facts_def del: plain_facts_extended)
  also have "\<dots> = [] \<longleftrightarrow> descriptor_loop_well_formed bs"
    using descriptor_loop_truncations [of 0 bs event_descriptors_default "[]"] by (simp add: loop default)
  finally show ?thesis by (simp add: truncations_def filter_empty_conv list_all_iff)
qed

subsection \<open>An item spread over descriptors\<close>

text \<open>
  An extended event descriptor with one item and no text, and what the parser makes of it. The numbers are
  4-bit fields.
\<close>

definition encode_extended :: "nat \<Rightarrow> nat \<Rightarrow> bytes \<Rightarrow> bytes \<Rightarrow> bytes \<Rightarrow> bytes" where
  "encode_extended n last_n language description item_text =
     word_of_nat (16 * n + last_n) # language @
     word_of_nat (length description + length item_text + 2) #
     word_of_nat (length description) # description @ word_of_nat (length item_text) # item_text @ [0]"

definition carries :: "ustring \<Rightarrow> nat \<Rightarrow> nat \<Rightarrow> bytes \<Rightarrow> bytes \<Rightarrow> extended_event_fragment \<Rightarrow> bool" where
  "carries language_code n last_n description item_text f \<longleftrightarrow>
     ef_descriptor_number f = word_of_nat n \<and> ef_last_descriptor_number f = word_of_nat last_n \<and>
     ef_language_code f = language_code \<and> ef_text f = [] \<and>
     (\<exists>item. ef_items f = [item] \<and> xf_description item = description \<and> xf_text item = item_text)"

lemma fragment_items_one:
  assumes "length pre = 5" and "length d < 256" and "length t < 256"
  shows "fragment_items (pre @ word_of_nat (length d) # d @ word_of_nat (length t) # t @ rest) offset
           (5 + (length d + length t + 2)) 5 [] =
         Inr [\<lparr>xf_description = d, xf_text = t, xf_description_offset = offset + 2 + 6,
               xf_text_offset = offset + 2 + (7 + length d)\<rparr>]"
proof -
  let ?body = "pre @ word_of_nat (length d) # d @ word_of_nat (length t) # t @ rest"
  have len: "unat (?body ! 5) = length d" "unat (?body ! (6 + length d)) = length t"
    using assms by (simp_all add: nth_append unat_of_nat)
  have slices: "slice ?body 6 (6 + length d) = d" "slice ?body (7 + length d) (7 + length d + length t) = t"
    using assms(1) by (simp_all add: slice_def)
  have done': "fragment_items ?body offset e (7 + length d + length t) its = Inr its" if "e = 7 + length d + length t" for e its
    using that by (subst fragment_items.simps) simp
  show ?thesis
    by (subst fragment_items.simps) (simp add: len slices done' Let_def)
qed

lemma parse_encoded_fragment:
  assumes "n < 16" and "last_n < 16" and "length language = 3" and "list_all is_ascii_alphabetic language"
    and "length d + length t \<le> 253"
  shows "\<exists>f. parse_extended_event_fragment (encode_extended n last_n language d t) out tag offset l = (Some f, out) \<and>
           carries (ascii_text language) n last_n d t f"
proof -
  let ?body = "encode_extended n last_n language d t"
  let ?pre = "word_of_nat (16 * n + last_n) # language @ [word_of_nat (length d + length t + 2)]"
  have body: "?body = ?pre @ word_of_nat (length d) # d @ word_of_nat (length t) # t @ [0]"
    by (simp add: encode_extended_def)
  have total: "length ?body = length d + length t + 8" by (simp add: encode_extended_def assms(3))
  have none: "slice ?body k k = []" for k by (simp add: slice_def)
  have lang: "slice ?body (Suc 0) 4 = language" by (simp add: encode_extended_def slice_def assms(3))
  have len: "unat (?body ! 4) = length d + length t + 2"
    using assms(3,5) unat_byte [of "length d + length t + 2"]
    by (simp add: encode_extended_def nth_append del: of_nat_add)
  have items: "fragment_items ?body offset (5 + (length d + length t + 2)) 5 [] =
      Inr [\<lparr>xf_description = d, xf_text = t, xf_description_offset = offset + 2 + 6,
            xf_text_offset = offset + 2 + (7 + length d)\<rparr>]"
    unfolding body by (rule fragment_items_one) (use assms in simp_all)
  have last: "?body ! (5 + (length d + length t + 2)) = 0"
    using assms(3) by (simp add: encode_extended_def nth_append)
  have first: "?body ! 0 = word_of_nat (16 * n + last_n)" by (simp add: encode_extended_def)
  show ?thesis
    using assms(4) items last nibbles [OF assms(1,2)]
    by (simp add: parse_extended_event_fragment_def total lang len first carries_def none)
qed

text \<open>The fragments of a text in parts, numbered from \<open>n\<close> on, of which only the first has a description.\<close>

fun carry_parts :: "ustring \<Rightarrow> nat \<Rightarrow> nat \<Rightarrow> bytes list \<Rightarrow> extended_event_fragment list \<Rightarrow> bool" where
  "carry_parts language_code last_n n [] fs \<longleftrightarrow> fs = []"
| "carry_parts language_code last_n n (part # parts) fs \<longleftrightarrow>
     (\<exists>f fs'. fs = f # fs' \<and> carries language_code n last_n [] part f \<and>
        carry_parts language_code last_n (Suc n) parts fs')"

lemma carry_parts_fields:
  "carry_parts language_code last_n n parts fs \<Longrightarrow>
     map ef_descriptor_number fs = map word_of_nat [n..<n + length parts] \<and>
     list_all (\<lambda>f. ef_language_code f = language_code \<and> ef_last_descriptor_number f = word_of_nat last_n) fs"
proof (induction parts arbitrary: n fs)
  case (Cons part parts)
  then obtain f fs' where fs: "fs = f # fs'" "carries language_code n last_n [] part f"
      "carry_parts language_code last_n (Suc n) parts fs'"
    by auto
  have "[n..<n + length (part # parts)] = n # [Suc n..<Suc n + length parts]"
    using upt_conv_Cons [of n "n + length (part # parts)"] by (simp del: upt_Suc)
  then show ?case using Cons.IH [OF fs(3)] fs(1,2) by (simp add: carries_def)
qed simp

lemma decode_nothing: "arib_decode st [] = Inr ([], st)"
  by (simp add: arib_decode_def decode_arib_string_with_policy_def decode_loop.simps trim_nul_def)

lemma fragment_text_none: "ef_text f = [] \<Longrightarrow> fragment_text f out = ([], out)"
  by (simp add: fragment_text_def decode_extended_event_field_def decode_nothing trim_text_def)

lemma follows_next:
  "Suc n < 256 \<Longrightarrow> ef_descriptor_number f = word_of_nat (Suc n) \<Longrightarrow> follows_on (Some (word_of_nat n)) True f"
proof -
  assume n: "Suc n < 256" and f: "ef_descriptor_number f = word_of_nat (Suc n)"
  have "unat (word_of_nat n :: u8) \<noteq> unat (0xff :: u8)" using n unat_byte [of n] by simp
  then have "(word_of_nat n :: u8) \<noteq> 0xff" by auto
  then show ?thesis by (simp add: follows_on_def f add.commute)
qed

lemma fragment_loop_continues:
  assumes "carry_parts language_code last_n (Suc n) parts fs" and "Suc n + length parts \<le> 256"
    and "it_active it" and "it_decoder it = Some st" and "decode_parts st parts = Some rest"
  shows "\<exists>st'. fragment_loop fs (Some (word_of_nat n)) True it texts out =
           (it\<lparr>it_text := it_text it @ rest, it_decoder := Some st'\<rparr>, texts, out)"
  using assms
proof (induction parts arbitrary: n fs it st rest)
  case (Cons part parts)
  obtain f fs' where fs: "fs = f # fs'" "carries language_code (Suc n) last_n [] part f"
      "carry_parts language_code last_n (Suc (Suc n)) parts fs'"
    using Cons.prems(1) by auto
  obtain item where f: "ef_items f = [item]" "xf_description item = []" "xf_text item = part" "ef_text f = []"
      "ef_descriptor_number f = word_of_nat (Suc n)"
    using fs(2) by (auto simp: carries_def)
  obtain t st1 where t: "arib_decode st part = Inr (t, st1)" using Cons.prems(5) by (auto split: sum.splits)
  then obtain rest1 where rest: "decode_parts st1 parts = Some rest1" "rest = t @ rest1"
    using Cons.prems(5) by auto
  have on: "follows_on (Some (word_of_nat n)) True f" using follows_next f(5) Cons.prems(2) by simp
  let ?it = "it\<lparr>it_text := it_text it @ t, it_decoder := Some st1\<rparr>"
  have "append_item_text f item it out = (?it, out)"
    using Cons.prems(4) t f(3) by (simp add: append_item_text_def decode_extended_event_field_def)
  then have "fragment_loop fs (Some (word_of_nat n)) True it texts out =
      fragment_loop fs' (Some (word_of_nat (Suc n))) True ?it texts out"
    using fs(1) f on Cons.prems(3,4) by (simp add: fragment_text_none Let_def)
  then show ?case
    using Cons.IH [OF fs(3), of ?it st1 rest1] Cons.prems(2,3) rest by simp
next
  case Nil
  then show ?case by (intro exI [of _ st]) (cases it; simp)
qed

text \<open>The first fragment starts the item, and the item is complete after the last one.\<close>

lemma fragment_loop_item:
  assumes "carries language_code 0 last_n description part f" and "carry_parts language_code last_n 1 parts fs"
    and "Suc (length parts) \<le> 16" and "description \<noteq> []"
    and "arib_decode invocation_default description = Inr (title, st0)"
    and "decode_parts invocation_default (part # parts) = Some item_text"
  shows "\<exists>st'. fragment_loop (f # fs) None False no_item [] out =
           (no_item\<lparr>it_description := title, it_active := True, it_text := item_text, it_decoder := Some st'\<rparr>, [], out)"
proof -
  obtain item where f: "ef_items f = [item]" "xf_description item = description" "xf_text item = part"
      "ef_text f = []" "ef_descriptor_number f = word_of_nat 0"
    using assms(1) by (auto simp: carries_def)
  obtain t st1 where t: "arib_decode invocation_default part = Inr (t, st1)" using assms(6) by (auto split: sum.splits)
  then obtain rest where rest: "decode_parts st1 parts = Some rest" "item_text = t @ rest" using assms(6) by auto
  let ?it = "no_item\<lparr>it_description := title, it_active := True, it_text := t, it_decoder := Some st1\<rparr>"
  have started: "begin_item f item out =
      (no_item\<lparr>it_description := title, it_decoder := Some invocation_default, it_active := True\<rparr>, out)"
    using assms(4,5) f(2) by (simp add: begin_item_def decode_extended_event_field_def)
  have "flush_item l no_item out = out" for l by (simp add: flush_item_def no_item_def)
  then have "fragment_loop (f # fs) None False no_item [] out =
      fragment_loop fs (Some (word_of_nat 0)) True ?it [] out"
    using f t started assms(4)
    by (simp add: fragment_text_none append_item_text_def decode_extended_event_field_def Let_def)
      (simp add: no_item_def)
  then show ?thesis
    using fragment_loop_continues [of language_code last_n 0 parts fs ?it st1 rest "[]" out] assms(2,3) rest by simp
qed

lemma byte_numbers:
  assumes "m < 256"
  shows "sorted (map word_of_nat [0..<Suc m] :: u8 list)" and "distinct (map word_of_nat [0..<Suc m] :: u8 list)"
proof -
  have le: "word_of_nat a \<le> (word_of_nat b :: u8)" if "a \<le> b" "b < Suc m" for a b
    using that assms by (simp add: word_le_nat_alt unat_byte)
  show "sorted (map word_of_nat [0..<Suc m] :: u8 list)"
    unfolding sorted_map by (rule sorted_wrt_mono_rel [OF _ sorted_upt]) (use le in \<open>simp del: upt_Suc\<close>)
  have "inj_on (word_of_nat :: nat \<Rightarrow> u8) (set [0..<Suc m])"
  proof (rule inj_onI)
    fix a b assume ab: "a \<in> set [0..<Suc m]" "b \<in> set [0..<Suc m]" "word_of_nat a = (word_of_nat b :: u8)"
    then have "a < 256" "b < 256" using assms by (simp_all del: upt_Suc)
    then show "a = b" using arg_cong [OF ab(3), of unat] by (simp only: unat_byte)
  qed
  then show "distinct (map word_of_nat [0..<Suc m] :: u8 list)" by (simp add: distinct_map del: upt_Suc)
qed

lemma parts_numbers:
  assumes "carries language_code 0 last_n description part f" and "carry_parts language_code last_n 1 parts fs"
    and "last_n = length parts"
  shows "map ef_descriptor_number (f # fs) = map word_of_nat [0..<Suc last_n]"
    and "list_all (\<lambda>g. ef_language_code g = language_code \<and> ef_last_descriptor_number g = word_of_nat last_n) (f # fs)"
proof -
  note fields = carry_parts_fields [OF assms(2)]
  have f: "ef_descriptor_number f = word_of_nat 0" "ef_last_descriptor_number f = word_of_nat last_n"
      "ef_language_code f = language_code"
    using assms(1) by (simp_all add: carries_def)
  have "[0..<Suc last_n] = 0 # [1..<1 + length parts]"
    using upt_conv_Cons [of 0 "Suc last_n"] assms(3) by (simp del: upt_Suc)
  then show "map ef_descriptor_number (f # fs) = map word_of_nat [0..<Suc last_n]"
    using f(1) fields by (simp only: list.map)
  show "list_all (\<lambda>g. ef_language_code g = language_code \<and> ef_last_descriptor_number g = word_of_nat last_n) (f # fs)"
    using f fields by simp
qed

lemma parts_in_sequence:
  assumes "carries language_code 0 last_n description part f" and "carry_parts language_code last_n 1 parts fs"
    and "last_n = length parts" and "length parts < 16"
  shows "sort_key ef_descriptor_number (f # fs) = f # fs" and "sequence_ok (f # fs)"
proof -
  note numbers = parts_numbers(1) [OF assms(1-3)] and same = parts_numbers(2) [OF assms(1-3)]
  have m: "last_n < 256" using assms(3,4) by simp
  show "sort_key ef_descriptor_number (f # fs) = f # fs"
    by (rule sort_key_id_if_sorted) (simp only: numbers byte_numbers(1) [OF m])
  have "ef_last_descriptor_number (hd (f # fs)) = word_of_nat last_n" using same by simp
  moreover have "list_all (\<lambda>g. ef_last_descriptor_number g = word_of_nat last_n) (f # fs)"
    using same unfolding list_all_iff by blast
  moreover have "unat (word_of_nat last_n :: u8) = last_n" by (rule unat_byte [OF m])
  moreover have "last_n + 1 = length (f # fs)" using arg_cong [OF numbers, of length] by simp
  moreover have "distinct (map ef_descriptor_number (f # fs))" unfolding numbers by (rule byte_numbers(2) [OF m])
  moreover have "list_all (\<lambda>n. word_of_nat n \<in> set (map ef_descriptor_number (f # fs))) [0..<Suc last_n]"
    unfolding numbers list_all_iff by (simp del: upt_Suc)
  ultimately show "sequence_ok (f # fs)" unfolding sequence_ok_def Let_def by (simp only: simp_thms)
qed

lemma parts_one_language:
  assumes "list_all (\<lambda>g. ef_language_code g = language_code) fs" and "fs \<noteq> []"
  shows "language_order fs = [language_code]" and "filter (\<lambda>g. ef_language_code g = language_code) fs = fs"
proof -
  have known: "foldl (\<lambda>order f. if ef_language_code f \<in> set order then order else order @ [ef_language_code f])
      [language_code] gs = [language_code]" if "list_all (\<lambda>g. ef_language_code g = language_code) gs" for gs
    using that by (induction gs) simp_all
  obtain f gs where fs: "fs = f # gs" using assms(2) by (cases fs) simp_all
  then have "language_order fs = foldl (\<lambda>order f. if ef_language_code f \<in> set order then order
      else order @ [ef_language_code f]) [language_code] gs"
    using assms(1) by (simp add: language_order_def)
  then show "language_order fs = [language_code]" using known [of gs] fs assms(1) by simp
  show "filter (\<lambda>g. ef_language_code g = language_code) fs = fs" using assms(1) by (simp add: list_all_iff)
qed

text \<open>The descriptors of a text in parts, and what the loop over them sets aside.\<close>

fun encode_parts :: "bytes \<Rightarrow> nat \<Rightarrow> nat \<Rightarrow> bytes list \<Rightarrow> (u8 \<times> bytes) list" where
  "encode_parts language last_n n [] = []"
| "encode_parts language last_n n (part # parts) =
     (0x4e, encode_extended n last_n language [] part) # encode_parts language last_n (Suc n) parts"

fun set_aside :: "nat \<Rightarrow> (u8 \<times> bytes) list \<Rightarrow> raw_extended_event_descriptor list" where
  "set_aside cursor [] = []"
| "set_aside cursor ((tag, body) # ds) =
     \<lparr>rx_body = body, rx_tag = tag, rx_offset = cursor, rx_declared_length = length body\<rparr> #
     set_aside (cursor + 2 + length body) ds"

lemma descriptor_loop_sets_aside:
  assumes "list_all (\<lambda>d. fst d = 0x4e \<and> length (snd d) < 256) ds"
  shows "descriptor_loop cursor (concat (map encode_descriptor ds)) out bodies = (out, bodies @ set_aside cursor ds)"
  using assms
proof (induction ds arbitrary: cursor bodies)
  case (Cons d ds)
  obtain body where d: "d = (0x4e, body)" using Cons.prems by (cases d) simp
  have "unat (word_of_nat (length body) :: u8) = length body" using Cons.prems d by (simp add: unat_byte)
  then show ?case using Cons by (simp add: d encode_descriptor_def Let_def)
qed simp

lemma parse_parts:
  assumes "n + length parts \<le> 16" and "last_n < 16" and "length language = 3"
    and "list_all is_ascii_alphabetic language" and "list_all (\<lambda>part. length part \<le> 240) parts"
  shows "\<exists>fs. parse_fragments (set_aside cursor (encode_parts language last_n n parts)) out = (fs, out) \<and>
           carry_parts (ascii_text language) last_n n parts fs"
  using assms(1,5)
proof (induction parts arbitrary: n cursor)
  case (Cons part parts)
  let ?body = "encode_extended n last_n language [] part"
  obtain f where f: "parse_extended_event_fragment ?body out 0x4e cursor (length ?body) = (Some f, out)"
      "carries (ascii_text language) n last_n [] part f"
    using parse_encoded_fragment [where n = n and last_n = last_n and language = language and d = "[]" and t = part
        and out = out and tag = "0x4e" and offset = cursor and l = "length ?body"] Cons.prems assms(2-4)
    by auto
  obtain fs where "parse_fragments (set_aside (cursor + 2 + length ?body) (encode_parts language last_n (Suc n) parts)) out = (fs, out)"
      "carry_parts (ascii_text language) last_n (Suc n) parts fs"
    using Cons.IH [of "Suc n" "cursor + 2 + length ?body"] Cons.prems by auto
  then show ?case using f by auto
qed simp

lemma encode_parts_short:
  assumes "length language = 3" and "list_all (\<lambda>part. length part \<le> 240) parts"
  shows "list_all (\<lambda>d. fst d = 0x4e \<and> length (snd d) < 256) (encode_parts language last_n n parts)"
  using assms(2) by (induction parts arbitrary: n) (simp_all add: encode_extended_def assms(1))

lemma item_from_fragments:
  assumes "carries language_code 0 last_n description part f" and "carry_parts language_code last_n 1 parts fs"
    and "last_n = length parts" and "length parts < 16" and "description \<noteq> []"
    and "arib_decode invocation_default description = Inr (title, st0)"
    and "decode_parts invocation_default (part # parts) = Some item_text" and "title \<noteq> []"
    and "parse_fragments bodies out = (f # fs, out)"
  shows "ed_extended_items (parse_extended_event_fragments bodies out) = ed_extended_items out @
           [\<lparr>xi_language_code = language_code, xi_item_description = trim_text title,
             xi_item_text = trim_text item_text\<rparr>]"
proof -
  have "list_all (\<lambda>g. ef_language_code g = language_code) (f # fs)"
    using parts_numbers(2) [OF assms(1-3)] unfolding list_all_iff by blast
  note one = parts_one_language [OF this]
  note seq = parts_in_sequence [OF assms(1-4)]
  have "Suc (length parts) \<le> 16" using assms(4) by simp
  from fragment_loop_item [OF assms(1,2) this assms(5-7), of out] obtain st where
    loop: "fragment_loop (f # fs) None False no_item [] out =
      (no_item\<lparr>it_description := title, it_active := True, it_text := item_text, it_decoder := Some st\<rparr>, [], out)"
    by blast
  have "parse_extended_language language_code (f # fs) out = out\<lparr>ed_extended_items := ed_extended_items out @
      [\<lparr>xi_language_code = language_code, xi_item_description = trim_text title,
        xi_item_text = trim_text item_text\<rparr>]\<rparr>"
    unfolding parse_extended_language_def Let_def seq(1) loop
    using seq(2) assms(8) by (simp add: flush_item_def no_item_def)
  then show ?thesis
    unfolding parse_extended_event_fragments_def assms(9) Let_def prod.case one(1) [OF list.discI [OF refl]]
    using one(2) [OF list.discI [OF refl]] by simp
qed

text \<open>
  C12. An item of an extended event comes back in one piece. A broadcaster may spread the text of an item over
  up to sixteen descriptors, cut anywhere between two characters; if the parts decode one after the other,
  then the parser finds exactly one item, with its language, its description, and the text that the
  strict decoder gives for the whole text at once.
\<close>

theorem extended_item_reassembled:
  assumes "length language = 3" and "list_all is_ascii_alphabetic language"
    and "length parts < 16" and "length description + length part \<le> 240"
    and "list_all (\<lambda>p. length p \<le> 240) parts"
    and "description \<noteq> []" and "arib_decode invocation_default description = Inr (title, st0)" and "title \<noteq> []"
    and "decode_parts invocation_default (part # parts) \<noteq> None"
    and "decode_loop Strict (concat (part # parts)) 0 invocation_default [] arib_diagnostic_default =
           Inr (item_text, d, st1)"
    and "0 \<notin> set item_text"
  shows "ed_extended_items (parse_event_descriptors (concat (map encode_descriptor
           ((0x4e, encode_extended 0 (length parts) language description part) #
            encode_parts language (length parts) 1 parts)))) =
         [\<lparr>xi_language_code = ascii_text language, xi_item_description = trim_text title,
           xi_item_text = trim_text item_text\<rparr>]"
proof -
  let ?n = "length parts"
  let ?body = "encode_extended 0 ?n language description part"
  let ?ds = "(0x4e, ?body) # encode_parts language ?n 1 parts"
  have "length ?body < 256" using assms(1,4) by (simp add: encode_extended_def)
  then have "list_all (\<lambda>d. fst d = 0x4e \<and> length (snd d) < 256) ?ds"
    using encode_parts_short [OF assms(1,5), of ?n 1] by simp
  note aside = descriptor_loop_sets_aside [OF this, of 0 event_descriptors_default "[]"]
  obtain f where f: "parse_extended_event_fragment ?body event_descriptors_default 0x4e 0 (length ?body) =
        (Some f, event_descriptors_default)"
      and carries: "carries (ascii_text language) 0 ?n description part f"
    using parse_encoded_fragment [where n = 0 and last_n = ?n and language = language and d = description
        and t = part and out = event_descriptors_default and tag = "0x4e" and offset = 0 and l = "length ?body"]
      assms(1-4) by auto
  obtain fs where fs: "parse_fragments (set_aside (2 + length ?body) (encode_parts language ?n 1 parts))
        event_descriptors_default = (fs, event_descriptors_default)"
      and rest: "carry_parts (ascii_text language) ?n 1 parts fs"
    using parse_parts [OF _ assms(3,1,2,5), of 1 "2 + length ?body" event_descriptors_default] assms(3) by auto
  have frags: "parse_fragments (set_aside 0 ?ds) event_descriptors_default = (f # fs, event_descriptors_default)"
    using f fs by simp
  obtain glued where glued: "decode_parts invocation_default (part # parts) = Some glued" using assms(9) by blast
  then have "glued = item_text" using decode_parts_loop [OF assms(10,11)] by simp
  with item_from_fragments [OF carries rest refl assms(3,6,7) glued assms(8) frags] aside
  show ?thesis by (simp add: parse_event_descriptors_def event_descriptors_default_def)
qed

text \<open>An item whose text of two katakana is cut between them; the second part relies on the designation of the first.\<close>

theorem extended_item_reassembled_witness:
  "ed_extended_items (parse_event_descriptors (concat (map encode_descriptor
     [(0x4e, encode_extended 0 1 [0x6a, 0x70, 0x6e] [0x1b, 0x28, 0x49, 0x22] [0x1b, 0x28, 0x49, 0x22]),
      (0x4e, encode_extended 1 1 [0x6a, 0x70, 0x6e] [] [0x24])]))) =
   [\<lparr>xi_language_code = [0x6a, 0x70, 0x6e], xi_item_description = [0x30a2], xi_item_text = [0x30a2, 0x30a4]\<rparr>]"
proof -
  let ?kana = "[0x1b, 0x28, 0x49, 0x22] :: bytes"
  let ?st = "invocation_default\<lparr>is_g0 := Katakana, is_gl := Katakana\<rparr>"
  have one: "arib_decode invocation_default ?kana = Inr ([0x30a2], ?st)"
    by (simp add: arib_decode_def decode_arib_string_with_policy_def katakana_eval trim_nul_def)
  have two: "arib_decode ?st [0x24] = Inr ([0x30a4], ?st)"
    by (simp add: arib_decode_def decode_arib_string_with_policy_def katakana_eval trim_nul_def)
  have whole: "decode_loop Strict (concat [?kana, [0x24]]) 0 invocation_default [] arib_diagnostic_default =
      Inr ([0x30a2, 0x30a4], arib_diagnostic_default, ?st)"
    by (simp add: katakana_eval)
  have "decode_parts invocation_default [?kana, [0x24]] \<noteq> None" using one two by simp
  from extended_item_reassembled [OF _ _ _ _ _ _ one _ this whole, of "[0x6a, 0x70, 0x6e]"]
  show ?thesis
    by (simp add: is_ascii_alphabetic_def in_range_def ascii_text_def trim_text_def is_whitespace_def)
qed

end
