(* ===== verification/Si_Calendar.thy ===== *)
theory Si_Calendar
  imports Tv_Prelude "HOL-Library.Signed_Division"
begin

section \<open>Dates and times in service information\<close>

text \<open>
  The date arithmetic of \<open>arib_si_engine_rs/src/core/eit.rs\<close>: binary coded decimals, the modified Julian
  date of a broadcast time as a civil date, and a civil date as Unix time, on 32-bit integers as in
  the code. The same two functions over the integers are the reference: they are shown to compose to
  counting days, and the 32-bit versions to agree with them for every 16-bit date, so that no
  computation overflows. Rust's \<open>/\<close> on signed integers truncates, which is \<open>sdiv\<close>.
\<close>

definition i32_div :: "i32 \<Rightarrow> i32 \<Rightarrow> i32" where
  "i32_div a b = word_of_int (sint a sdiv sint b)"

definition decode_bcd2 :: "u8 \<Rightarrow> i32 option" where
  "decode_bcd2 v =
     (let hi = drop_bit 4 v AND 0x0f; lo = v AND 0x0f
      in if hi \<le> 9 \<and> lo \<le> 9 then Some (ucast hi * 10 + ucast lo) else None)"

definition mjd_to_ymd :: "i32 \<Rightarrow> i32 \<times> i32 \<times> i32" where
  "mjd_to_ymd mjd =
     (let jd = mjd + 2400001;
          l = jd + 68569;
          n = i32_div (4 * l) 146097;
          l = l - i32_div (146097 * n + 3) 4;
          i = i32_div (4000 * (l + 1)) 1461001;
          l = l - i32_div (1461 * i) 4 + 31;
          j = i32_div (80 * l) 2447;
          day = l - i32_div (2447 * j) 80;
          l = i32_div j 11;
          month = j + 2 - 12 * l;
          year = 100 * (n - 49) + i + l
      in (year, month, day))"

definition civil_to_unix_millis :: "i32 \<Rightarrow> i32 \<Rightarrow> i32 \<Rightarrow> i32 \<Rightarrow> i32 \<Rightarrow> i32 \<Rightarrow> i64" where
  "civil_to_unix_millis year month day hour minute second =
     (let y = year - (if sint month \<le> 2 then 1 else 0);
          era = i32_div (if 0 \<le> sint y then y else y - 399) 400;
          yoe = y - era * 400;
          mp = month + (if 2 < sint month then - 3 else 9);
          doy = i32_div (153 * mp + 2) 5 + day - 1;
          doe = yoe * 365 + i32_div yoe 4 - i32_div yoe 100 + doy;
          days = era * 146097 + doe - 719468
      in (scast days * 86400 + scast hour * 3600 + scast minute * 60 + scast second) * 1000)"

subsection \<open>The reference over the integers\<close>

definition mjd_to_ymd_int :: "int \<Rightarrow> int \<times> int \<times> int" where
  "mjd_to_ymd_int mjd =
     (let jd = mjd + 2400001;
          l = jd + 68569;
          n = 4 * l sdiv 146097;
          l = l - (146097 * n + 3) sdiv 4;
          i = 4000 * (l + 1) sdiv 1461001;
          l = l - 1461 * i sdiv 4 + 31;
          j = 80 * l sdiv 2447;
          day = l - 2447 * j sdiv 80;
          l = j sdiv 11;
          month = j + 2 - 12 * l;
          year = 100 * (n - 49) + i + l
      in (year, month, day))"

definition civil_to_unix_millis_int :: "int \<Rightarrow> int \<Rightarrow> int \<Rightarrow> int \<Rightarrow> int \<Rightarrow> int \<Rightarrow> int" where
  "civil_to_unix_millis_int year month day hour minute second =
     (let y = year - (if month \<le> 2 then 1 else 0);
          era = (if y \<ge> 0 then y else y - 399) sdiv 400;
          yoe = y - era * 400;
          mp = month + (if month > 2 then - 3 else 9);
          doy = (153 * mp + 2) sdiv 5 + day - 1;
          doe = yoe * 365 + yoe sdiv 4 - yoe sdiv 100 + doy;
          days = era * 146097 + doe - 719468
      in (days * 86400 + hour * 3600 + minute * 60 + second) * 1000)"

subsection \<open>The two conversions compose to counting days\<close>

lemma sdiv_nonneg: "0 \<le> a \<Longrightarrow> 0 < b \<Longrightarrow> a sdiv b = a div (b::int)"
  by (cases "a = 0") (simp_all add: signed_divide_int_def)

text \<open>The steps of the conversion, for a day number from 1858 on: century, year of the century, month.\<close>

lemma century_step:
  fixes l :: int
  assumes "n = 4 * l div 146097" and "l1 = l - (146097 * n + 3) div 4"
  shows "0 \<le> l1" and "l1 \<le> 36524"
  using assms by linarith+

lemma year_step:
  fixes l1 :: int
  assumes "0 \<le> l1" and "l1 \<le> 36524" and "i = 4000 * (l1 + 1) div 1461001"
  shows "0 \<le> i" and "i \<le> 99" and "1461 * i div 4 \<le> l1" and "l1 \<le> 1461 * i div 4 + 365"
proof -
  define m where "m = 4000 * (l1 + 1)"
  have "1461001 * i \<le> m" "m < 1461001 * (i + 1)" 
    using assms(3) div_mult_mod_eq [of m 1461001] pos_mod_sign [of 1461001 m] pos_mod_bound [of 1461001 m]
    unfolding m_def [symmetric] by simp_all
  then have lo: "1461001 * i \<le> 4000 * l1 + 4000" and hi: "4000 * l1 + 4000 < 1461001 * i + 1461001"
    by (simp_all add: m_def)
  have "- 1 < i" and "i < 100" using lo hi assms(1,2) by linarith+
  then show i0: "0 \<le> i" and i99: "i \<le> 99" by simp_all
  define q r where "q = i div 4" and "r = i mod 4"
  have iqr: "i = 4 * q + r" "0 \<le> q" "0 \<le> r" "r \<le> 3" "q \<le> 24"
    using i0 i99 by (simp_all add: q_def r_def)
  have "1461 * i = 4 * (1461 * q + 365 * r) + r" by (simp add: iqr(1))
  then have years: "1461 * i div 4 = 1461 * q + 365 * r" using iqr(3,4) by (simp add: div_pos_pos_trivial)
  have "5844004 * q + 1461001 * r \<le> 4000 * l1 + 4000" "4000 * l1 + 4000 < 5844004 * q + 1461001 * r + 1461001"
    using lo hi by (simp_all add: iqr(1))
  then show "1461 * i div 4 \<le> l1" "l1 \<le> 1461 * i div 4 + 365"
    unfolding years using assms(1) iqr(2-5) by linarith+
qed

lemma month_step:
  fixes l2 :: int
  assumes "31 \<le> l2" and "l2 \<le> 396" and "j = 80 * l2 div 2447"
  shows "1 \<le> j" and "j \<le> 12" and "(153 * (j - 1) + 2) div 5 = 2447 * j div 80 - 30"
proof -
  show j: "1 \<le> j" "j \<le> 12" using assms by linarith+
  have "\<forall>j \<in> set [1..12]. (153 * (j - 1) + 2) div 5 = 2447 * j div 80 - (30::int)" by code_simp
  moreover have "j \<in> set [1..12]" using j by simp
  ultimately show "(153 * (j - 1) + 2) div 5 = 2447 * j div 80 - 30" by blast
qed

lemma leap_days:
  fixes n i :: int
  assumes "0 \<le> i" and "i \<le> 99"
  shows "365 * (100 * (n - 49) + i) + (100 * (n - 49) + i) div 4 - (100 * (n - 49) + i) div 100 + (100 * (n - 49) + i) div 400 =
    (146097 * n + 3) div 4 + 1461 * i div 4 - 1789689"
proof -
  define N where "N = n - 49"
  have quarter: "(100 * N + i) div 4 = 25 * N + i div 4" by simp
  have century: "(100 * N + i) div 100 = N" using assms by (simp add: div_pos_pos_trivial)
  have era: "(100 * N + i) div 400 = N div 4"
    using zdiv_zmult2_eq [of 4 "100 * N + i" 100] century by simp
  have "146097 * n + 3 = 4 * (36524 * N + 1789689) + N" by (simp add: N_def)
  then have days: "(146097 * n + 3) div 4 = 36524 * N + 1789689 + N div 4" by simp
  have "1461 * i = 4 * (365 * i) + i" by simp
  then have years: "1461 * i div 4 = 365 * i + i div 4" by simp
  show ?thesis unfolding N_def [symmetric] quarter century era days years by simp
qed

lemma era_days:
  fixes y :: int
  defines "era \<equiv> y div 400" and "yoe \<equiv> y - y div 400 * 400"
  shows "era * 146097 + (yoe * 365 + yoe div 4 - yoe div 100 + d) = 365 * y + y div 4 - y div 100 + y div 400 + d"
proof -
  have y: "yoe = y - era * 400" by (simp add: yoe_def era_def)
  have "yoe = y + 4 * (- 100 * era)" by (simp add: y)
  then have 4: "yoe div 4 = - 100 * era + y div 4" using div_mult_self2 [of 4 y "- 100 * era"] by simp
  have "yoe = y + 100 * (- 4 * era)" by (simp add: y)
  then have 100: "yoe div 100 = - 4 * era + y div 100" using div_mult_self2 [of 100 y "- 4 * era"] by simp
  show ?thesis unfolding 4 100 unfolding y era_def [symmetric] by simp
qed

text \<open>A month and day counted from March, with a year that begins in March.\<close>

lemma civil_from_march:
  assumes "0 \<le> Y" and "1 \<le> j" and "j \<le> 12"
  shows "civil_to_unix_millis_int (Y + j div 11) (j + 2 - 12 * (j div 11)) day h m s =
    ((365 * Y + Y div 4 - Y div 100 + Y div 400 + ((153 * (j - 1) + 2) div 5 + day - 1) - 719468) * 86400 +
     h * 3600 + m * 60 + s) * 1000"
proof -
  have j11: "j div 11 = (if j \<le> 10 then 0 else 1)" using assms(2,3) by auto
  define month where "month = j + 2 - 12 * (j div 11)"
  have y: "Y + j div 11 - (if month \<le> 2 then 1 else 0) = Y" and mp: "month + (if month > 2 then - 3 else 9) = j - 1"
    using assms(2,3) by (auto simp: month_def j11)
  have yoe: "0 \<le> Y - Y div 400 * 400" using pos_mod_sign [of 400 Y] by (simp add: minus_div_mult_eq_mod)
  have era: "(if Y \<ge> 0 then Y else Y - 399) sdiv 400 = Y div 400" using assms(1) by (simp add: sdiv_nonneg)
  have doy: "(153 * (j - 1) + 2) sdiv 5 = (153 * (j - 1) + 2) div 5" using assms(2) by (intro sdiv_nonneg) simp_all
  note quot = sdiv_nonneg [OF yoe, of 4, simplified] sdiv_nonneg [OF yoe, of 100, simplified]
  show ?thesis
    unfolding month_def [symmetric] civil_to_unix_millis_int_def Let_def y mp era doy quot era_days ..
qed

lemma day_sum:
  fixes a b c d y mjd day :: int
  assumes "a = d + y - 1789689" and "b = c - 30" and "mjd = d + y - 31 + c + day - 2468570"
  shows "a + (b + day - 1) - 719468 = mjd - 40587"
  using assms by simp

text \<open>The civil date of a day number from the modified Julian epoch on, counted in days again.\<close>

lemma civil_days_of_mjd:
  assumes "0 \<le> mjd"
  defines "ymd \<equiv> mjd_to_ymd_int mjd"
  shows "civil_to_unix_millis_int (fst ymd) (fst (snd ymd)) (snd (snd ymd)) h m s =
    ((mjd - 40587) * 86400 + h * 3600 + m * 60 + s) * 1000"
proof -
  define l where "l = mjd + 2468570"
  define n where "n = 4 * l div 146097"
  define l1 where "l1 = l - (146097 * n + 3) div 4"
  define i where "i = 4000 * (l1 + 1) div 1461001"
  define l2 where "l2 = l1 - 1461 * i div 4 + 31"
  define j where "j = 80 * l2 div 2447"
  define day where "day = l2 - 2447 * j div 80"
  have n: "67 \<le> n" using zdiv_mono1 [of "4 * 2468570" "4 * l" 146097] assms(1) by (simp add: n_def l_def)
  note c = century_step [OF n_def l1_def]
  note y = year_step [OF c i_def]
  have l2: "31 \<le> l2" "l2 \<le> 396" using y(3,4) unfolding l2_def by linarith+
  note mo = month_step [OF l2 j_def]
  have ymd: "ymd = (100 * (n - 49) + i + j div 11, j + 2 - 12 * (j div 11), day)"
  proof -
    have jd: "mjd + 2400001 + 68569 = l" by (simp add: l_def)
    have q1: "4 * l sdiv 146097 = n" "(146097 * n + 3) sdiv 4 = (146097 * n + 3) div 4"
      unfolding n_def using assms(1) n by (simp_all add: sdiv_nonneg l_def)
    have q2: "4000 * (l1 + 1) sdiv 1461001 = i" "1461 * i sdiv 4 = 1461 * i div 4"
      unfolding i_def using c(1) y(1) by (simp_all add: sdiv_nonneg i_def)
    have q3: "80 * l2 sdiv 2447 = j" "2447 * j sdiv 80 = 2447 * j div 80" "j sdiv 11 = j div 11"
      unfolding j_def using l2(1) mo(1) by (simp_all add: sdiv_nonneg j_def)
    show ?thesis
      unfolding ymd_def mjd_to_ymd_int_def Let_def jd q1 l1_def [symmetric] q2 l2_def [symmetric] q3 day_def [symmetric] ..
  qed
  have Y: "0 \<le> 100 * (n - 49) + i" using n y(1) by simp
  have mjd: "mjd = (146097 * n + 3) div 4 + 1461 * i div 4 - 31 + 2447 * j div 80 + day - 2468570"
    by (simp add: l_def l1_def l2_def day_def)
  have "civil_to_unix_millis_int (fst ymd) (fst (snd ymd)) (snd (snd ymd)) h m s =
      civil_to_unix_millis_int (100 * (n - 49) + i + j div 11) (j + 2 - 12 * (j div 11)) day h m s"
    by (simp add: ymd)
  also have "\<dots> = ((mjd - 40587) * 86400 + h * 3600 + m * 60 + s) * 1000"
    unfolding civil_from_march [OF Y mo(1,2)] day_sum [OF leap_days [OF y(1,2)] mo(3) mjd] ..
  finally show ?thesis .
qed

subsection \<open>The 32-bit computation agrees with the reference\<close>

definition fits :: "int \<Rightarrow> bool" where
  "fits k \<longleftrightarrow> - (2 ^ 31) \<le> k \<and> k < 2 ^ 31"

lemma sint_i32: "fits k \<Longrightarrow> sint (word_of_int k :: i32) = k"
  unfolding fits_def by (transfer fixing: k) (simp add: signed_take_bit_int_eq_self)

lemma i32_div_of_int: "fits a \<Longrightarrow> fits b \<Longrightarrow> i32_div (word_of_int a) (word_of_int b) = word_of_int (a sdiv b)"
  by (simp add: i32_div_def sint_i32)

lemma i32_div_pos:
  "0 \<le> a \<Longrightarrow> a < 2 ^ 31 \<Longrightarrow> 0 < b \<Longrightarrow> b < 2 ^ 31 \<Longrightarrow> i32_div (word_of_int a) (word_of_int b) = word_of_int (a div b)"
  by (simp add: i32_div_of_int fits_def sdiv_nonneg)

lemma mjd_to_ymd_agrees:
  assumes "0 \<le> mjd" and "mjd \<le> 0xffff"
  obtains y m d where "mjd_to_ymd_int mjd = (y, m, d)"
    and "mjd_to_ymd (word_of_int mjd) = (word_of_int y, word_of_int m, word_of_int d)"
    and "1800 \<le> y" "y \<le> 2100" "1 \<le> m" "m \<le> 12" "- 400 \<le> d" "d \<le> 400"
proof -
  define l where "l = mjd + 2468570"
  define n where "n = 4 * l div 146097"
  define l1 where "l1 = l - (146097 * n + 3) div 4"
  define i where "i = 4000 * (l1 + 1) div 1461001"
  define l2 where "l2 = l1 - 1461 * i div 4 + 31"
  define j where "j = 80 * l2 div 2447"
  define d where "d = l2 - 2447 * j div 80"
  have n: "67 \<le> n" "n \<le> 69"
    using zdiv_mono1 [of "4 * 2468570" "4 * l" 146097] zdiv_mono1 [of "4 * l" "4 * 2534105" 146097] assms
    by (simp_all add: n_def l_def)
  note c = century_step [OF n_def l1_def]
  note y = year_step [OF c i_def]
  have l2: "31 \<le> l2" "l2 \<le> 396" using y(3,4) unfolding l2_def by linarith+
  note mo = month_step [OF l2 j_def]
  have q: "4 * l sdiv 146097 = n" "(146097 * n + 3) sdiv 4 = (146097 * n + 3) div 4"
      "4000 * (l1 + 1) sdiv 1461001 = i" "1461 * i sdiv 4 = 1461 * i div 4"
      "80 * l2 sdiv 2447 = j" "2447 * j sdiv 80 = 2447 * j div 80" "j sdiv 11 = j div 11"
    using assms(1) n c(1) y(1) l2(1) mo(1) by (simp_all add: sdiv_nonneg n_def i_def j_def l_def)
  have i': "i = (4000 * l1 + 4000) div 1461001" by (simp add: i_def)
  have w: "i32_div (4 * word_of_int l) 146097 = word_of_int n"
      "i32_div (146097 * word_of_int n + 3) 4 = word_of_int ((146097 * n + 3) div 4)"
      "i32_div (4000 * (word_of_int l1 + 1)) 1461001 = word_of_int i"
      "i32_div (1461 * word_of_int i) 4 = word_of_int (1461 * i div 4)"
      "i32_div (80 * word_of_int l2) 2447 = word_of_int j"
      "i32_div (2447 * word_of_int j) 80 = word_of_int (2447 * j div 80)"
      "i32_div (word_of_int j) 11 = word_of_int (j div 11)"
    using i32_div_pos [of "4 * l" 146097] i32_div_pos [of "146097 * n + 3" 4] i32_div_pos [of "4000 * (l1 + 1)" 1461001]
      i32_div_pos [of "1461 * i" 4] i32_div_pos [of "80 * l2" 2447] i32_div_pos [of "2447 * j" 80] i32_div_pos [of j 11]
      assms n c y(1,2) l2 mo(1,2)
    by (simp_all add: n_def [symmetric] i' [symmetric] j_def [symmetric]) (simp_all add: l_def)
  have sums: "word_of_int mjd + 2400001 + 68569 = (word_of_int l :: i32)"
      "word_of_int l - word_of_int ((146097 * n + 3) div 4) = (word_of_int l1 :: i32)"
      "word_of_int l1 - word_of_int (1461 * i div 4) + 31 = (word_of_int l2 :: i32)"
      "word_of_int l2 - word_of_int (2447 * j div 80) = (word_of_int d :: i32)"
    by (simp_all add: l_def l1_def l2_def d_def)
  have int_sums: "mjd + 2400001 + 68569 = l" by (simp add: l_def)
  have j11: "0 \<le> j div 11" "j div 11 \<le> 1" using mo(1,2) by auto
  show ?thesis
  proof (rule that)
    show "mjd_to_ymd_int mjd = (100 * (n - 49) + i + j div 11, j + 2 - 12 * (j div 11), d)"
      unfolding mjd_to_ymd_int_def Let_def int_sums q l1_def [symmetric] q l2_def [symmetric] q d_def [symmetric] ..
    show "mjd_to_ymd (word_of_int mjd) =
        (word_of_int (100 * (n - 49) + i + j div 11), word_of_int (j + 2 - 12 * (j div 11)), word_of_int d)"
      unfolding mjd_to_ymd_def Let_def sums w sums w sums w sums by simp
    show "1 \<le> j + 2 - 12 * (j div 11)" "j + 2 - 12 * (j div 11) \<le> 12" using mo(1,2) by auto
    have "2447 * j div 80 \<le> 367" "0 \<le> 2447 * j div 80" using mo(1,2) by auto
    then show "- 400 \<le> d" "d \<le> 400" using l2 by (simp_all add: d_def)
  qed (use n y(1,2) j11 in simp_all)
qed

lemma scast_i64: "fits k \<Longrightarrow> scast (word_of_int k :: i32) = (word_of_int k :: i64)"
  by (simp add: scast_eq sint_i32)

lemma civil_agrees:
  assumes "1800 \<le> y" "y \<le> 2100" and "1 \<le> m" "m \<le> 12" and "- 400 \<le> d" "d \<le> 400"
    and "fits hour" and "fits minute" and "fits second"
  shows "civil_to_unix_millis (word_of_int y) (word_of_int m) (word_of_int d) (word_of_int hour)
           (word_of_int minute) (word_of_int second) =
         word_of_int (civil_to_unix_millis_int y m d hour minute second)"
proof -
  define Y where "Y = y - (if m \<le> 2 then 1 else 0)"
  define E where "E = Y div 400"
  define R where "R = Y - E * 400"
  define M where "M = m + (if m > 2 then - 3 else 9)"
  have m: "sint (word_of_int m :: i32) = m" using assms by (intro sint_i32) (simp add: fits_def)
  have Y: "0 \<le> Y" "Y \<le> 2100" using assms by (auto simp: Y_def)
  then have sY: "sint (word_of_int Y :: i32) = Y" by (intro sint_i32) (simp add: fits_def)
  have E: "0 \<le> E" "E \<le> 5" using Y by (auto simp: E_def)
  have R: "0 \<le> R" "R < 400" using Y by (simp_all add: R_def E_def minus_div_mult_eq_mod)
  have M: "0 \<le> M" "M \<le> 11" using assms by (auto simp: M_def)
  have sums: "word_of_int y - (if m \<le> 2 then 1 else 0) = (word_of_int Y :: i32)"
      "word_of_int Y - word_of_int E * 400 = (word_of_int R :: i32)"
      "word_of_int m + (if 2 < m then - 3 else 9) = (word_of_int M :: i32)"
    by (simp_all add: Y_def R_def M_def)
  have w: "i32_div (word_of_int Y) 400 = word_of_int E" "i32_div (153 * word_of_int M + 2) 5 = word_of_int ((153 * M + 2) div 5)"
      "i32_div (word_of_int R) 4 = word_of_int (R div 4)" "i32_div (word_of_int R) 100 = word_of_int (R div 100)"
    using i32_div_pos [of Y 400] i32_div_pos [of "153 * M + 2" 5] i32_div_pos [of R 4] i32_div_pos [of R 100] Y R M
    by (simp_all add: E_def)
  define D where "D = E * 146097 + (R * 365 + R div 4 - R div 100 + ((153 * M + 2) div 5 + d - 1)) - 719468"
  have "(153 * M + 2) div 5 \<le> 337" "0 \<le> (153 * M + 2) div 5" "0 \<le> R div 4" "R div 4 \<le> 100" "0 \<le> R div 100" "R div 100 \<le> 4"
    using M R by auto
  then have fitsD: "fits D" using E R assms(5,6) by (simp add: D_def fits_def)
  have D: "word_of_int E * 146097 + (word_of_int R * 365 + word_of_int (R div 4) - word_of_int (R div 100) +
      (word_of_int ((153 * M + 2) div 5) + word_of_int d - 1)) - 719468 = (word_of_int D :: i32)"
    by (simp add: D_def)
  have refs: "Y sdiv 400 = E" "R sdiv 4 = R div 4" "R sdiv 100 = R div 100" "(153 * M + 2) sdiv 5 = (153 * M + 2) div 5"
    using Y R M by (simp_all add: sdiv_nonneg E_def)
  have "civil_to_unix_millis_int y m d hour minute second = (D * 86400 + hour * 3600 + minute * 60 + second) * 1000"
    unfolding civil_to_unix_millis_int_def Let_def Y_def [symmetric] M_def [symmetric] using Y(1)
    by (simp only: if_True refs R_def [symmetric] D_def)
  moreover have "civil_to_unix_millis (word_of_int y) (word_of_int m) (word_of_int d) (word_of_int hour)
      (word_of_int minute) (word_of_int second) =
      (word_of_int D * 86400 + word_of_int hour * 3600 + word_of_int minute * 60 + word_of_int second) * 1000"
    unfolding civil_to_unix_millis_def Let_def m sums sY using Y(1)
    by (simp only: if_True w sums D scast_i64 fitsD assms(7-9))
  ultimately show ?thesis by simp
qed

lemma sint_i64: "- (2 ^ 63) \<le> k \<Longrightarrow> k < 2 ^ 63 \<Longrightarrow> sint (word_of_int k :: i64) = k"
  by (transfer fixing: k) (simp add: signed_take_bit_int_eq_self)

lemma civil_of_mjd:
  assumes "0 \<le> mjd" and "mjd \<le> 0xffff" and "fits h" and "fits mi" and "fits s"
  shows "(case mjd_to_ymd (word_of_int mjd) of (year, month, day) \<Rightarrow>
            civil_to_unix_millis year month day (word_of_int h) (word_of_int mi) (word_of_int s)) =
         word_of_int (((mjd - 40587) * 86400 + h * 3600 + mi * 60 + s) * 1000)"
proof -
  obtain y m d where ymd: "mjd_to_ymd_int mjd = (y, m, d)"
      "mjd_to_ymd (word_of_int mjd) = (word_of_int y, word_of_int m, word_of_int d)"
      "1800 \<le> y" "y \<le> 2100" "1 \<le> m" "m \<le> 12" "- 400 \<le> d" "d \<le> 400"
    by (rule mjd_to_ymd_agrees [OF assms(1,2)])
  have "civil_to_unix_millis_int y m d h mi s = ((mjd - 40587) * 86400 + h * 3600 + mi * 60 + s) * 1000"
    using civil_days_of_mjd [OF assms(1), of h mi s] by (simp add: ymd(1))
  then show ?thesis using civil_agrees [OF ymd(3-8) assms(3-5)] by (simp only: ymd(2) prod.case)
qed

text \<open>
  C19. The date arithmetic does not overflow and is exact. For every 16-bit modified Julian date and every time
  of day, the 32-bit conversion to a civil date gives the civil date that the same formulas give over the
  integers, and the conversion to Unix time gives the milliseconds since 1970, counted from the date as days.
\<close>

theorem date_arithmetic_exact:
  assumes "0 \<le> mjd" and "mjd \<le> 0xffff" and "0 \<le> h" and "h \<le> 99" and "0 \<le> mi" and "mi \<le> 99" and "0 \<le> s" and "s \<le> 99"
  shows "case mjd_to_ymd (word_of_int mjd) of (year, month, day) \<Rightarrow>
     (sint year, sint month, sint day) = mjd_to_ymd_int mjd \<and>
     sint (civil_to_unix_millis year month day (word_of_int h) (word_of_int mi) (word_of_int s)) =
       ((mjd - 40587) * 86400 + h * 3600 + mi * 60 + s) * 1000"
proof -
  obtain y m d where ymd: "mjd_to_ymd_int mjd = (y, m, d)"
      "mjd_to_ymd (word_of_int mjd) = (word_of_int y, word_of_int m, word_of_int d)"
      "1800 \<le> y" "y \<le> 2100" "1 \<le> m" "m \<le> 12" "- 400 \<le> d" "d \<le> 400"
    by (rule mjd_to_ymd_agrees [OF assms(1,2)])
  have fit: "fits h" "fits mi" "fits s" "fits y" "fits m" "fits d"
    using assms(3-8) ymd(3-8) by (simp_all add: fits_def)
  have "sint (word_of_int (((mjd - 40587) * 86400 + h * 3600 + mi * 60 + s) * 1000) :: i64) =
      ((mjd - 40587) * 86400 + h * 3600 + mi * 60 + s) * 1000"
    using assms by (intro sint_i64) simp_all
  then show ?thesis using civil_of_mjd [OF assms(1,2) fit(1-3)] by (simp add: ymd(1,2) sint_i32 fit)
qed

text \<open>The 13th of October 1993 is day 49273 of the modified Julian calendar.\<close>

theorem date_arithmetic_exact_witness:
  "sint (civil_to_unix_millis (fst (mjd_to_ymd 49273)) (fst (snd (mjd_to_ymd 49273)))
     (snd (snd (mjd_to_ymd 49273))) 12 45 0) = 750516300000"
  using date_arithmetic_exact [of 49273 12 45 0] by (simp add: case_prod_beta)

subsection \<open>Binary coded decimals\<close>

definition encode_bcd :: "nat \<Rightarrow> u8" where
  "encode_bcd k = word_of_nat (16 * (k div 10) + k mod 10)"

lemma decode_encode_bcd:
  assumes "k < 100"
  shows "decode_bcd2 (encode_bcd k) = Some (word_of_int (int k))"
proof -
  have k: "k div 10 < 16" "k mod 10 < 16" using assms by auto
  have le: "word_of_nat (k div 10) \<le> (9 :: u8)" "word_of_nat (k mod 10) \<le> (9 :: u8)"
    using assms by (simp_all add: word_le_nat_alt unat_byte less_Suc_eq_le [symmetric])
  have "ucast (word_of_nat j :: u8) = (word_of_nat j :: i32)" if "j < 16" for j
    using that by (simp add: unsigned_of_nat take_bit_nat_eq_self)
  then have "ucast (word_of_nat (k div 10) :: u8) * 10 + ucast (word_of_nat (k mod 10) :: u8) =
      (word_of_nat (k div 10) * 10 + word_of_nat (k mod 10) :: i32)"
    using k by simp
  also have "\<dots> = word_of_nat (k div 10 * 10 + k mod 10)" 
    by (simp only: of_nat_add of_nat_mult of_nat_numeral)
  finally have "ucast (word_of_nat (k div 10) :: u8) * 10 + ucast (word_of_nat (k mod 10) :: u8) =
      (word_of_int (int k) :: i32)"
    by simp
  then show ?thesis
    unfolding decode_bcd2_def encode_bcd_def nibbles [OF k] Let_def using le by simp
qed

end
