(* ===== verification/Si_Eit.thy ===== *)
theory Si_Eit
  imports Si_Calendar Si_Descriptors
begin

section \<open>Event information tables\<close>

text \<open>
  \<open>arib_si_engine_rs/src/core/eit.rs\<close>: the parser of one section of an event information table, and
  \<open>broadcast_clock.rs\<close>, the parser of the tables that carry the time of day. The loop over the events of a
  section is \<open>event_loop\<close>; a section whose last event is cut off gives the event with what is there of
  its descriptors. The texts of event diagnostics are left out.
\<close>

subsection \<open>Data\<close>

datatype eit_scope =
  PresentFollowingActual | PresentFollowingOther | ScheduleActual | ScheduleOther | UnknownScope

datatype eit_timing_state = TimingDefined | UndefinedTime | BothTimingUndefined | MalformedTiming

definition has_stable_identity :: "eit_timing_state \<Rightarrow> bool" where
  "has_stable_identity s \<longleftrightarrow> s = TimingDefined \<or> s = UndefinedTime"

record eit_stable_event_identity =
  ei_original_network_id :: u16
  ei_transport_stream_id :: u16
  ei_service_id :: u16
  ei_event_id :: u16

record eit_event_diagnostic =
  eg_event_identity :: "eit_stable_event_identity option"
  eg_parse_status :: descriptor_parse_status
  eg_descriptor_diagnostics :: "descriptor_diag list"
  eg_malformed_descriptor_count :: nat

record eit_event =
  ev_diagnostics :: "eit_event_diagnostic list"
  ev_table_id :: u8
  ev_version :: u8
  ev_section_number :: u8
  ev_last_section_number :: u8
  ev_scope :: eit_scope
  ev_service_id :: u16
  ev_transport_stream_id :: u16
  ev_original_network_id :: u16
  ev_event_id :: u16
  ev_timing_state :: eit_timing_state
  ev_raw_start_time :: bytes
  ev_raw_duration :: bytes
  ev_start_time_millis :: i64
  ev_duration_millis :: i64
  ev_free_ca_mode :: bool
  ev_descriptors :: event_descriptors

record eit_section_facts =
  ef_events :: "eit_event list"
  ef_event_loop_complete :: bool

definition eit_section_facts_default :: eit_section_facts where
  "eit_section_facts_default = \<lparr>ef_events = [], ef_event_loop_complete = False\<rparr>"

definition classify_table_id :: "u8 \<Rightarrow> eit_scope" where
  "classify_table_id table_id =
     (if table_id = 0x4e then PresentFollowingActual
      else if table_id = 0x4f then PresentFollowingOther
      else if in_range 0x50 0x5f table_id then ScheduleActual
      else if in_range 0x60 0x6f table_id then ScheduleOther
      else UnknownScope)"

subsection \<open>Times\<close>

definition decode_duration_millis :: "bytes \<Rightarrow> nat \<Rightarrow> i64 option" where
  "decode_duration_millis bs offset =
     (case (decode_bcd2 (bs ! offset), decode_bcd2 (bs ! (offset + 1)), decode_bcd2 (bs ! (offset + 2))) of
        (Some h, Some m, Some s) \<Rightarrow>
          if sint m > 59 \<or> sint s > 59 then None
          else Some (scast (h * 3600 + m * 60 + s) * 1000)
      | _ \<Rightarrow> None)"

definition decode_mjd_bcd_millis :: "bytes \<Rightarrow> nat \<Rightarrow> i64 option" where
  "decode_mjd_bcd_millis bs offset =
     (let mjd = ucast (si_u16_at bs offset) :: i32
      in if mjd = 0xffff then None
         else
           (case mjd_to_ymd mjd of
              (year, month, day) \<Rightarrow>
                (case (decode_bcd2 (bs ! (offset + 2)), decode_bcd2 (bs ! (offset + 3)),
                       decode_bcd2 (bs ! (offset + 4))) of
                   (Some h, Some m, Some s) \<Rightarrow>
                     if sint h > 23 \<or> sint m > 59 \<or> sint s > 59 then None
                     else Some (civil_to_unix_millis year month day h m s - 9 * 60 * 60 * 1000)
                 | _ \<Rightarrow> None)))"

definition all_ff :: "bytes \<Rightarrow> bool" where
  "all_ff bs \<longleftrightarrow> list_all (\<lambda>b. b = 0xff) bs"

definition classify_timing ::
  "bytes \<Rightarrow> nat \<Rightarrow> nat \<Rightarrow> eit_timing_state \<times> i64 option \<times> i64 option" where
  "classify_timing bs start_offset duration_offset =
     (let start_undefined = all_ff (slice bs start_offset (start_offset + 5));
          duration_undefined = all_ff (slice bs duration_offset (duration_offset + 3))
      in if start_undefined \<and> duration_undefined then (BothTimingUndefined, None, None)
         else if start_undefined \<or> duration_undefined then
           let start = (if start_undefined then None else decode_mjd_bcd_millis bs start_offset);
               duration = (if duration_undefined then None else decode_duration_millis bs duration_offset)
           in if \<not> start_undefined \<and> start = None \<or> \<not> duration_undefined \<and> duration = None
              then (MalformedTiming, start, duration)
              else (UndefinedTime, start, duration)
         else
           let start = decode_mjd_bcd_millis bs start_offset;
               duration = decode_duration_millis bs duration_offset
           in if start = None \<or> duration = None then (MalformedTiming, start, duration)
              else (TimingDefined, start, duration))"

subsection \<open>Sections\<close>

definition unwrap_or :: "'a \<Rightarrow> 'a option \<Rightarrow> 'a" where
  "unwrap_or d v = (case v of None \<Rightarrow> d | Some x \<Rightarrow> x)"

text \<open>The parts of an event that starts at \<open>cursor\<close>: the end its descriptor loop declares, its descriptors, its diagnostics.\<close>

definition desc_end_at :: "bytes \<Rightarrow> nat \<Rightarrow> nat" where
  "desc_end_at sec cursor = cursor + 12 + length12 (sec ! (cursor + 10)) (sec ! (cursor + 11))"

definition event_descriptors_at :: "bytes \<Rightarrow> nat \<Rightarrow> nat \<Rightarrow> event_descriptors" where
  "event_descriptors_at sec body_end cursor =
     (let desc_start = cursor + 12;
          desc_end = desc_end_at sec cursor;
          available = slice sec desc_start (min desc_end body_end);
          descriptors = parse_event_descriptors available
      in if body_end < desc_end
         then descriptors\<lparr>
                ed_truncated_loop := Some \<lparr>tl_declared_length = desc_end - desc_start, tl_raw_bytes = available\<rparr>,
                ed_diagnostics := ed_diagnostics descriptors @
                  [event_descriptor_loop_truncated_diagnostic desc_start (desc_end - desc_start)
                     (body_end - desc_start) (slice sec desc_start body_end)]\<rparr>
         else descriptors)"

definition event_diagnostics ::
  "eit_timing_state \<Rightarrow> eit_stable_event_identity option \<Rightarrow> event_descriptors \<Rightarrow> eit_event_diagnostic list" where
  "event_diagnostics timing_state identity descriptors =
     (if timing_state = MalformedTiming
      then [\<lparr>eg_event_identity = None, eg_parse_status = InvalidSequence, eg_descriptor_diagnostics = [],
             eg_malformed_descriptor_count = 0\<rparr>]
      else []) @
     map (\<lambda>diagnostic.
         \<lparr>eg_event_identity = identity, eg_parse_status = dd_parse_status diagnostic,
          eg_descriptor_diagnostics = [diagnostic],
          eg_malformed_descriptor_count =
            (if is_structural_error (dd_parse_status diagnostic) then 1 else 0)\<rparr>)
       (ed_diagnostics descriptors)"

definition parse_event :: "bytes \<Rightarrow> si_section_header \<Rightarrow> nat \<Rightarrow> nat \<Rightarrow> eit_event" where
  "parse_event sec header body_end cursor =
     (let service_id = si_u16_at sec 3; tsid = si_u16_at sec 8; onid = si_u16_at sec 10;
          event_id = si_u16_at sec cursor;
          (timing_state, start, duration) = classify_timing sec (cursor + 2) (cursor + 7);
          descriptors = event_descriptors_at sec body_end cursor;
          identity =
            (if has_stable_identity timing_state
             then Some \<lparr>ei_original_network_id = onid, ei_transport_stream_id = tsid,
                        ei_service_id = service_id, ei_event_id = event_id\<rparr>
             else None)
      in \<lparr>ev_diagnostics = event_diagnostics timing_state identity descriptors,
          ev_table_id = ih_table_id header, ev_version = unwrap_or 0 (ih_version header),
          ev_section_number = unwrap_or 0 (ih_section_number header),
          ev_last_section_number = unwrap_or 0 (ih_last_section_number header),
          ev_scope = classify_table_id (ih_table_id header), ev_service_id = service_id,
          ev_transport_stream_id = tsid, ev_original_network_id = onid, ev_event_id = event_id,
          ev_timing_state = timing_state, ev_raw_start_time = slice sec (cursor + 2) (cursor + 7),
          ev_raw_duration = slice sec (cursor + 7) (cursor + 10), ev_start_time_millis = unwrap_or 0 start,
          ev_duration_millis = unwrap_or 0 duration, ev_free_ca_mode = (sec ! (cursor + 10) AND 0x10 \<noteq> 0),
          ev_descriptors = descriptors\<rparr>)"

text \<open>The events, and the cursor when the loop ends.\<close>

function event_loop :: "bytes \<Rightarrow> si_section_header \<Rightarrow> nat \<Rightarrow> nat \<Rightarrow> eit_event list \<times> nat" where
  "event_loop sec header body_end cursor =
     (if cursor + 12 \<le> body_end then
        let event = parse_event sec header body_end cursor;
            desc_end = desc_end_at sec cursor
        in if body_end < desc_end then ([event], cursor)
           else (case event_loop sec header body_end desc_end of (events, end_cursor) \<Rightarrow> (event # events, end_cursor))
      else ([], cursor))"
  by pat_completeness auto
termination
  by (relation "measure (\<lambda>(sec, header, body_end, cursor). body_end - cursor)") (auto simp: desc_end_at_def)

declare event_loop.simps [simp del]

definition parse_eit_section_facts :: "bytes \<Rightarrow> eit_section_facts" where
  "parse_eit_section_facts sec =
     (case si_parse_section_header sec of
        None \<Rightarrow> eit_section_facts_default
      | Some header \<Rightarrow>
          if \<not> in_range 0x4e 0x6f (ih_table_id header) \<or> length sec < ih_total_length header \<or>
             ih_section_length header < 4
          then eit_section_facts_default
          else
            let body_end = 3 + ih_section_length header - 4
            in if length sec < 14 \<or> body_end < 14 then eit_section_facts_default
               else
                 (case event_loop sec header body_end 14 of
                    (events, end_cursor) \<Rightarrow>
                      \<lparr>ef_events = events, ef_event_loop_complete = (end_cursor = body_end)\<rparr>))"

definition parse_eit_section :: "bytes \<Rightarrow> eit_event list" where
  "parse_eit_section sec = ef_events (parse_eit_section_facts sec)"

subsection \<open>The broadcast clock\<close>

record broadcast_clock_fact =
  bc_table_id :: u8
  bc_mjd :: u16
  bc_millis_of_day :: u32

definition decode_bcd :: "u8 \<Rightarrow> u32 option" where
  "decode_bcd value =
     (let high = drop_bit 4 value; low = value AND 0x0f
      in if high \<le> 9 \<and> low \<le> 9 then Some (ucast high * 10 + ucast low) else None)"

definition clock_section_ok :: "bytes \<Rightarrow> si_section_header \<Rightarrow> bool" where
  "clock_section_ok sec header =
     (if ih_table_id header = 0x70 then ih_section_length header = 5 \<and> length sec = 8
      else if ih_table_id header = 0x73 then
        \<not> (ih_section_length header < 11 \<or> length sec < 14 \<or> sec ! 8 AND 0xf0 \<noteq> 0xf0) \<and>
        ih_section_length header = 11 + length12 (sec ! 8) (sec ! 9) \<and>
        section_crc_valid_with_header sec header \<and>
        descriptor_loop_well_formed (slice sec 10 (ih_total_length header - 4))
      else False)"

definition parse_broadcast_clock :: "bytes \<Rightarrow> si_section_header \<Rightarrow> broadcast_clock_fact option" where
  "parse_broadcast_clock sec header =
     (if length sec < 8 \<or> sec ! 1 AND 0xf0 \<noteq> 0x70 \<or> sec ! 1 AND 0x0c \<noteq> 0 then None
      else if ih_syntax header \<or> length sec \<noteq> ih_total_length header then None
      else if \<not> clock_section_ok sec header then None
      else
        (case (decode_bcd (sec ! 5), decode_bcd (sec ! 6), decode_bcd (sec ! 7)) of
           (Some hour, Some minute, Some second) \<Rightarrow>
             if hour > 23 \<or> minute > 59 \<or> second > 59 then None
             else Some \<lparr>bc_table_id = ih_table_id header, bc_mjd = be16 (sec ! 3) (sec ! 4),
                    bc_millis_of_day = (hour * 3600 + minute * 60 + second) * 1000\<rparr>
         | _ \<Rightarrow> None))"

end
