(* ===== verification/Si_Eit_Facts.thy ===== *)
theory Si_Eit_Facts
  imports Si_Eit
begin

section \<open>Events come back as they were sent\<close>

text \<open>
  The round trip of a section of an event information table: events with a defined time are encoded as a
  broadcaster does, and \<open>parse_eit_section_facts\<close> finds them again, with exact times.
\<close>

subsection \<open>Fields\<close>

definition hi8 :: "u16 \<Rightarrow> u8" where
  "hi8 w = ucast (drop_bit 8 w)"

definition lo8 :: "u16 \<Rightarrow> u8" where
  "lo8 w = ucast w"

lemma be16_bytes [simp]: "be16 (hi8 w) (lo8 w) = w"
  by (rule bit_word_eqI) (auto simp: be16_def hi8_def lo8_def bit_simps)

lemma shift_or:
  fixes q r :: nat
  assumes "r < 256"
  shows "push_bit 8 q OR r = 256 * q + r"
proof -
  have "take_bit 8 r = r" using assms by (simp add: take_bit_nat_eq_self)
  then have "push_bit 8 q AND r = 0" by (metis (no_types, lifting) bit_and_iff bit_push_bit_iff bit_take_bit_iff bit_0_eq bot_apply bot_bool_def leD bit_eqI)
  then show ?thesis by (simp add: disjunctive_add_eq_or [symmetric] push_bit_eq_mult)
qed

text \<open>A 12-bit length in the lower half of one byte and in the next one; the flag is bit 4 of the first.\<close>

definition flagged_hi :: "bool \<Rightarrow> nat \<Rightarrow> u8" where
  "flagged_hi flag n = word_of_nat (16 * (if flag then 1 else 0) + n div 256)"

lemma flagged_length:
  assumes "n < 4096"
  shows "length12 (flagged_hi flag n) (word_of_nat (n mod 256)) = n" and "flagged_hi flag n AND 0x10 \<noteq> 0 \<longleftrightarrow> flag"
proof -
  have q: "n div 256 < 16" using assms by auto
  have "flagged_hi flag n AND 0x0f = word_of_nat (n div 256)"
    unfolding flagged_hi_def by (rule nibbles(2)) (use q in simp_all)
  then show "length12 (flagged_hi flag n) (word_of_nat (n mod 256)) = n"
    using q by (simp add: length12_def unat_byte shift_or)
  have "n div 256 \<in> set [0..<16]" using q by simp
  then show "flagged_hi flag n AND 0x10 \<noteq> 0 \<longleftrightarrow> flag"
    unfolding flagged_hi_def by (cases flag) (auto simp: upt_rec)
qed

subsection \<open>One event\<close>

record sent_event =
  sv_event_id :: u16
  sv_mjd :: nat
  sv_hour :: nat
  sv_minute :: nat
  sv_second :: nat
  sv_duration_hours :: nat
  sv_duration_minutes :: nat
  sv_duration_seconds :: nat
  sv_free_ca_mode :: bool
  sv_descriptors :: bytes

definition sendable :: "sent_event \<Rightarrow> bool" where
  "sendable e \<longleftrightarrow> sv_mjd e < 0xffff \<and> sv_hour e < 24 \<and> sv_minute e < 60 \<and> sv_second e < 60 \<and>
     sv_duration_hours e < 100 \<and> sv_duration_minutes e < 60 \<and> sv_duration_seconds e < 60 \<and>
     length (sv_descriptors e) < 4096"

definition encode_event :: "sent_event \<Rightarrow> bytes" where
  "encode_event e =
     [hi8 (sv_event_id e), lo8 (sv_event_id e), hi8 (word_of_nat (sv_mjd e)), lo8 (word_of_nat (sv_mjd e)),
      encode_bcd (sv_hour e), encode_bcd (sv_minute e), encode_bcd (sv_second e),
      encode_bcd (sv_duration_hours e), encode_bcd (sv_duration_minutes e), encode_bcd (sv_duration_seconds e),
      flagged_hi (sv_free_ca_mode e) (length (sv_descriptors e)),
      word_of_nat (length (sv_descriptors e) mod 256)] @ sv_descriptors e"

text \<open>The start of the event in milliseconds since 1970; broadcast times are nine hours ahead.\<close>

definition start_millis :: "sent_event \<Rightarrow> int" where
  "start_millis e =
     ((int (sv_mjd e) - 40587) * 86400 + int (sv_hour e) * 3600 + int (sv_minute e) * 60 + int (sv_second e) -
      9 * 3600) * 1000"

definition duration_millis :: "sent_event \<Rightarrow> int" where
  "duration_millis e =
     (int (sv_duration_hours e) * 3600 + int (sv_duration_minutes e) * 60 + int (sv_duration_seconds e)) * 1000"

lemma encode_bcd_not_ff: "k < 100 \<Longrightarrow> encode_bcd k \<noteq> 0xff"
proof
  assume k: "k < 100" and "encode_bcd k = 0xff"
  then have "decode_bcd2 0xff = Some (word_of_int (int k))" using decode_encode_bcd [OF k] by simp
  then show False by (simp add: decode_bcd2_def)
qed

lemma bcd_sint: "k < 100 \<Longrightarrow> sint (word_of_nat k :: i32) = int k"
  using sint_i32 [of "int k"] by (simp add: fits_def)

lemma decode_encode_bcd_nat: "k < 100 \<Longrightarrow> decode_bcd2 (encode_bcd k) = Some (word_of_nat k)"
  using decode_encode_bcd [of k] by simp

lemma event_bytes:
  assumes "sec = pre @ encode_event e @ post"
  shows "si_u16_at sec (length pre) = sv_event_id e"
    and "si_u16_at sec (length pre + 2) = word_of_nat (sv_mjd e)"
    and "sec ! (length pre + 4) = encode_bcd (sv_hour e)" "sec ! (length pre + 5) = encode_bcd (sv_minute e)"
    and "sec ! (length pre + 6) = encode_bcd (sv_second e)"
    and "sec ! (length pre + 7) = encode_bcd (sv_duration_hours e)"
    and "sec ! (length pre + 8) = encode_bcd (sv_duration_minutes e)"
    and "sec ! (length pre + 9) = encode_bcd (sv_duration_seconds e)"
    and "sec ! (length pre + 10) = flagged_hi (sv_free_ca_mode e) (length (sv_descriptors e))"
    and "sec ! (length pre + 11) = word_of_nat (length (sv_descriptors e) mod 256)"
    and "slice sec (length pre + 12) (length pre + 12 + length (sv_descriptors e)) = sv_descriptors e"
    and "encode_bcd (sv_hour e) \<in> set (slice sec (length pre + 2) (length pre + 7))"
    and "encode_bcd (sv_duration_hours e) \<in> set (slice sec (length pre + 7) (length pre + 10))"
  unfolding assms si_u16_at_def encode_event_def by (simp_all add: nth_append slice_def)

lemma start_decoded:
  assumes "sec = pre @ encode_event e @ post" and "sendable e"
  shows "decode_mjd_bcd_millis sec (length pre + 2) = Some (word_of_int (start_millis e))"
proof -
  note b = event_bytes [OF assms(1)]
  note ok = assms(2) [unfolded sendable_def]
  have mjd: "(ucast (word_of_nat (sv_mjd e) :: u16) :: i32) = word_of_int (int (sv_mjd e))"
    using ok by (simp add: unsigned_of_nat take_bit_nat_eq_self)
  have "(word_of_int (int (sv_mjd e)) :: i32) \<noteq> 0xffff"
  proof
    assume "(word_of_int (int (sv_mjd e)) :: i32) = 0xffff"
    then have "sint (word_of_int (int (sv_mjd e)) :: i32) = sint (0xffff :: i32)" by simp
    then show False using ok sint_i32 [of "int (sv_mjd e)"] by (simp add: fits_def)
  qed
  moreover have "(case mjd_to_ymd (word_of_int (int (sv_mjd e))) of (year, month, day) \<Rightarrow>
      civil_to_unix_millis year month day (word_of_int (int (sv_hour e))) (word_of_int (int (sv_minute e)))
        (word_of_int (int (sv_second e)))) - 9 * 60 * 60 * 1000 = word_of_int (start_millis e)"
    using civil_of_mjd [of "int (sv_mjd e)" "int (sv_hour e)" "int (sv_minute e)" "int (sv_second e)"] ok
    by (simp add: fits_def start_millis_def)
  ultimately show ?thesis
    using ok unfolding decode_mjd_bcd_millis_def Let_def b(2) mjd add.assoc
    by (simp add: b(3-5) [simplified] decode_encode_bcd_nat bcd_sint split: prod.splits)
qed

lemma duration_decoded:
  assumes "sec = pre @ encode_event e @ post" and "sendable e"
  shows "decode_duration_millis sec (length pre + 7) = Some (word_of_int (duration_millis e))"
proof -
  note b = event_bytes [OF assms(1)]
  note ok = assms(2) [unfolded sendable_def]
  have "fits (int (sv_duration_hours e) * 3600 + int (sv_duration_minutes e) * 60 + int (sv_duration_seconds e))"
    using ok by (simp add: fits_def)
  from scast_i64 [OF this] show ?thesis
    using ok unfolding decode_duration_millis_def add.assoc
    by (simp add: b(6-8) [simplified] decode_encode_bcd_nat bcd_sint duration_millis_def)
qed

lemma timing_decoded:
  assumes "sec = pre @ encode_event e @ post" and "sendable e"
  shows "classify_timing sec (length pre + 2) (length pre + 7) =
           (TimingDefined, Some (word_of_int (start_millis e)), Some (word_of_int (duration_millis e)))"
proof -
  note b = event_bytes [OF assms(1)]
  note ok = assms(2) [unfolded sendable_def]
  have "\<not> all_ff (slice sec (length pre + 2) (length pre + 7))" "\<not> all_ff (slice sec (length pre + 7) (length pre + 10))"
    using b(12,13) encode_bcd_not_ff [of "sv_hour e"] encode_bcd_not_ff [of "sv_duration_hours e"] ok
    by (auto simp: all_ff_def list_all_iff)
  moreover have offsets: "length pre + 2 + 5 = length pre + 7" "length pre + 7 + 3 = length pre + 10" by simp_all
  ultimately show ?thesis
    unfolding classify_timing_def Let_def offsets start_decoded [OF assms] duration_decoded [OF assms] by simp
qed

text \<open>What the header of a section says about all of its events.\<close>

record sent_table =
  sb_table_id :: u8
  sb_service_id :: u16
  sb_version :: u8
  sb_current :: bool
  sb_section_number :: u8
  sb_last_section_number :: u8
  sb_transport_stream_id :: u16
  sb_original_network_id :: u16
  sb_segment_last_section_number :: u8
  sb_last_table_id :: u8

text \<open>
  What a receiver sees of an event: the section it came in, its identity of four numbers, its times, its
  descriptors, and the identity that each of its diagnostics names.
\<close>

type_synonym seen_event =
  "(u8 \<times> u8 \<times> u8 \<times> u8) \<times> (u16 \<times> u16 \<times> u16 \<times> u16) \<times> (eit_timing_state \<times> int \<times> int) \<times> bool \<times>
   event_descriptors \<times> eit_stable_event_identity option list"

definition seen :: "eit_event \<Rightarrow> seen_event" where
  "seen e = ((ev_table_id e, ev_version e, ev_section_number e, ev_last_section_number e),
     (ev_original_network_id e, ev_transport_stream_id e, ev_service_id e, ev_event_id e),
     (ev_timing_state e, sint (ev_start_time_millis e), sint (ev_duration_millis e)),
     ev_free_ca_mode e, ev_descriptors e, map eg_event_identity (ev_diagnostics e))"

definition sent_identity :: "sent_table \<Rightarrow> sent_event \<Rightarrow> eit_stable_event_identity" where
  "sent_identity t e = \<lparr>ei_original_network_id = sb_original_network_id t,
     ei_transport_stream_id = sb_transport_stream_id t, ei_service_id = sb_service_id t, ei_event_id = sv_event_id e\<rparr>"

definition sent :: "sent_table \<Rightarrow> sent_event \<Rightarrow> seen_event" where
  "sent t e =
     (let descriptors = parse_event_descriptors (sv_descriptors e)
      in ((sb_table_id t, sb_version t, sb_section_number t, sb_last_section_number t),
          (sb_original_network_id t, sb_transport_stream_id t, sb_service_id t, sv_event_id e),
          (TimingDefined, start_millis e, duration_millis e), sv_free_ca_mode e, descriptors,
          replicate (length (ed_diagnostics descriptors)) (Some (sent_identity t e))))"

text \<open>The header fields that the parser of events reads.\<close>

definition carries_table :: "bytes \<Rightarrow> si_section_header \<Rightarrow> sent_table \<Rightarrow> bool" where
  "carries_table sec header t \<longleftrightarrow>
     ih_table_id header = sb_table_id t \<and> ih_version header = Some (sb_version t) \<and>
     ih_section_number header = Some (sb_section_number t) \<and>
     ih_last_section_number header = Some (sb_last_section_number t) \<and>
     si_u16_at sec 3 = sb_service_id t \<and> si_u16_at sec 8 = sb_transport_stream_id t \<and>
     si_u16_at sec 10 = sb_original_network_id t"

lemma event_end:
  assumes "sec = pre @ encode_event e @ post" and "sendable e"
  shows "desc_end_at sec (length pre) = length pre + length (encode_event e)"
proof -
  have "length (sv_descriptors e) < 4096" using assms(2) by (simp add: sendable_def)
  note len = flagged_length(1) [OF this, of "sv_free_ca_mode e"]
  show ?thesis unfolding desc_end_at_def event_bytes(9,10) [OF assms(1)] len by (simp add: encode_event_def)
qed

lemma event_received:
  assumes "sec = pre @ encode_event e @ post" and "sendable e" and "length pre + length (encode_event e) \<le> body_end"
    and "carries_table sec header t"
  shows "seen (parse_event sec header body_end (length pre)) = sent t e"
proof -
  note b = event_bytes [OF assms(1)]
  note ok = assms(2) [unfolded sendable_def]
  have len: "length (encode_event e) = 12 + length (sv_descriptors e)" by (simp add: encode_event_def)
  have "min (length pre + length (encode_event e)) body_end = length pre + 12 + length (sv_descriptors e)"
    using assms(3) len by simp
  then have descriptors: "event_descriptors_at sec body_end (length pre) = parse_event_descriptors (sv_descriptors e)"
    unfolding event_descriptors_at_def Let_def event_end [OF assms(1,2)] using assms(3) b(11) by (simp add: add.assoc)
  have "sint (word_of_int (start_millis e) :: i64) = start_millis e"
    using ok by (intro sint_i64) (simp_all add: start_millis_def)
  moreover have "sint (word_of_int (duration_millis e) :: i64) = duration_millis e"
    using ok by (intro sint_i64) (simp_all add: duration_millis_def)
  moreover have "flagged_hi (sv_free_ca_mode e) (length (sv_descriptors e)) AND 0x10 \<noteq> 0 \<longleftrightarrow> sv_free_ca_mode e"
    using ok by (intro flagged_length(2)) simp
  ultimately show ?thesis
    using assms(4) unfolding parse_event_def Let_def timing_decoded [OF assms(1,2)] descriptors b(1,9)
    by (simp add: seen_def sent_def sent_identity_def carries_table_def event_diagnostics_def has_stable_identity_def
        unwrap_or_def Let_def comp_def map_replicate_const)
qed

subsection \<open>A section of events\<close>

lemma events_received:
  assumes "list_all sendable es" and "sec = pre @ concat (map encode_event es) @ post"
    and "body_end = length pre + length (concat (map encode_event es))" and "carries_table sec header t"
  shows "map seen (fst (event_loop sec header body_end (length pre))) = map (sent t) es \<and>
         snd (event_loop sec header body_end (length pre)) = body_end"
  using assms
proof (induction es arbitrary: pre)
  case Nil
  then show ?case by (simp add: event_loop.simps)
next
  case (Cons e es)
  have e: "sendable e" and sec: "sec = pre @ encode_event e @ (concat (map encode_event es) @ post)"
    using Cons.prems by simp_all
  have fits: "length pre + length (encode_event e) \<le> body_end" using Cons.prems(3) by simp
  have len: "12 \<le> length (encode_event e)" by (simp add: encode_event_def)
  have "map seen (fst (event_loop sec header body_end (length (pre @ encode_event e)))) = map (sent t) es \<and>
      snd (event_loop sec header body_end (length (pre @ encode_event e))) = body_end"
    by (rule Cons.IH) (use Cons.prems in simp_all)
  moreover have "event_loop sec header body_end (length pre) =
      (let rest = event_loop sec header body_end (length (pre @ encode_event e))
       in (parse_event sec header body_end (length pre) # fst rest, snd rest))"
    using fits len by (subst event_loop.simps) (simp add: event_end [OF sec e] case_prod_beta Let_def)
  ultimately show ?case using event_received [OF sec e fits Cons.prems(4)] by (simp add: Let_def)
qed

lemma whole_section_header:
  assumes "length12 (sec ! 1) (sec ! 2) = len" and "length sec = 3 + len" and "5 \<le> len" and "sec ! 1 AND 0x80 \<noteq> 0"
  obtains header where "si_parse_section_header sec = Some header" and "ih_table_id header = sec ! 0"
    and "ih_section_length header = len" and "ih_total_length header = 3 + len"
    and "ih_version header = Some (drop_bit 1 (sec ! 5) AND 0x1f)" and "ih_section_number header = Some (sec ! 6)"
    and "ih_last_section_number header = Some (sec ! 7)"
  using assms by (auto simp: si_parse_section_header_def Let_def)

text \<open>
  A section with a header of fourteen bytes, the events and four bytes for the CRC, which this parser does
  not read.
\<close>

definition version_byte :: "sent_table \<Rightarrow> u8" where
  "version_byte t = 0xc0 OR push_bit 1 (sb_version t) OR (if sb_current t then 1 else 0)"

definition encode_header :: "sent_table \<Rightarrow> nat \<Rightarrow> bytes" where
  "encode_header t len =
     [sb_table_id t, 0xf0 OR word_of_nat (len div 256), word_of_nat (len mod 256), hi8 (sb_service_id t),
      lo8 (sb_service_id t), version_byte t, sb_section_number t, sb_last_section_number t,
      hi8 (sb_transport_stream_id t), lo8 (sb_transport_stream_id t), hi8 (sb_original_network_id t),
      lo8 (sb_original_network_id t), sb_segment_last_section_number t, sb_last_table_id t]"

definition encode_eit_section :: "sent_table \<Rightarrow> sent_event list \<Rightarrow> bytes \<Rightarrow> bytes" where
  "encode_eit_section t es crc =
     (let events = concat (map encode_event es)
      in encode_header t (length events + 15) @ events @ crc)"

lemma version_byte:
  assumes "sb_version t < 32"
  shows "drop_bit 1 (version_byte t) AND 0x1f = sb_version t"
proof -
  obtain k where k: "k \<in> set [0..<32]" "sb_version t = word_of_nat k"
    using assms by (intro that [of "unat (sb_version t)"]) (simp_all add: word_less_nat_alt)
  then show ?thesis unfolding version_byte_def k(2) by (cases "sb_current t") (auto simp: upt_rec)
qed

lemma section_header_received:
  assumes "sec = encode_header t len @ rest" and "length rest = len - 11" and "15 \<le> len" and "len < 4096"
    and "sb_version t < 32"
  obtains header where "si_parse_section_header sec = Some header" and "ih_section_length header = len"
    and "ih_total_length header = 3 + len" and "carries_table sec header t"
proof -
  have "len div 256 \<in> set [0..<16]" using assms(4) by auto
  then have hi: "(0xf0 OR word_of_nat (len div 256) :: u8) AND 0x0f = word_of_nat (len div 256)"
      "(0xf0 OR word_of_nat (len div 256) :: u8) AND 0x80 \<noteq> 0"
    by (auto simp: upt_rec)
  have b: "sec ! 0 = sb_table_id t" "sec ! 1 = 0xf0 OR word_of_nat (len div 256)" "sec ! 2 = word_of_nat (len mod 256)"
    "sec ! 5 = version_byte t" "sec ! 6 = sb_section_number t" "sec ! 7 = sb_last_section_number t"
    "si_u16_at sec 3 = sb_service_id t" "si_u16_at sec 8 = sb_transport_stream_id t"
    "si_u16_at sec 10 = sb_original_network_id t"
    by (simp_all add: assms(1) encode_header_def si_u16_at_def)
  have l12: "length12 (sec ! 1) (sec ! 2) = len"
    using assms(4) unfolding length12_def b hi(1) by (simp add: unat_byte shift_or)
  have total: "length sec = 3 + len" using assms(1-3) by (simp add: encode_header_def)
  have long_form: "sec ! 1 AND 0x80 \<noteq> 0" unfolding b by (rule hi(2))
  obtain header where "si_parse_section_header sec = Some header" "ih_table_id header = sec ! 0"
    "ih_section_length header = len" "ih_total_length header = 3 + len"
    "ih_version header = Some (drop_bit 1 (sec ! 5) AND 0x1f)" "ih_section_number header = Some (sec ! 6)"
    "ih_last_section_number header = Some (sec ! 7)"
    using whole_section_header [OF l12 total _ long_form] assms(3) by auto
  then show ?thesis
    using that b unfolding carries_table_def b(4) version_byte [OF assms(5)] by simp
qed

text \<open>
  C11. A section of the event information table is received as it was sent. Whatever events a broadcaster
  puts into a section of whatever table, with dates from the epoch of the modified Julian calendar on, times of
  day, durations and any descriptor bytes, the parser finds exactly these events in this order: each with
  the table, version and section numbers of the section, with the original network, transport stream,
  service and event number it was sent with, in the event and in each of its diagnostics; its start
  is the exact Unix time of the broadcast time nine hours ahead, its duration is exact, its descriptors are
  those of its own descriptor loop, and the event loop is reported as complete.
\<close>

theorem eit_section_roundtrip:
  assumes "list_all sendable es" and "length (concat (map encode_event es)) \<le> 4078"
    and "0x4e \<le> sb_table_id t" and "sb_table_id t \<le> 0x6f" and "sb_version t < 32" and "length crc = 4"
  shows "let facts = parse_eit_section_facts (encode_eit_section t es crc)
         in map seen (ef_events facts) = map (sent t) es \<and> ef_event_loop_complete facts"
proof -
  define events where "events = concat (map encode_event es)"
  define len where "len = length events + 15"
  define sec where "sec = encode_header t len @ events @ crc"
  have sec: "encode_eit_section t es crc = sec"
    by (simp add: encode_eit_section_def sec_def events_def len_def Let_def)
  have small: "15 \<le> len" "len < 4096" using assms(2) by (simp_all add: len_def events_def)
  have pre: "length (encode_header t n) = 14" for n by (simp add: encode_header_def)
  then have total: "length sec = 3 + len" using assms(6) by (simp add: sec_def len_def)
  obtain header where header: "si_parse_section_header sec = Some header" "ih_section_length header = len"
      "ih_total_length header = 3 + len" "carries_table sec header t"
    by (rule section_header_received [OF sec_def _ small assms(5)]) (simp_all add: len_def assms(6))
  have body_end: "3 + len - 4 = length (encode_header t len) + length (concat (map encode_event es))"
    by (simp add: pre len_def events_def)
  have tid: "ih_table_id header = sb_table_id t" using header(4) by (simp add: carries_table_def)
  note loop = events_received [OF assms(1) _ body_end header(4), of crc]
  show ?thesis
    unfolding sec parse_eit_section_facts_def header(1)
    using loop assms(3,4) total small(1)
    by (simp add: tid header pre in_range_def sec_def events_def len_def case_prod_beta Let_def)
qed

text \<open>
  An event of one and a half hours that starts on the 13th of October 1993 at 12:45:00, with a descriptor that
  ends too early, so that there is a diagnostic.
\<close>

definition sample_event :: sent_event where
  "sample_event = \<lparr>sv_event_id = 0x1234, sv_mjd = 49273, sv_hour = 12, sv_minute = 45, sv_second = 0,
     sv_duration_hours = 1, sv_duration_minutes = 30, sv_duration_seconds = 0, sv_free_ca_mode = True,
     sv_descriptors = [0x54, 2, 0x30]\<rparr>"

definition sample_table :: sent_table where
  "sample_table = \<lparr>sb_table_id = 0x4e, sb_service_id = 0x400, sb_version = 5, sb_current = True,
     sb_section_number = 0, sb_last_section_number = 1, sb_transport_stream_id = 0x7fe0,
     sb_original_network_id = 4, sb_segment_last_section_number = 1, sb_last_table_id = 0x4e\<rparr>"

theorem eit_section_roundtrip_witness:
  "let facts = parse_eit_section_facts (encode_eit_section sample_table [sample_event] [1, 2, 3, 4])
   in map seen (ef_events facts) =
        [((0x4e, 5, 0, 1), (4, 0x7fe0, 0x400, 0x1234), (TimingDefined, 750483900000, 5400000), True,
          parse_event_descriptors [0x54, 2, 0x30],
          [Some \<lparr>ei_original_network_id = 4, ei_transport_stream_id = 0x7fe0, ei_service_id = 0x400,
             ei_event_id = 0x1234\<rparr>])] \<and>
      ef_event_loop_complete facts"
proof -
  have "length (ed_diagnostics (parse_event_descriptors [0x54, 2, 0x30])) = 1"
    by (simp add: parse_event_descriptors_def descriptor_loop.simps push_diagnostic_def event_descriptors_default_def
        parse_extended_event_fragments_def Let_def)
  then show ?thesis
    using eit_section_roundtrip [of "[sample_event]" sample_table "[1, 2, 3, 4]"]
    by (simp add: sample_event_def sample_table_def sendable_def encode_event_def sent_def sent_identity_def
        start_millis_def duration_millis_def Let_def)
qed

end
