(* ===== verification/Eit_Instances.thy ===== *)
theory Eit_Instances
  imports Si_Eit_Facts Fencing "HOL-Library.Product_Lexorder"
begin

section \<open>Collecting event information tables\<close>

text \<open>
  \<open>arib_si_engine_rs/src/core/eit_instances.rs\<close>: the store that collects the sections of event information tables. A
  table is identified by table id, network, transport stream, service and whether it is the current
  version or the next one; per table a section tracker decides what is new, and the events of each section
  are kept. \<open>TableKey\<close> with its derived order is a tuple with the lexicographic one.
\<close>

type_synonym table_key = "u8 \<times> u16 \<times> u16 \<times> u16 \<times> bool"

record eit_instance =
  in_tracker :: section_tracker
  in_sections :: "(u8, eit_event list) ordered_map"
  in_safe :: "u8 set"
  in_segment_ends :: "u8 \<rightharpoonup> u8"

definition eit_instance_default :: eit_instance where
  "eit_instance_default = \<lparr>in_tracker = section_tracker_default, in_sections = [], in_safe = {},
     in_segment_ends = Map.empty\<rparr>"

record eit_instance_state =
  is_table_id :: u8
  is_original_network_id :: u16
  is_transport_stream_id :: u16
  is_service_id :: u16
  is_version :: u8
  is_current_next_indicator :: bool
  is_last_section_number :: u8
  is_received_sections :: "u8 list"
  is_missing_sections :: "u8 list"
  is_safe_sections :: "u8 list"
  is_complete :: bool
  is_inconsistent :: bool

type_synonym eit_instances = "(table_key, eit_instance) ordered_map"

subsection \<open>Ingesting a section\<close>

text \<open>The checks on a section; what passes has a key, a version, a number and a last number.\<close>

definition admit_section :: "bytes \<Rightarrow> (table_key \<times> u8 \<times> u8 \<times> u8) option" where
  "admit_section sec =
     (case si_parse_section_header sec of
        None \<Rightarrow> None
      | Some header \<Rightarrow>
          if \<not> in_range 0x4e 0x6f (ih_table_id header) \<or> length sec < 18 \<or>
             ih_total_length header \<noteq> length sec \<or> \<not> section_crc_valid_with_header sec header
          then None
          else
            (case (ih_version header, ih_section_number header, ih_last_section_number header,
                   ih_current_next_indicator header) of
               (Some version, Some number, Some last_number, Some current) \<Rightarrow>
                 Some ((ih_table_id header, be16 (sec ! 10) (sec ! 11), be16 (sec ! 8) (sec ! 9),
                        be16 (sec ! 3) (sec ! 4), current), version, number, last_number)
             | _ \<Rightarrow> None))"

text \<open>The segment of a schedule section and its last section number, which the section repeats.\<close>

definition note_segment :: "u8 \<Rightarrow> u8 \<Rightarrow> u8 \<Rightarrow> bytes \<Rightarrow> eit_instance \<Rightarrow> eit_instance" where
  "note_segment table_id number last_number sec inst =
     (if table_id \<ge> 0x50 then
        let start = number AND 0xf8;
            end_number = sec ! 12;
            inst =
              (if end_number < number \<or> end_number > last_number \<or> end_number AND 0xf8 \<noteq> start \<or>
                  (case in_segment_ends inst start of None \<Rightarrow> False | Some old \<Rightarrow> old \<noteq> end_number)
               then inst\<lparr>in_tracker := (in_tracker inst)\<lparr>st_inconsistent := True\<rparr>\<rparr>
               else inst)
        in inst\<lparr>in_segment_ends := (in_segment_ends inst)(start \<mapsto> end_number)\<rparr>
      else inst)"

definition keep_events :: "u8 \<Rightarrow> bytes \<Rightarrow> eit_instance \<Rightarrow> eit_instance" where
  "keep_events number sec inst =
     (let facts = parse_eit_section_facts sec;
          events = ef_events facts;
          safe = in_safe inst - {number};
          safe = (if ef_event_loop_complete facts \<and>
                     list_all (\<lambda>event. list_all (\<lambda>d. \<not> is_structural_error (eg_parse_status d))
                       (ev_diagnostics event)) events
                  then insert number safe else safe)
      in inst\<lparr>in_safe := safe, in_sections := om_insert number events (in_sections inst)\<rparr>)"

definition clear_old :: "u8 \<Rightarrow> eit_instance \<Rightarrow> eit_instance" where
  "clear_old version inst =
     (if st_version (in_tracker inst) \<noteq> Some version
      then inst\<lparr>in_sections := [], in_safe := {}, in_segment_ends := Map.empty\<rparr>
      else inst)"

definition ingest_instance :: "u8 \<Rightarrow> u8 \<Rightarrow> u8 \<Rightarrow> u8 \<Rightarrow> bytes \<Rightarrow> eit_instance \<Rightarrow> eit_instance" where
  "ingest_instance table_id version number last_number sec inst =
     (if \<not> accepts_version version (in_tracker inst) then inst
      else
        let inst = clear_old version inst;
            (new, tracker) = tracker_observe version number last_number sec (in_tracker inst);
            inst = inst\<lparr>in_tracker := tracker\<rparr>
        in if \<not> new then inst
           else keep_events number sec (note_segment table_id number last_number sec inst))"

definition ingest :: "bytes \<Rightarrow> eit_instances \<Rightarrow> eit_instances" where
  "ingest sec insts =
     (case admit_section sec of
        None \<Rightarrow> insts
      | Some (key, version, number, last_number) \<Rightarrow>
          om_insert key
            (ingest_instance (fst key) version number last_number sec
              (unwrap_or eit_instance_default (map_of insts key)))
            insts)"

subsection \<open>Reports\<close>

definition every_section_number :: "u8 list" where
  "every_section_number = map word_of_nat [0..<256]"

text \<open>Whether a section number is required: all up to the last one, or all of each segment of a schedule.\<close>

definition required_section :: "u8 \<Rightarrow> eit_instance \<Rightarrow> u8 \<Rightarrow> bool" where
  "required_section table_id inst n =
     (let last_number = unwrap_or 0 (st_last_section_number (in_tracker inst))
      in if table_id < 0x50 then n \<le> last_number
         else list_ex (\<lambda>start. start \<le> n \<and> n \<le> unwrap_or start (in_segment_ends inst start))
                (map word_of_nat (filter (\<lambda>s. s mod 8 = 0) [0..<Suc (unat last_number)])))"

definition instance_state :: "table_key \<times> eit_instance \<Rightarrow> eit_instance_state" where
  "instance_state entry =
     (case entry of ((table_id, onid, tsid, service_id, current), inst) \<Rightarrow>
        let received = map fst (in_sections inst);
            missing = filter (\<lambda>n. required_section table_id inst n \<and> n \<notin> set received) every_section_number
        in \<lparr>is_table_id = table_id, is_original_network_id = onid, is_transport_stream_id = tsid,
            is_service_id = service_id, is_version = unwrap_or 0 (st_version (in_tracker inst)),
            is_current_next_indicator = current,
            is_last_section_number = unwrap_or 0 (st_last_section_number (in_tracker inst)),
            is_received_sections = received, is_missing_sections = missing,
            is_safe_sections = filter (\<lambda>n. n \<in> in_safe inst) every_section_number,
            is_complete = (\<not> st_inconsistent (in_tracker inst) \<and> missing = []),
            is_inconsistent = st_inconsistent (in_tracker inst)\<rparr>)"

definition instance_states :: "eit_instances \<Rightarrow> eit_instance_state list" where
  "instance_states insts = map instance_state insts"

definition instance_events :: "eit_instances \<Rightarrow> eit_event list" where
  "instance_events insts =
     concat (map (\<lambda>(key, inst). concat (om_values (in_sections inst)))
       (filter (\<lambda>(key, inst). snd (snd (snd (snd key)))) insts))"

subsection \<open>One table among others\<close>

definition ingest_all :: "bytes list \<Rightarrow> eit_instances" where
  "ingest_all secs = foldl (\<lambda>insts sec. ingest sec insts) [] secs"

definition sections_of :: "table_key \<Rightarrow> bytes list \<Rightarrow> bytes list" where
  "sections_of key secs = filter (\<lambda>sec. map_option fst (admit_section sec) = Some key) secs"

definition ingest_one :: "eit_instance \<Rightarrow> bytes \<Rightarrow> eit_instance" where
  "ingest_one inst sec =
     (case admit_section sec of
        None \<Rightarrow> inst
      | Some (key, version, number, last_number) \<Rightarrow> ingest_instance (fst key) version number last_number sec inst)"

text \<open>The store of a table is that of its own sections, whatever else is ingested between them.\<close>

lemma ingest_all_wf: "om_wf (ingest_all secs)"
  unfolding ingest_all_def
  by (induction secs rule: rev_induct) (auto simp: ingest_def split: option.split)

lemma ingest_all_lookup:
  "map_of (ingest_all secs) key =
     (if sections_of key secs = [] then None
      else Some (foldl ingest_one eit_instance_default (sections_of key secs)))"
proof (induction secs rule: rev_induct)
  case (snoc sec secs)
  have step: "ingest_all (secs @ [sec]) = ingest sec (ingest_all secs)" by (simp add: ingest_all_def)
  show ?case
  proof (cases "map_option fst (admit_section sec) = Some key")
    case True
    then obtain version number last_number where adm: "admit_section sec = Some (key, version, number, last_number)"
      by (cases "admit_section sec") auto
    then have here: "sections_of key (secs @ [sec]) = sections_of key secs @ [sec]"
      by (simp add: sections_of_def del: split_paired_Ex)
    have "unwrap_or eit_instance_default (map_of (ingest_all secs) key) =
        foldl ingest_one eit_instance_default (sections_of key secs)"
      using snoc.IH by (simp add: unwrap_or_def)
    moreover have "ingest_one inst sec = ingest_instance (fst key) version number last_number sec inst" for inst
      by (simp add: ingest_one_def adm)
    ultimately show ?thesis unfolding step here by (simp add: ingest_def adm)
  next
    case False
    then have "map_of (ingest sec (ingest_all secs)) key = map_of (ingest_all secs) key"
      by (auto simp: ingest_def split: option.split)
    moreover have "sections_of key (secs @ [sec]) = sections_of key secs"
      using False by (simp add: sections_of_def del: split_paired_Ex split_paired_All)
    ultimately show ?thesis unfolding step using snoc.IH by simp
  qed
qed (simp add: ingest_all_def sections_of_def)

subsection \<open>What a report rests on\<close>

definition observations :: "table_key \<Rightarrow> bytes list \<Rightarrow> observation set" where
  "observations key secs =
     {(v, n, l, sec). sec \<in> set secs \<and> admit_section sec = Some (key, v, n, l)}"

definition section_events :: "bytes \<Rightarrow> eit_event list" where
  "section_events sec = ef_events (parse_eit_section_facts sec)"

text \<open>The stored events are those of the stored sections, and the stored sections were all received.\<close>

definition stored_events :: "eit_instance \<Rightarrow> bool" where
  "stored_events inst \<longleftrightarrow> om_wf (in_sections inst) \<and>
     (\<forall>n. map_of (in_sections inst) n = map_option section_events (st_payloads (in_tracker inst) n))"

text \<open>Of a consistent schedule table, every stored section announces the end that is noted for its segment.\<close>

definition segment_inv :: "u8 \<Rightarrow> eit_instance \<Rightarrow> bool" where
  "segment_inv table_id inst \<longleftrightarrow>
     0x50 \<le> table_id \<and> \<not> st_inconsistent (in_tracker inst) \<longrightarrow>
       (\<forall>n sec. st_payloads (in_tracker inst) n = Some sec \<longrightarrow> in_segment_ends inst (n AND 0xf8) = Some (sec ! 12)) \<and>
       (\<forall>start e. in_segment_ends inst start = Some e \<longrightarrow> e AND 0xf8 = start)"

definition instance_inv :: "u8 \<Rightarrow> observation set \<Rightarrow> eit_instance \<Rightarrow> bool" where
  "instance_inv table_id os inst \<longleftrightarrow>
     tracker_inv os (in_tracker inst) \<and> stored_events inst \<and> segment_inv table_id inst"

lemma note_segment_keeps [simp]:
  "in_sections (note_segment table_id number last_number sec inst) = in_sections inst"
  "st_payloads (in_tracker (note_segment table_id number last_number sec inst)) = st_payloads (in_tracker inst)"
  by (simp_all add: note_segment_def Let_def)

lemma note_segment_inv:
  "tracker_inv os (in_tracker inst) \<Longrightarrow> tracker_inv os (in_tracker (note_segment table_id number last_number sec inst))"
  by (simp add: note_segment_def Let_def tracker_inv_inconsistent)

lemma keep_events_simps [simp]:
  "in_sections (keep_events number sec inst) = om_insert number (section_events sec) (in_sections inst)"
  "in_tracker (keep_events number sec inst) = in_tracker inst"
  by (simp_all add: keep_events_def Let_def section_events_def)

lemma instance_inv_default: "instance_inv table_id os eit_instance_default"
  using tracker_inv_default
  by (simp add: instance_inv_def stored_events_def segment_inv_def eit_instance_default_def
      section_tracker_default_def)

lemma stored_events_version:
  assumes "stored_events inst"
    and "in_sections inst' = (if st_version (in_tracker inst) \<noteq> Some v then [] else in_sections inst)"
    and "st_payloads (in_tracker inst') = st_payloads (mark_seen v n l (in_tracker inst))"
  shows "stored_events inst'"
  using assms by (simp add: stored_events_def mark_seen_payloads)

lemma clear_old_simps [simp]:
  "in_tracker (clear_old v inst) = in_tracker inst"
  "in_sections (clear_old v inst) = (if st_version (in_tracker inst) \<noteq> Some v then [] else in_sections inst)"
  by (simp_all add: clear_old_def)

lemma ingest_instance_accepted:
  assumes "accepts_version v (in_tracker inst)"
  shows "ingest_instance table_id v n l sec inst =
     (let obs = tracker_observe v n l sec (in_tracker inst);
          inst' = (clear_old v inst)\<lparr>in_tracker := snd obs\<rparr>
      in if fst obs then keep_events n sec (note_segment table_id n l sec inst') else inst')"
  using assms by (simp add: ingest_instance_def Let_def case_prod_beta)

lemma note_segment_segments:
  assumes "0x50 \<le> table_id" and "\<not> st_inconsistent (in_tracker (note_segment table_id n l sec inst))"
  shows "in_segment_ends (note_segment table_id n l sec inst) = (in_segment_ends inst)(n AND 0xf8 \<mapsto> sec ! 12)"
    and "in_segment_ends inst (n AND 0xf8) \<in> {None, Some (sec ! 12)}" and "sec ! 12 AND 0xf8 = n AND 0xf8"
    and "\<not> st_inconsistent (in_tracker inst)"
  using assms by (auto simp: note_segment_def Let_def split: if_splits option.splits)

lemma ingest_instance_segments:
  assumes "segment_inv table_id inst"
  shows "segment_inv table_id (ingest_instance table_id v n l sec inst)"
proof (cases "accepts_version v (in_tracker inst) \<and> 0x50 \<le> table_id")
  case True
  define t where "t = in_tracker inst"
  define after where "after = (clear_old v inst)\<lparr>in_tracker := snd (tracker_observe v n l sec t)\<rparr>"
  have result: "ingest_instance table_id v n l sec inst =
      (if fst (tracker_observe v n l sec t) then keep_events n sec (note_segment table_id n l sec after) else after)"
    using ingest_instance_accepted True by (simp add: t_def after_def Let_def)
  have ends: "in_segment_ends after = (if st_version t = Some v then in_segment_ends inst else Map.empty)"
    by (simp add: after_def t_def clear_old_def)
  have old: "in_segment_ends after (m AND 0xf8) = Some (c ! 12)"
    if "\<not> st_inconsistent (mark_seen v n l t)" "st_payloads (mark_seen v n l t) m = Some c" for m c
    using that assms True mark_seen_consistent(4) [OF that(1)]
    by (simp add: segment_inv_def ends t_def mark_seen_payloads split: if_splits)
  have start: "e AND 0xf8 = s" if "\<not> st_inconsistent (mark_seen v n l t)" "in_segment_ends after s = Some e" for s e
    using that assms True mark_seen_consistent(4) [OF that(1)]
    by (simp add: segment_inv_def ends t_def split: if_splits)
  show ?thesis
  proof (cases "fst (tracker_observe v n l sec t)")
    case new: True
    have "segment_inv table_id (note_segment table_id n l sec after)"
    proof (cases "st_inconsistent (in_tracker (note_segment table_id n l sec after))")
      case False
      note noted = note_segment_segments [OF conjunct2 [OF True] False]
      note seen = tracker_observe_new(2,3) [OF new]
      have payloads: "st_payloads (in_tracker after) = (st_payloads (mark_seen v n l t))(n \<mapsto> sec)"
        by (simp add: after_def seen(2))
      show ?thesis
        using noted(2,3) start [OF seen(1)]
        unfolding segment_inv_def note_segment_keeps(2) payloads noted(1) by (auto dest!: old [OF seen(1)])
    qed (simp add: segment_inv_def)
    then show ?thesis unfolding result using new by (simp add: segment_inv_def keep_events_def Let_def)
  next
    case False
    then have "st_payloads (in_tracker after) = st_payloads (mark_seen v n l t)"
      "\<not> st_inconsistent (in_tracker after) \<Longrightarrow> \<not> st_inconsistent (mark_seen v n l t)"
      using True by (cases rule: tracker_observe_old; simp add: after_def t_def)+
    then show ?thesis unfolding result using False old start by (simp add: segment_inv_def)
  qed
qed (use assms in \<open>auto simp: segment_inv_def ingest_instance_def\<close>)

lemma ingest_instance_inv:
  assumes "instance_inv table_id os inst"
  shows "instance_inv table_id (insert (v, n, l, sec) os) (ingest_instance table_id v n l sec inst)"
proof (cases "accepts_version v (in_tracker inst)")
  case False
  then have "ingest_instance table_id v n l sec inst = inst" by (simp add: ingest_instance_def)
  then show ?thesis
    using assms tracker_inv_mono [OF _ subset_insertI] by (simp add: instance_inv_def)
next
  case acc: True
  define t where "t = in_tracker inst"
  define after where "after = (clear_old v inst)\<lparr>in_tracker := snd (tracker_observe v n l sec t)\<rparr>"
  have result: "ingest_instance table_id v n l sec inst =
      (if fst (tracker_observe v n l sec t) then keep_events n sec (note_segment table_id n l sec after) else after)"
    using ingest_instance_accepted [OF acc] by (simp add: t_def after_def Let_def)
  have sections: "in_sections after = (if st_version t \<noteq> Some v then [] else in_sections inst)"
    and tracker: "in_tracker after = snd (tracker_observe v n l sec t)"
    by (simp_all add: after_def t_def)
  have inv: "tracker_inv (insert (v, n, l, sec) os) (in_tracker after)"
    using assms tracker_inv_observe by (simp add: instance_inv_def tracker t_def)
  have kept: "stored_events inst"
    and segments: "segment_inv table_id (ingest_instance table_id v n l sec inst)"
    using assms ingest_instance_segments by (simp_all add: instance_inv_def)
  show ?thesis
  proof (cases "fst (tracker_observe v n l sec t)")
    case True
    have "stored_events (after\<lparr>in_tracker := mark_seen v n l t\<rparr>)"
      by (rule stored_events_version [OF kept]) (simp_all add: sections t_def)
    then have "stored_events (keep_events n sec (note_segment table_id n l sec after))"
      unfolding stored_events_def by (simp add: tracker tracker_observe_new(3) [OF True])
    then show ?thesis
      unfolding instance_inv_def using segments True note_segment_inv [OF inv] by (simp add: result)
  next
    case False
    then have "st_payloads (in_tracker after) = st_payloads (mark_seen v n l t)"
      unfolding tracker using acc by (cases rule: tracker_observe_old) (simp_all add: t_def)
    then have "stored_events after"
      by (intro stored_events_version [OF kept]) (simp_all add: sections t_def)
    then show ?thesis unfolding instance_inv_def using segments False inv by (simp add: result)
  qed
qed

lemma ingest_one_inv:
  assumes "list_all (\<lambda>sec. map_option fst (admit_section sec) = Some key) secs"
  shows "instance_inv (fst key) (observations key secs) (foldl ingest_one eit_instance_default secs)"
  using assms
proof (induction secs rule: rev_induct)
  case Nil
  then show ?case using instance_inv_default by simp
next
  case (snoc sec secs)
  obtain v n l where adm: "admit_section sec = Some (key, v, n, l)"
    using snoc.prems by (cases "admit_section sec") auto
  have "observations key (secs @ [sec]) = insert (v, n, l, sec) (observations key secs)"
    using adm by (auto simp: observations_def)
  then show ?case
    using snoc ingest_instance_inv [of "fst key" "observations key secs" _ v n l sec]
    by (simp add: ingest_one_def adm del: split_paired_Ex)
qed

lemma ingest_all_inv:
  assumes "(key, inst) \<in> set (ingest_all secs)"
  shows "instance_inv (fst key) (observations key secs) inst"
proof -
  have "map_of (ingest_all secs) key = Some inst"
    using assms om_wf_distinct [OF ingest_all_wf] by (simp add: map_of_eq_Some_iff)
  then have "inst = foldl ingest_one eit_instance_default (sections_of key secs)"
    by (simp add: ingest_all_lookup split: if_splits)
  moreover have "list_all (\<lambda>sec. map_option fst (admit_section sec) = Some key) (sections_of key secs)"
    unfolding sections_of_def list_all_iff by (simp del: split_paired_Ex)
  moreover have "observations key (sections_of key secs) = observations key secs"
    by (auto simp: observations_def sections_of_def simp del: split_paired_Ex)
  ultimately show ?thesis using ingest_one_inv [of key "sections_of key secs"] by simp
qed

lemma byte_bound: "unat (n :: u8) < 256"
proof -
  have "unat n < 2 ^ LENGTH(8)" by (rule unsigned_less)
  then show ?thesis by simp
qed

lemma section_numbers_all: "n \<in> set every_section_number"
proof -
  have "unat n \<in> set [0..<256]" using byte_bound [of n] by simp
  then have "(word_of_nat (unat n) :: u8) \<in> word_of_nat ` set [0..<256]" by (rule imageI)
  then show ?thesis by (simp add: every_section_number_def)
qed

lemma no_missing_iff:
  "is_missing_sections (instance_state (key, inst)) = [] \<longleftrightarrow>
     (\<forall>n. required_section (fst key) inst n \<longrightarrow> map_of (in_sections inst) n \<noteq> None)"
  by (cases key) (simp add: instance_state_def Let_def filter_empty_conv Ball_def section_numbers_all map_of_eq_None_iff)

lemma instance_state_simps [simp]:
  "is_version (instance_state (key, inst)) = unwrap_or 0 (st_version (in_tracker inst))"
  "is_last_section_number (instance_state (key, inst)) = unwrap_or 0 (st_last_section_number (in_tracker inst))"
  "is_complete (instance_state (key, inst)) \<longleftrightarrow>
     \<not> st_inconsistent (in_tracker inst) \<and> is_missing_sections (instance_state (key, inst)) = []"
  by (cases key; simp add: instance_state_def Let_def)+

subsection \<open>Collecting a table completely\<close>

definition observation_of :: "bytes \<Rightarrow> observation" where
  "observation_of sec = (case the (admit_section sec) of (key, v, n, l) \<Rightarrow> (v, n, l, sec))"

lemma ingest_instance_tracker:
  assumes "table_id < 0x50"
  shows "in_tracker (ingest_instance table_id v n l sec inst) = snd (tracker_observe v n l sec (in_tracker inst))"
proof -
  have "note_segment table_id n l sec x = x" for x using assms by (simp add: note_segment_def)
  then show ?thesis
    by (simp add: ingest_instance_def tracker_observe_def Let_def case_prod_beta)
qed

lemma ingest_one_tracker:
  assumes "fst key < 0x50" and "list_all (\<lambda>sec. map_option fst (admit_section sec) = Some key) secs"
  shows "in_tracker (foldl ingest_one inst secs) = track (in_tracker inst) (map observation_of secs)"
  using assms(2)
proof (induction secs arbitrary: inst)
  case (Cons sec secs)
  obtain v n l where adm: "admit_section sec = Some (key, v, n, l)"
    using Cons.prems by (cases "admit_section sec") auto
  then have "in_tracker (ingest_one inst sec) = snd (tracker_observe v n l sec (in_tracker inst))"
    by (simp add: ingest_one_def ingest_instance_tracker [OF assms(1)])
  then show ?case using Cons adm by (simp add: observation_of_def)
qed simp

lemma byte_range:
  fixes l :: u8
  shows "sorted_wrt (<) (map word_of_nat [0..<Suc (unat l)] :: u8 list)"
    and "set (map word_of_nat [0..<Suc (unat l)]) = {n. n \<le> l}"
proof -
  have unat: "unat (word_of_nat n :: u8) = n" if "n < Suc (unat l)" for n
    using that byte_bound [of l] by (intro unat_byte) simp
  have "sorted_wrt (\<lambda>i j. (word_of_nat i :: u8) < word_of_nat j) [0..<Suc (unat l)]"
    by (rule sorted_wrt_mono_rel [OF _ sorted_wrt_upt]) (simp add: word_less_nat_alt unat del: upt_Suc)
  then show "sorted_wrt (<) (map word_of_nat [0..<Suc (unat l)] :: u8 list)"
    by (simp add: sorted_wrt_map del: upt_Suc)
  have "n \<in> word_of_nat ` {0..<Suc (unat l)} \<longleftrightarrow> n \<le> l" for n
  proof
    assume "n \<le> l"
    then have "unat n \<in> {0..<Suc (unat l)}" by (simp add: word_le_nat_alt)
    moreover have "n = word_of_nat (unat n)" by simp
    ultimately show "n \<in> word_of_nat ` {0..<Suc (unat l)}" by (rule rev_image_eqI)
  next
    assume "n \<in> word_of_nat ` {0..<Suc (unat l)}"
    then obtain k where "k < Suc (unat l)" "n = word_of_nat k" by auto
    then show "n \<le> l" using unat [of k] by (simp add: word_le_nat_alt)
  qed
  then show "set (map word_of_nat [0..<Suc (unat l)]) = {n. n \<le> l}"
    by (simp add: set_eq_iff del: upt_Suc)
qed

lemma om_values_all:
  fixes m :: "(u8, 'v) ordered_map"
  assumes "om_wf m" and "\<And>n. map_of m n = (if n \<le> l then Some (f n) else None)"
  shows "om_values m = map (\<lambda>n. f (word_of_nat n)) [0..<Suc (unat l)]"
proof -
  have "dom (map_of m) = {n. n \<le> l}" using assms(2) by (simp add: dom_def)
  then have "set (map fst m) = {n. n \<le> l}" by (simp add: dom_map_of_conv_image_fst)
  then have keys: "map fst m = map word_of_nat [0..<Suc (unat l)]"
    using strict_sorted_equal [OF _ byte_range(1), of "map fst m" l] assms(1) byte_range(2) [of l]
    by (simp add: om_wf_def del: upt_Suc)
  have "snd p = f (fst p)" if "p \<in> set m" for p
    using that assms(2) [of "fst p"] map_of_eq_Some_iff [OF om_wf_distinct [OF assms(1)], of "fst p" "snd p"]
    by (simp split: if_splits)
  then have "om_values m = map f (map fst m)" by simp
  also have "\<dots> = map (\<lambda>n. f (word_of_nat n)) [0..<Suc (unat l)]" unfolding keys by simp
  finally show ?thesis .
qed

lemma table_collected:
  assumes "fst key < 0x50" and "set (sections_of key secs) = B ` {n. n \<le> l}"
    and "\<And>n. n \<le> l \<Longrightarrow> admit_section (B n) = Some (key, v, n, l)"
  shows "\<exists>inst. map_of (ingest_all secs) key = Some inst \<and> \<not> st_inconsistent (in_tracker inst) \<and>
           st_version (in_tracker inst) = Some v \<and> st_last_section_number (in_tracker inst) = Some l \<and>
           om_wf (in_sections inst) \<and>
           (\<forall>n. map_of (in_sections inst) n = (if n \<le> l then Some (section_events (B n)) else None))"
proof -
  define mine where "mine = sections_of key secs"
  define inst where "inst = foldl ingest_one eit_instance_default mine"
  let ?B = "\<lambda>n. if n \<le> l then Some (B n) else None"
  let ?os = "map observation_of mine"
  have adm: "\<exists>n. n \<le> l \<and> sec = B n" if "sec \<in> set mine" for sec
    using that assms(2) by (auto simp: mine_def)
  have obs: "observation_of (B n) = (v, n, l, B n)" if "n \<le> l" for n
    using assms(3) [OF that] by (simp add: observation_of_def)
  have "B l \<in> set mine" using assms(2) by (simp add: mine_def)
  then have ne: "mine \<noteq> []" by auto
  then have found: "map_of (ingest_all secs) key = Some inst"
    by (simp add: ingest_all_lookup mine_def inst_def)
  then have inv: "instance_inv (fst key) (observations key secs) inst"
    using ingest_all_inv map_of_SomeD by metis
  have key: "list_all (\<lambda>sec. map_option fst (admit_section sec) = Some key) mine"
    unfolding list_all_iff using adm assms(3) by fastforce
  have tracker: "in_tracker inst = track section_tracker_default ?os"
    using ingest_one_tracker [OF assms(1) key] by (simp add: inst_def eit_instance_default_def)
  have start: "collecting v l ?B section_tracker_default" "st_version section_tracker_default = None"
    by (simp_all add: collecting_def section_tracker_default_def accepts_version_def)
  have "list_all (agrees v l ?B) ?os"
    unfolding list_all_iff using adm obs by (fastforce simp: agrees_def)
  from track_collects [OF start(1) this]
  have seen: "collecting v l ?B (in_tracker inst)" "st_version (in_tracker inst) = Some v"
    "st_seen_sections (in_tracker inst) = (\<lambda>(v, n, l, b). n) ` set ?os"
    using ne start(2) by (simp_all add: tracker)
  have "(\<lambda>(v, n, l, b). n) ` set ?os = {n. n \<le> l}"
    using assms(2) obs by (simp add: mine_def image_image)
  then have "dom (st_payloads (in_tracker inst)) = {n. n \<le> l}"
    using inv seen by (simp add: instance_inv_def tracker_inv_def collecting_def)
  then have "st_payloads (in_tracker inst) n = ?B n" for n
    using seen(1,2) by (auto simp: collecting_def map_le_def dom_def)
  then show ?thesis
    using found seen(1,2) inv by (simp add: collecting_def instance_inv_def stored_events_def)
qed

lemma required_present_following:
  "table_id < 0x50 \<Longrightarrow> st_last_section_number (in_tracker inst) = Some l \<Longrightarrow> required_section table_id inst n \<longleftrightarrow> n \<le> l"
  by (simp add: required_section_def unwrap_or_def)

lemma table_reported:
  assumes "fst key < 0x50" and "set (sections_of key secs) = B ` {n. n \<le> l}"
    and "\<And>n. n \<le> l \<Longrightarrow> admit_section (B n) = Some (key, v, n, l)"
  shows "\<exists>inst. map_of (ingest_all secs) key = Some inst \<and> is_complete (instance_state (key, inst)) \<and>
           is_version (instance_state (key, inst)) = v \<and>
           is_last_section_number (instance_state (key, inst)) = l \<and> required_section (fst key) inst l \<and>
           om_values (in_sections inst) = map (\<lambda>n. section_events (B (word_of_nat n))) [0..<Suc (unat l)]"
proof -
  obtain inst where inst: "map_of (ingest_all secs) key = Some inst" "\<not> st_inconsistent (in_tracker inst)"
    "st_version (in_tracker inst) = Some v" "st_last_section_number (in_tracker inst) = Some l"
    "om_wf (in_sections inst)"
    and events: "\<And>n. map_of (in_sections inst) n = (if n \<le> l then Some (section_events (B n)) else None)"
    using table_collected [OF assms] by blast
  have "is_complete (instance_state (key, inst))"
    using inst(2) events required_present_following [OF assms(1) inst(4)] by (simp add: no_missing_iff)
  then show ?thesis
    using inst om_values_all [OF inst(5) events] required_present_following [OF assms(1) inst(4)]
    by (simp add: unwrap_or_def del: upt_Suc)
qed

text \<open>Two sections of one table, the second sent first and repeated, and a damaged one between them.\<close>

definition sample_section :: "u8 \<Rightarrow> bytes" where
  "sample_section n =
     (let body = [0x4e, 0xf0, 15, 0, 1, 0xc1, n, 1, 0, 17, 0, 34, 1, 0x4e]
      in body @ to_be_bytes_u32 (crc32_mpeg body))"

abbreviation sample_key :: table_key where
  "sample_key \<equiv> (0x4e, 34, 17, 1, True)"

definition sample_sections :: "bytes list" where
  "sample_sections = [sample_section 1, take 10 (sample_section 0), sample_section 0, sample_section 1]"

lemma sample_admitted: "admit_section (sample_section n) = Some (sample_key, 0, n, 1)"
proof -
  let ?body = "[0x4e, 0xf0, 15, 0, 1, 0xc1, n, 1, 0, 17, 0, 34, 1, 0x4e] :: bytes"
  have "section_crc_valid_with_header (?body @ to_be_bytes_u32 (crc32_mpeg ?body)) h"
    if "ih_section_length h = 15" "ih_total_length h = 18" for h
    using that crc32_appended [of ?body]
    by (simp add: section_crc_valid_with_header_def si_crc32_mpeg_eq to_be_bytes_u32_def)
  then show ?thesis
    unfolding sample_section_def Let_def
    by (simp add: admit_section_def si_parse_section_header_def length12_def be16_def in_range_def
        to_be_bytes_u32_def)
qed

lemma sample_damaged: "admit_section (take 10 (sample_section n)) = None"
  by (simp add: admit_section_def si_parse_section_header_def length12_def sample_section_def Let_def
      to_be_bytes_u32_def)

lemma sample_of_table: "set (sections_of sample_key sample_sections) = sample_section ` {n. n \<le> 1}"
proof -
  have "{n :: u8. n \<le> 1} = {0, 1}" using byte_range(2) [of 1] by simp
  then show ?thesis by (auto simp: sections_of_def sample_sections_def sample_admitted sample_damaged)
qed

text \<open>
  A section of a table as the broadcasting standard lays it out, byte by byte: the fields of the key, the
  version in five bits, the current/next bit, the section number \<open>n\<close>, the last section number \<open>l\<close> and the
  last section number \<open>e\<close> of its segment, a length field that gives the length of the section, and a
  checksum that comes out as zero.
\<close>

definition eit_section :: "table_key \<Rightarrow> u8 \<Rightarrow> u8 \<Rightarrow> u8 \<Rightarrow> u8 \<Rightarrow> bytes \<Rightarrow> bool" where
  "eit_section key v n l e sec \<longleftrightarrow>
     (case key of (table_id, onid, tsid, service_id, current) \<Rightarrow>
        0x4e \<le> table_id \<and> table_id \<le> 0x6f \<and> crc32_mpeg sec = 0 \<and>
        (\<exists>b c version_byte last_table_id body.
           sec = [table_id, b, c, hi8 service_id, lo8 service_id, version_byte, n, l, hi8 tsid, lo8 tsid,
                  hi8 onid, lo8 onid, e, last_table_id] @ body \<and>
           length sec = 3 + 256 * (unat b mod 16) + unat c \<and>
           unat version_byte div 2 mod 32 = unat v \<and> current = odd (unat version_byte)))"

lemma be16_split [simp]: "hi8 (be16 x y) = x" "lo8 (be16 x y) = y"
  by (rule bit_word_eqI; auto simp: be16_def hi8_def lo8_def bit_simps dest: bit_imp_le_length)+

lemma length12_eq: "length12 b c = 256 * (unat b mod 16) + unat c"
proof -
  have "unat (b AND 0x0f) = unat b mod 16"
    by (simp add: and_mask_lits unsigned_take_bit_eq take_bit_nat_def)
  then show ?thesis using byte_bound [of c] by (simp add: length12_def shift_or)
qed

lemma version_field: "unat (drop_bit 1 (b :: u8) AND 0x1f) = unat b div 2 mod 32"
  using byte_bound [of b]
  by (simp add: and_mask_lits unsigned_take_bit_eq unsigned_drop_bit_eq take_bit_nat_def drop_bit_nat_def)

lemma current_field: "(b :: u8) AND 1 \<noteq> 0 \<longleftrightarrow> odd (unat b)"
proof -
  have "odd (unat b) \<longleftrightarrow> bit b 0" unfolding bit_0 [symmetric, of "unat b"] by (simp add: bit_unsigned_iff)
  then show ?thesis by (simp add: and_one_eq bit_0 odd_iff_mod_2_eq_one)
qed

lemma segment_start: "unat ((n :: u8) AND 0xf8) = 8 * (unat n div 8)"
proof -
  have f: "(0xf8 :: u8) = NOT (mask 3)" by (simp add: mask_eq_exp_minus_1)
  have "n AND 0xf8 = push_bit 3 (drop_bit 3 n)" unfolding f
    by (rule bit_word_eqI) (auto simp: bit_simps)
  then have "unat (n AND 0xf8) = take_bit 8 (push_bit 3 (drop_bit 3 (unat n)))"
    by (simp only: unsigned_push_bit_eq unsigned_drop_bit_eq) (simp add: take_bit_nat_eq_self byte_bound)
  also have "\<dots> = 8 * (unat n div 8)"
    using byte_bound [of n] by (simp add: push_bit_eq_mult drop_bit_eq_div take_bit_nat_def)
  finally show ?thesis .
qed

lemma first_fourteen:
  assumes "18 \<le> length sec"
  shows "sec = [sec ! 0, sec ! 1, sec ! 2, sec ! 3, sec ! 4, sec ! 5, sec ! 6, sec ! 7, sec ! 8, sec ! 9,
    sec ! 10, sec ! 11, sec ! 12, sec ! 13] @ drop 14 sec"
proof -
  have "take 14 sec = map ((!) sec) [0..<14]"
    using assms by (intro nth_equalityI) simp_all
  then show ?thesis using append_take_drop_id [of 14 sec] by (simp add: upt_rec numeral_nat)
qed

lemma admitted_fields:
  assumes "admit_section sec = Some (key, v, n, l)"
  shows "18 \<le> length sec" and "length sec = 3 + length12 (sec ! 1) (sec ! 2)" and "crc32_mpeg sec = 0"
    and "in_range 0x4e 0x6f (sec ! 0)" and "v = drop_bit 1 (sec ! 5) AND 0x1f" and "n = sec ! 6" and "l = sec ! 7"
    and "key = (sec ! 0, be16 (sec ! 10) (sec ! 11), be16 (sec ! 8) (sec ! 9), be16 (sec ! 3) (sec ! 4),
           sec ! 5 AND 1 \<noteq> 0)"
  using assms
  by (auto simp: admit_section_def si_parse_section_header_def section_crc_valid_with_header_def si_crc32_mpeg_eq
      Let_def split: if_splits)

lemma admitted_section:
  assumes "admit_section sec = Some (key, v, n, l)"
  shows "eit_section key v n l (sec ! 12) sec"
proof -
  note f = admitted_fields [OF assms]
  have "length sec = 3 + 256 * (unat (sec ! 1) mod 16) + unat (sec ! 2)" using f(2) length12_eq by simp
  moreover have "unat (sec ! 5) div 2 mod 32 = unat v" unfolding f(5) version_field ..
  ultimately show ?thesis
    unfolding eit_section_def f(6-8) prod.case be16_split current_field using f(3,4) first_fourteen [OF f(1)]
    unfolding in_range_def by blast
qed

lemma required_schedule:
  assumes "0x50 \<le> table_id" and "n AND 0xf8 \<le> unwrap_or 0 (st_last_section_number (in_tracker inst))"
    and "n AND 0xf8 \<le> m" and "m \<le> unwrap_or (n AND 0xf8) (in_segment_ends inst (n AND 0xf8))"
  shows "required_section table_id inst m"
proof -
  let ?l = "unwrap_or 0 (st_last_section_number (in_tracker inst))"
  have "unat (n AND 0xf8) \<in> set (filter (\<lambda>s. s mod 8 = 0) [0..<Suc (unat ?l)])"
    using assms(2) segment_start [of n] by (simp add: word_le_nat_alt less_Suc_eq_le del: upt_Suc)
  then have "word_of_nat (unat (n AND 0xf8)) \<in> set (map word_of_nat (filter (\<lambda>s. s mod 8 = 0) [0..<Suc (unat ?l)]) :: u8 list)"
    unfolding set_map by (rule imageI)
  then have "n AND 0xf8 \<in> set (map word_of_nat (filter (\<lambda>s. s mod 8 = 0) [0..<Suc (unat ?l)]))" by simp
  then show ?thesis
    using assms(1,3,4) unfolding required_section_def Let_def list_ex_iff by (auto simp del: upt_Suc)
qed

lemma stored_section_received:
  assumes "(key, inst) \<in> set (ingest_all secs)" and "st_payloads (in_tracker inst) n = Some sec"
  shows "sec \<in> set secs"
    and "eit_section key (is_version (instance_state (key, inst))) n
           (is_last_section_number (instance_state (key, inst))) (sec ! 12) sec"
    and "n \<le> is_last_section_number (instance_state (key, inst))"
proof -
  obtain v l where "st_version (in_tracker inst) = Some v" "st_last_section_number (in_tracker inst) = Some l" "n \<le> l"
    "(v, n, l, sec) \<in> observations key secs"
    using ingest_all_inv [OF assms(1)] assms(2) unfolding instance_inv_def tracker_inv_def by blast
  then show "sec \<in> set secs"
    and "eit_section key (is_version (instance_state (key, inst))) n
           (is_last_section_number (instance_state (key, inst))) (sec ! 12) sec"
    and "n \<le> is_last_section_number (instance_state (key, inst))"
    using admitted_section by (simp_all add: observations_def unwrap_or_def)
qed

text \<open>The section that is missing from a complete schedule lies behind the end its segment announces.\<close>

lemma complete_schedule_gap:
  assumes "(key, inst) \<in> set (ingest_all secs)" and "is_complete (instance_state (key, inst))"
    and "0x50 \<le> fst key" and "n \<le> is_last_section_number (instance_state (key, inst))"
    and "map_of (in_sections inst) n = None"
  shows "\<exists>sec. st_payloads (in_tracker inst) (n AND 0xf8) = Some sec \<and> sec ! 12 < n"
proof -
  let ?s = "n AND 0xf8"
  have inv: "stored_events inst" "segment_inv (fst key) inst"
    using ingest_all_inv [OF assms(1)] by (simp_all add: instance_inv_def)
  have all: "map_of (in_sections inst) m \<noteq> None" if "required_section (fst key) inst m" for m
    using that assms(2) no_missing_iff [of key inst] by simp
  have le: "?s \<le> n" using segment_start [of n] by (simp add: word_le_nat_alt)
  have "?s \<le> unwrap_or 0 (st_last_section_number (in_tracker inst))" using order_trans [OF le] assms(4) by simp
  note required = required_schedule [OF assms(3) this]
  have noted: "st_payloads (in_tracker inst) m = Some sec \<Longrightarrow> in_segment_ends inst (m AND 0xf8) = Some (sec ! 12)"
    and starts: "in_segment_ends inst start = Some e \<Longrightarrow> e AND 0xf8 = start" for m sec start e
    using inv(2) assms(2,3) by (auto simp: segment_inv_def)
  have "e AND 0xf8 \<le> e" for e :: u8 using segment_start [of e] by (simp add: word_le_nat_alt)
  then have "?s \<le> unwrap_or ?s (in_segment_ends inst ?s)"
    using starts [of ?s] by (cases "in_segment_ends inst ?s") (simp add: unwrap_or_def, metis option.simps(5) unwrap_or_def)
  then have "map_of (in_sections inst) ?s \<noteq> None" using all required by blast
  then obtain sec where sec: "st_payloads (in_tracker inst) ?s = Some sec"
    using inv(1) by (auto simp: stored_events_def)
  have same: "?s AND 0xf8 = ?s" by (simp add: and.assoc)
  have "\<not> n \<le> sec ! 12"
    using all [OF required [of n]] assms(5) le noted [OF sec] unfolding same by (auto simp: unwrap_or_def)
  then show ?thesis using sec by (auto simp: not_le)
qed

text \<open>
  C7. When the report on a table says that it is complete, nothing is kept that is not of this table, and
  nothing of it is missing. The events kept under a number are those that parsing gives for a section that was
  received, laid out as the standard says, with this table's identifiers, the reported version and last section
  number, its own length and a correct checksum. Every number up to the last one is there; only in a schedule
  may one be missing, namely when a received first section of its segment of eight announces
  that the segment ends before it.
\<close>

theorem complete_table_received:
  assumes "(key, inst) \<in> set (ingest_all secs)" and "state = instance_state (key, inst)"
    and "is_complete state"
  shows "(\<forall>n events. map_of (in_sections inst) n = Some events \<longrightarrow>
            n \<le> is_last_section_number state \<and>
            (\<exists>sec e. sec \<in> set secs \<and> eit_section key (is_version state) n (is_last_section_number state) e sec \<and>
               events = ef_events (parse_eit_section_facts sec))) \<and>
         (\<forall>n \<le> is_last_section_number state. map_of (in_sections inst) n = None \<longrightarrow>
            0x50 \<le> fst key \<and>
            (\<exists>first sec e. unat first = 8 * (unat n div 8) \<and> sec \<in> set secs \<and>
               eit_section key (is_version state) first (is_last_section_number state) e sec \<and> e < n))"
proof (intro conjI allI impI)
  note received = stored_section_received [OF assms(1), folded assms(2)]
  fix n events assume "map_of (in_sections inst) n = Some events"
  then obtain sec where sec: "st_payloads (in_tracker inst) n = Some sec" "events = section_events sec"
    using ingest_all_inv [OF assms(1)] by (auto simp: instance_inv_def stored_events_def)
  then show "n \<le> is_last_section_number state"
    and "\<exists>sec e. sec \<in> set secs \<and> eit_section key (is_version state) n (is_last_section_number state) e sec \<and>
      events = ef_events (parse_eit_section_facts sec)"
    using received [OF sec(1)] unfolding section_events_def by blast+
next
  note received = stored_section_received [OF assms(1), folded assms(2)]
  fix n assume n: "n \<le> is_last_section_number state" "map_of (in_sections inst) n = None"
  show schedule: "0x50 \<le> fst key"
  proof (rule ccontr)
    assume "\<not> 0x50 \<le> fst key"
    then have "fst key < 0x50" by (simp add: not_le)
    then have "required_section (fst key) inst n" using n(1) by (simp add: required_section_def assms(2) Let_def)
    then show False using n(2) assms(3) no_missing_iff [of key inst] by (auto simp: assms(2))
  qed
  obtain sec where "st_payloads (in_tracker inst) (n AND 0xf8) = Some sec" "sec ! 12 < n"
    using complete_schedule_gap [OF assms(1) assms(3) [unfolded assms(2)] schedule n(1) [unfolded assms(2)] n(2)] by blast
  then show "\<exists>first sec e. unat first = 8 * (unat n div 8) \<and> sec \<in> set secs \<and>
      eit_section key (is_version state) first (is_last_section_number state) e sec \<and> e < n"
    using received segment_start [of n] by blast
qed

theorem complete_table_received_witness:
  "\<exists>inst. (sample_key, inst) \<in> set (ingest_all sample_sections) \<and>
     is_complete (instance_state (sample_key, inst)) \<and>
     (\<exists>sec e. sec \<in> set sample_sections \<and> eit_section sample_key 0 1 1 e sec \<and>
        map_of (in_sections inst) 1 = Some (ef_events (parse_eit_section_facts sec)))"
proof -
  obtain inst where inst: "map_of (ingest_all sample_sections) sample_key = Some inst"
    "is_complete (instance_state (sample_key, inst))"
    and reported: "is_version (instance_state (sample_key, inst)) = 0"
      "is_last_section_number (instance_state (sample_key, inst)) = 1"
    using table_reported [OF _ sample_of_table sample_admitted] by auto
  note found = map_of_SomeD [OF inst(1)]
  note complete = complete_table_received [OF found refl inst(2), unfolded reported]
  have "map_of (in_sections inst) 1 \<noteq> None" using conjunct2 [OF complete] by auto
  then show ?thesis using conjunct1 [OF complete] found inst(2) by blast
qed

text \<open>
  C8. A present/following table whose sections are all received, in any order, with repetitions and between the
  sections of any other tables, is reported as complete, in its version, and its events are the
  events of its sections in the order of their numbers.
\<close>

theorem present_following_collected:
  assumes "fst key < 0x50" and "set (sections_of key secs) = B ` {n. n \<le> l}"
    and "\<And>n. n \<le> l \<Longrightarrow> admit_section (B n) = Some (key, v, n, l)"
  shows "\<exists>inst. map_of (ingest_all secs) key = Some inst \<and> is_complete (instance_state (key, inst)) \<and>
           is_version (instance_state (key, inst)) = v \<and>
           om_values (in_sections inst) =
             map (\<lambda>n. ef_events (parse_eit_section_facts (B (word_of_nat n)))) [0..<Suc (unat l)]"
  using table_reported [OF assms] unfolding section_events_def by blast

theorem present_following_collected_witness:
  "\<exists>inst. map_of (ingest_all sample_sections) sample_key = Some inst \<and>
     is_complete (instance_state (sample_key, inst)) \<and> is_version (instance_state (sample_key, inst)) = 0 \<and>
     om_values (in_sections inst) =
       map (\<lambda>n. ef_events (parse_eit_section_facts (sample_section (word_of_nat n)))) [0..<Suc (unat (1 :: u8))]"
  by (rule present_following_collected [OF _ sample_of_table sample_admitted]) simp

end
