(* ===== verification/Spec2Isabelle.thy ===== *)
theory Spec2Isabelle
  imports Ts_Framing Sections Ts_Core Descrambler Record_Index Pipeline_Invariant Object_Lifecycle
    Si_Descriptor_Facts Si_Eit_Facts Eit_Instances
begin

text \<open>
  \<^bold>\<open>What this development verifies.\<close> The repository holds an Android TV stack for Japanese
  broadcasting: a tuner HAL in Rust (\<open>src/tuner_hal2\<close>), an SI engine (\<open>src/arib_si_engine_rs\<close>), a CAS
  plugin, and the TV input and recording applications. The development models the deterministic core
  of the HAL: the path of a transport stream packet from the bytes a frontend delivers to the
  sections, PES packets and record index events a client receives, the descrambling on that path, and
  the bookkeeping of resources and runtime objects around it; and the parts of the SI engine that read
  the sections the HAL delivers.

  \<^bold>\<open>The packet path.\<close> A frontend's bytes go through \<open>TsPacketBuffer\<close>, which finds the packet
  boundaries (\<open>Ts_Framing\<close>); scrambled packets are descrambled in place (\<open>Descrambler\<close>, with the cipher
  of \<open>Multi2\<close>); \<open>validate_ts_packet\<close> reads the header and the adaptation field (\<open>Ts_Packet\<close>); the packet
  pipeline checks continuity, plans which filters receive the packet and feeds the assemblers of
  sections and PES packets (\<open>Packet_Pipeline\<close>); a record filter gets index events (\<open>Record_Index\<close>).

  \<^bold>\<open>Theories and sources\<close> (paths below \<open>src/tuner_hal2\<close>):

  \<^item> \<open>Tv_Prelude\<close>: machine integers, checked and saturating arithmetic, byte slices, maps with \<open>retain\<close>.
    \<open>Fencing\<close>: the contract of numbered handles (locale \<open>fenced_handles\<close>) and maps in key order.
  \<^item> \<open>Hal_Common\<close>, \<open>Ts_Framing\<close>: \<open>common/src/lib.rs\<close> (PIDs, section lengths, identifier allocation, error
    collection; \<open>TsPacketBuffer\<close>).
  \<^item> \<open>Payload_Assembler\<close>: the contract the two assemblers share (locale \<open>payload_assembler\<close>),
    interpreted in \<open>Ts_Core\<close> and \<open>Sections\<close>.
  \<^item> \<open>Ts_Core\<close>: \<open>demux/src/parser/ts_core.rs\<close> (continuity tracker, PES header, PES assembler).
  \<^item> \<open>Sections\<close>: \<open>demux/src/parser/sections.rs\<close> (section header, CRC, section assembler).
  \<^item> \<open>Ts_Packet\<close>, \<open>Pipeline_State\<close>, \<open>Packet_Pipeline\<close>, \<open>Pipeline_Invariant\<close>:
    \<open>demux/src/parser/packet_pipeline.rs\<close> and the calls of \<open>demux/src/runtime/demux.rs\<close> on it;
    \<open>Demux_Config\<close>: \<open>demux/src/config.rs\<close> and the enumerations the reports carry.
  \<^item> \<open>Record_Index\<close>: \<open>demux/src/parser/record_index.rs\<close>.
  \<^item> \<open>Multi2\<close>, \<open>Descrambler\<close>: \<open>descrambler/src/core\<close> and the PID claims and key tokens of
    \<open>descrambler/src/runtime\<close>. The cipher's contract is the locale \<open>block_cipher\<close>.
  \<^item> \<open>Resource_Ledger\<close>: \<open>resource_ledger/src/lib.rs\<close>.
  \<^item> \<open>Close_Txn\<close>, \<open>Object_Table\<close>, \<open>Object_Invariant\<close>, \<open>Object_Lifecycle\<close>:
    \<open>service_runtime/src/object_table.rs\<close>, \<open>ObjectCloseTxn\<close> of \<open>object_close_txn.rs\<close> and the registration of
    objects in \<open>boot.rs\<close>.
  \<^item> Below \<open>src/arib_si_engine_rs/src/core\<close>: \<open>Si_Sections\<close> (\<open>sections.rs\<close>: header, CRC, descriptor loops, section
    tracker), \<open>Si_Calendar\<close> (the date arithmetic of \<open>eit.rs\<close>), \<open>Arib_Tables\<close> (\<open>arib_jis_x0208_table.rs\<close>,
    \<open>arib_extended_graphic_table.rs\<close> and the kana tables), \<open>Arib_String\<close> (\<open>arib_string.rs\<close>), \<open>Si_Descriptors\<close>
    with its lemmas in \<open>Si_Descriptor_Facts\<close> (the parser of \<open>descriptors.rs\<close>), \<open>Si_Eit\<close> with its lemmas in
    \<open>Si_Eit_Facts\<close> (\<open>eit.rs\<close>, \<open>broadcast_clock.rs\<close>), \<open>Eit_Instances\<close> (\<open>eit_instances.rs\<close>).

  \<^bold>\<open>The SI path.\<close> A section goes to \<open>EitInstances::ingest\<close>, which checks it, asks the section tracker of its
  table whether it is new and keeps its events; \<open>parse_eit_section_facts\<close> reads the events of a section and
  \<open>parse_event_descriptors\<close> the descriptors of an event; their texts are decoded by \<open>AribStringDecoder\<close>.

  \<^bold>\<open>How code is modelled.\<close> Structs are records, enums datatypes, \<open>u8\<close> to \<open>u64\<close> words of their width,
  signed integers words read with \<open>sint\<close>, \<open>usize\<close> natural numbers where the code cannot overflow it.
  \<open>Result\<close> is a sum with \<open>Err\<close> and \<open>Ok\<close>; a method with \<open>&mut self\<close> takes the state and returns it. Maps
  are partial functions, or lists in key order where the code iterates them. Loops are structural
  recursion where possible, otherwise functions with a termination proof.

  \<^bold>\<open>What the properties show.\<close> Framing: chunking does not matter, no byte is lost
  uncounted, and behind noise every packet is delivered once 377 bytes are there. Assemblers: whatever a
  multiplexer sends comes out in order and byte for byte, and memory stays bounded. Pipeline: streams do not
  disturb each other, a section filter's output is that of one assembler run on its own stream, delivered
  units are whole, damaged or scrambled packets contribute nothing, and raw and record filters get every valid
  packet of theirs. The CRC check finds errors within four bytes that leave the section's length.
  Descrambling: the inverse of scrambling, all or nothing. Ledger and objects: a ledger call is accepted
  exactly when the life cycle has a move for it, stale handles stay refused, every call on the object table
  returns, cascades are exact, and cleanup attempts exclude each other. SI engine: a table is reported
  complete only when its sections have come, in a schedule up to the announced ends of the segments, and what
  is kept of it is what its sections say; a present/following table whose sections come is reported complete;
  an event information section is read as it was sent, with exact dates; descriptors come out in order and
  truncation is always reported; an item spread over descriptors is put together; a text is accepted by strict
  decoding exactly when replacing counts nothing, kana decode to themselves in each of their codings, and a
  text in parts decodes as in one piece.

  \<^bold>\<open>Fuel.\<close> Only the two ownership walks of \<open>Object_Table\<close> use fuel: one unit more than the table has
  entries. \<open>object_calls_return\<close> shows that this always gives a result in a reachable table, so the
  walks of the code end there.

  \<^bold>\<open>Not modelled.\<close> Input and output: device ioctls and reader threads (\<open>device\<close>), the
  message queues of the platform (\<open>fmq\<close>, \<open>fmq_shim\<close>), binder objects and AIDL conversions
  (\<open>aidl_service\<close>, \<open>binder_adapter\<close>), the worker threads and locks of
  \<open>service_runtime\<close>. The CAS plugin is C++ around a card reader, the applications \<open>tis\<close> and
  \<open>rec\<close> are Kotlin on Android's framework. Of the SI engine, service discovery, the facts for the
  provider and their JSON are left out. Of the demux runtime's handling of a packet, the selection of PES packets by
  stream number and the delivery behind the pipeline are left out. The wiping of key material and the text of error
  messages have no counterpart in the model.
\<close>

end
